(* ===== verification/Prelude.thy ===== *)
theory Prelude
  imports Main "HOL-Library.Multiset" "HOL-Library.Sublist"
begin

text \<open>
  Shared vocabulary of the development: the effect type of the C++ member functions (explicit
  state, C++ exceptions as a left injection), 32-bit signed arithmetic, the fragment of
  \<^verbatim>\<open>std::string\<close> the sources use, and the generic list lemmas of the component proofs.
\<close>

named_theorems io_defs \<open>definitions of the effect combinators\<close>


section \<open>Effects: state and C++ exceptions\<close>

text \<open>
  \<open>SqlError\<close> is the \<^verbatim>\<open>std::system_error\<close> thrown by the database layer; the others are the
  exceptions of the standard library and of the JSON, YAML and JWT libraries; \<open>Undefined\<close> stands for
  undefined behaviour (a vector element past the end) and is no exception at all.
\<close>

datatype exn =
    SqlError
  | RuntimeError string
  | InvalidArgument
  | OutOfRange
  | JsonError
  | YamlError
  | JwtError
  | Undefined

type_synonym 'a result = "exn + 'a"
type_synonym ('s, 'a) io = "'s \<Rightarrow> 'a result \<times> 's"

text \<open>Sequencing of computations that only fail or return.\<close>

definition bindR :: "'a result \<Rightarrow> ('a \<Rightarrow> 'b result) \<Rightarrow> 'b result" where
  "bindR r f = (case r of Inl e \<Rightarrow> Inl e | Inr x \<Rightarrow> f x)"

lemma bindR_simps [simp]: "bindR (Inl e) f = Inl e" "bindR (Inr x) f = f x"
  by (simp_all add: bindR_def)

definition ret :: "'a \<Rightarrow> ('s, 'a) io" where
  [io_defs]: "ret x s = (Inr x, s)"

definition raise :: "exn \<Rightarrow> ('s, 'a) io" where
  [io_defs]: "raise e s = (Inl e, s)"

definition bindE :: "('s, 'a) io \<Rightarrow> ('a \<Rightarrow> ('s, 'b) io) \<Rightarrow> ('s, 'b) io" where
  [io_defs]: "bindE m f s = (case m s of (Inl e, t) \<Rightarrow> (Inl e, t) | (Inr x, t) \<Rightarrow> f x t)"

text \<open>\<open>thenE m k\<close> is the sequence \<open>m; k\<close> of statements whose value is not used.\<close>

definition thenE :: "('s, 'a) io \<Rightarrow> ('s, 'b) io \<Rightarrow> ('s, 'b) io" where
  "thenE m k = bindE m (\<lambda>_. k)"

text \<open>\<open>catchE m h\<close> is \<^verbatim>\<open>try { m } catch (...) { h }\<close>: the handler runs in the state of the throw.\<close>

definition catchE :: "('s, 'a) io \<Rightarrow> ('s, 'a) io \<Rightarrow> ('s, 'a) io" where
  [io_defs]: "catchE m h s = (case m s of (Inl e, t) \<Rightarrow> h t | (Inr x, t) \<Rightarrow> (Inr x, t))"

text \<open>\<open>attemptE m\<close> runs \<open>m\<close> and hands its outcome, exception or value, to the next statement.\<close>

definition attemptE :: "('s, 'a) io \<Rightarrow> ('s, 'a result) io" where
  [io_defs]: "attemptE m s = (Inr (fst (m s)), snd (m s))"

lemma attemptE_eq [simp]: "attemptE m s = (r, t) \<longleftrightarrow> (\<exists>x. m s = (x, t) \<and> r = Inr x)"
  by (cases "m s") (auto simp: attemptE_def)

lemma ret_eq [simp]: "ret x s = (r, t) \<longleftrightarrow> r = Inr x \<and> t = s"
  by (auto simp: ret_def)

lemma raise_eq [simp]: "raise e s = (r, t) \<longleftrightarrow> r = Inl e \<and> t = s"
  by (auto simp: raise_def)

lemma bindE_Inr:
  "bindE m f s = (Inr y, t) \<longleftrightarrow> (\<exists>x u. m s = (Inr x, u) \<and> f x u = (Inr y, t))"
  by (auto simp: bindE_def split: prod.splits sum.splits)

lemma bindE_Inl:
  "bindE m f s = (Inl e, t) \<longleftrightarrow>
     m s = (Inl e, t) \<or> (\<exists>x u. m s = (Inr x, u) \<and> f x u = (Inl e, t))"
  by (auto simp: bindE_def split: prod.splits sum.splits)

lemma thenE_Inr:
  "thenE m k s = (Inr y, t) \<longleftrightarrow> (\<exists>x u. m s = (Inr x, u) \<and> k u = (Inr y, t))"
  by (simp add: thenE_def bindE_Inr)

lemma thenE_Inl:
  "thenE m k s = (Inl e, t) \<longleftrightarrow>
     m s = (Inl e, t) \<or> (\<exists>x u. m s = (Inr x, u) \<and> k u = (Inl e, t))"
  by (simp add: thenE_def bindE_Inl)

lemma catchE_eq:
  "catchE m h s = (r, t) \<longleftrightarrow>
     (\<exists>x. m s = (Inr x, t) \<and> r = Inr x) \<or> (\<exists>e u. m s = (Inl e, u) \<and> h u = (r, t))"
  by (auto simp: catchE_def split: prod.splits sum.splits)

lemma bindE_attemptE:
  "bindE (attemptE m) f s = (r, t) \<longleftrightarrow>
     (\<exists>e u. m s = (Inl e, u) \<and> f (Inl e) u = (r, t)) \<or>
     (\<exists>x u. m s = (Inr x, u) \<and> f (Inr x) u = (r, t))"
  by (cases "m s"; cases "fst (m s)") (auto simp: bindE_def attemptE_def)

lemmas io_runs = bindE_Inr bindE_Inl thenE_Inr thenE_Inl catchE_eq

text \<open>Evaluation on known runs, used by the witnesses and by the totality proofs.\<close>

lemma bindE_run: "m s = (Inr x, u) \<Longrightarrow> bindE m f s = f x u"
  by (simp add: bindE_def)

lemma thenE_run: "m s = (Inr x, u) \<Longrightarrow> thenE m k s = k u"
  by (simp add: thenE_def bindE_def)

lemma run_pair: "fst p = r \<Longrightarrow> p = (r, snd p)"
  by (simp add: prod_eq_iff)

lemma bindE_assoc: "bindE (bindE m f) g = bindE m (\<lambda>x. bindE (f x) g)"
  by (rule ext) (simp add: bindE_def split: prod.splits sum.splits)

lemma bindE_ret [simp]: "bindE m ret = m"
  by (rule ext) (simp add: bindE_def ret_def split: prod.splits sum.splits)

lemma ret_bindE [simp]: "bindE (ret x) f = f x"
  by (rule ext) (simp add: bindE_def ret_def)


text \<open>
  A relation between the states before and after a run, whatever its outcome. For a reflexive
  and transitive relation, the combinators preserve it.
\<close>

definition keeps :: "('s \<Rightarrow> 's \<Rightarrow> bool) \<Rightarrow> ('s, 'a) io \<Rightarrow> bool" where
  "keeps P m \<longleftrightarrow> (\<forall>s r t. m s = (r, t) \<longrightarrow> P s t)"

lemma keepsI: "(\<And>s r t. m s = (r, t) \<Longrightarrow> P s t) \<Longrightarrow> keeps P m"
  by (simp add: keeps_def)

lemma keepsD: "keeps P m \<Longrightarrow> m s = (r, t) \<Longrightarrow> P s t"
  by (simp add: keeps_def)

locale io_preorder =
  fixes P :: "'s \<Rightarrow> 's \<Rightarrow> bool"
  assumes refl: "P s s" and trans: "P s t \<Longrightarrow> P t u \<Longrightarrow> P s u"
begin

lemma keeps_ret: "keeps P (ret x)"
  by (rule keepsI) (simp add: refl)

lemma keeps_bindE: "keeps P m \<Longrightarrow> (\<And>x. keeps P (f x)) \<Longrightarrow> keeps P (bindE m f)"
  by (rule keepsI)
    (auto simp: bindE_def split: prod.splits sum.splits intro: trans dest: keepsD)

lemma keeps_thenE: "keeps P m \<Longrightarrow> keeps P k \<Longrightarrow> keeps P (thenE m k)"
  by (simp add: thenE_def keeps_bindE)

lemma keeps_catchE: "keeps P m \<Longrightarrow> keeps P h \<Longrightarrow> keeps P (catchE m h)"
  by (rule keepsI) (auto simp: catchE_eq intro: trans dest: keepsD)

lemma keeps_attemptE: "keeps P m \<Longrightarrow> keeps P (attemptE m)"
  by (rule keepsI) (auto dest: keepsD)

lemmas keeps_rules = keeps_ret keeps_bindE keeps_thenE keeps_catchE keeps_attemptE

end


section \<open>32-bit signed integers\<close>

text \<open>
  \<^verbatim>\<open>int\<close> and \<^verbatim>\<open>int32_t\<close> values are \<open>int\<close>; every arithmetic result is brought back to 32 bits by
  \<open>wrap32\<close> (two's complement). \<open>int32\<close> is the range predicate.
\<close>

definition wrap32 :: "int \<Rightarrow> int" where
  "wrap32 i = (i + 2147483648) mod 4294967296 - 2147483648"

definition int32 :: "int \<Rightarrow> bool" where
  "int32 i \<longleftrightarrow> - 2147483648 \<le> i \<and> i \<le> 2147483647"

lemma wrap32_id [simp]: "int32 i \<Longrightarrow> wrap32 i = i"
  by (simp add: wrap32_def int32_def)

lemma int32_wrap32 [simp]: "int32 (wrap32 i)"
  by (simp add: wrap32_def int32_def)

lemma wrap32_overflow: "wrap32 2147483648 = - 2147483648"
  by (simp add: wrap32_def)


section \<open>Strings\<close>

text \<open>\<^verbatim>\<open>std::string::find(pat, pos)\<close>: the least position at or after \<open>pos\<close>, or \<^verbatim>\<open>npos\<close> (\<open>None\<close>).\<close>

fun str_find :: "string \<Rightarrow> string \<Rightarrow> nat option" where
  "str_find pat s =
     (if take (length pat) s = pat then Some 0
      else case s of [] \<Rightarrow> None | _ # r \<Rightarrow> map_option Suc (str_find pat r))"

declare str_find.simps [simp del]

definition str_find_from :: "string \<Rightarrow> string \<Rightarrow> nat \<Rightarrow> nat option" where
  "str_find_from pat s pos =
     (if pos \<le> length s then map_option ((+) pos) (str_find pat (drop pos s)) else None)"

text \<open>\<^verbatim>\<open>substr(pos, n)\<close> for \<open>pos\<close> within the string.\<close>

definition str_sub :: "string \<Rightarrow> nat \<Rightarrow> nat \<Rightarrow> string" where
  "str_sub s pos n = take n (drop pos s)"

lemma str_find_Nil: "str_find pat [] = (if pat = [] then Some 0 else None)"
  by (subst str_find.simps) auto

lemma str_find_Cons:
  "str_find pat (c # s) =
     (if take (length pat) (c # s) = pat then Some 0 else map_option Suc (str_find pat s))"
  by (subst str_find.simps) (simp del: take_Suc_Cons)

lemma str_find_Some:
  "str_find pat s = Some n \<Longrightarrow> n \<le> length s \<and> take (length pat) (drop n s) = pat"
proof (induction s arbitrary: n)
  case Nil
  then show ?case by (auto simp: str_find_Nil split: if_splits)
next
  case (Cons c s)
  then show ?case by (auto simp: str_find_Cons split: if_splits)
qed

lemma str_find_prefix: "str_find pat (pat @ s) = Some 0"
  by (subst str_find.simps) simp

text \<open>
  The first occurrence of a pattern after a part that contains its first character nowhere is
  right after that part.
\<close>

lemma str_find_skip:
  assumes "p \<notin> set u"
  shows "str_find (p # pat) (u @ (p # pat) @ s) = Some (length u)"
  using assms
proof (induction u)
  case Nil
  then show ?case using str_find_prefix [of "p # pat" s] by simp
next
  case (Cons c u)
  then have "c \<noteq> p" by auto
  with Cons show ?case by (simp add: str_find_Cons)
qed

lemma str_find_absent: "p \<notin> set u \<Longrightarrow> str_find (p # pat) u = None"
  by (induction u) (auto simp: str_find_Nil str_find_Cons)


section \<open>Lists\<close>

lemma distinct_singleton_set: "distinct xs \<Longrightarrow> set xs = {x} \<Longrightarrow> xs = [x]"
proof (cases xs)
  case (Cons y ys)
  then show "distinct xs \<Longrightarrow> set xs = {x} \<Longrightarrow> xs = [x]" by (cases ys) auto
qed simp


lemma mset_filter_nil: "mset xs = mset (filter p ys) \<Longrightarrow> xs = [] \<longleftrightarrow> (\<forall>y\<in>set ys. \<not> p y)"
  by (metis filter_empty_conv mset_zero_iff)

lemma mset_filter_set: "mset xs = mset (filter p ys) \<Longrightarrow> set xs = {y \<in> set ys. p y}"
  by (metis mset_eq_setD set_filter)

text \<open>A selection on a key that occurs at most once has at most one row.\<close>

lemma distinct_key_filter:
  assumes "distinct (map f ys)" and "y \<in> set ys"
  shows "filter (\<lambda>z. f z = f y) ys = [y]"
  using assms
proof (induction ys)
  case Nil
  then show ?case by simp
next
  case (Cons x ys)
  show ?case
  proof (cases "y = x")
    case True
    with Cons.prems(1) have "filter (\<lambda>z. f z = f y) ys = []"
      by (auto simp: filter_empty_conv image_iff)
    with True show ?thesis by simp
  next
    case False
    with Cons.prems have "f x \<noteq> f y" by (auto simp: image_iff)
    with False Cons show ?thesis by simp
  qed
qed

text \<open>Replacing one element of a list, seen by a filter.\<close>

lemma length_filter_update:
  assumes "i < length xs"
  shows "length (filter p (xs[i := y])) + (if p (xs ! i) then 1 else 0) =
    length (filter p xs) + (if p y then 1 else 0)"
proof -
  have "length (filter p xs) = length (filter p (take i xs @ xs ! i # drop (Suc i) xs))"
    using assms by (simp add: id_take_nth_drop [symmetric])
  with assms show ?thesis by (simp add: upd_conv_take_nth_drop)
qed

subsection \<open>Lists of rows as maps\<close>

text \<open>A table seen as a map from a key column to its rows.\<close>

definition key_map :: "('r \<Rightarrow> 'k) \<Rightarrow> 'r list \<Rightarrow> 'k \<rightharpoonup> 'r" where
  "key_map f xs = map_of (map (\<lambda>x. (f x, x)) xs)"

lemma key_map_Nil [simp]: "key_map f [] = Map.empty"
  by (simp add: key_map_def)

lemma key_map_Cons [simp]: "key_map f (x # xs) = (key_map f xs)(f x \<mapsto> x)"
  by (simp add: key_map_def)

lemma key_map_None: "key_map f xs k = None \<longleftrightarrow> (\<forall>x\<in>set xs. f x \<noteq> k)"
  by (induction xs) auto

lemma key_map_SomeD: "key_map f xs k = Some x \<Longrightarrow> x \<in> set xs \<and> f x = k"
  by (induction xs) (auto split: if_splits)

lemma key_map_Some:
  "distinct (map f xs) \<Longrightarrow> key_map f xs k = Some x \<longleftrightarrow> x \<in> set xs \<and> f x = k"
  by (induction xs) (auto simp: image_iff dest: key_map_SomeD)

lemma key_map_append: "key_map f (xs @ [x]) k =
  (case key_map f xs k of None \<Rightarrow> if f x = k then Some x else None | Some y \<Rightarrow> Some y)"
  by (induction xs) auto

lemma key_map_snoc:
  "\<forall>y\<in>set xs. f y \<noteq> f x \<Longrightarrow> key_map f (xs @ [x]) = (key_map f xs)(f x \<mapsto> x)"
  by (induction xs) auto

lemma key_map_remove: "key_map f (filter (\<lambda>x. f x \<noteq> k) xs) = (key_map f xs)(k := None)"
  by (induction xs) (auto simp: fun_eq_iff)

lemma key_map_replace:
  assumes "x \<in> set xs" and "f x = k" and "f y = k"
  shows "key_map f (map (\<lambda>z. if f z = k then y else z) xs) = (key_map f xs)(k \<mapsto> y)"
proof -
  have "key_map f (map (\<lambda>z. if f z = k then y else z) zs) i =
      (if i = k then (if k \<in> f ` set zs then Some y else None) else key_map f zs i)" for zs i
    using assms(3) by (induction zs) auto
  moreover from assms(1,2) have "k \<in> f ` set xs" by auto
  ultimately show ?thesis by (auto simp: fun_eq_iff)
qed

lemma key_map_map: "(\<And>x. f (g x) = f x) \<Longrightarrow> key_map f (map g xs) k = map_option g (key_map f xs k)"
  by (induction xs) auto

lemma key_map_filter:
  assumes "distinct (map f xs)"
  shows "key_map f (filter p xs) k =
    (case key_map f xs k of None \<Rightarrow> None | Some x \<Rightarrow> if p x then Some x else None)"
  using assms
proof (induction xs)
  case (Cons x xs)
  have "key_map f xs (f x) = None"
    using Cons.prems by (auto simp: key_map_None image_iff)
  with Cons show ?case by auto
qed simp

lemma ran_key_map: "distinct (map f xs) \<Longrightarrow> ran (key_map f xs) = set xs"
  by (auto simp: ran_def key_map_Some)

end
