(* ===== verification/Data_Types.thy ===== *)
theory Data_Types
  imports Prelude
begin

text \<open>
  The structs of \<^verbatim>\<open>include/config-center/storage/data_types.h\<close> as records. Each field carries a
  short prefix of its struct (\<open>ck_\<close> for \<^verbatim>\<open>ConfigKey\<close> and so on); \<^verbatim>\<open>std::optional\<close> is \<open>option\<close>,
  \<^verbatim>\<open>int32_t\<close>, \<^verbatim>\<open>int64_t\<close> and \<^verbatim>\<open>int\<close> are \<open>int\<close>. The \<open>default_\<close> constants are the values of a
  default-initialised C++ object.
\<close>

record Application =
  app_app_id :: string
  app_name :: string
  app_description :: "string option"
  app_created_at :: string

record Namespace =
  ns_id :: string
  ns_app_id :: string
  ns_env :: string
  ns_cluster :: string
  ns_name :: string
  ns_type :: string
  ns_parent_namespace_id :: "string option"
  ns_approval_enabled :: "bool option"
  ns_created_at :: string

record ConfigKey =
  ck_namespace_id :: string
  ck_key :: string
  ck_value :: string
  ck_version :: int
  ck_status :: string
  ck_created_at :: string
  ck_updated_at :: string

record ConfigVersion =
  cv_version :: int
  cv_config_id :: string
  cv_value :: string
  cv_change_type :: string
  cv_operator_id :: string
  cv_created_at :: string

record ChangeLog =
  cl_id :: int
  cl_config_id :: string
  cl_namespace_id :: string
  cl_key :: string
  cl_version :: int
  cl_old_value :: string
  cl_new_value :: string
  cl_operation :: string
  cl_operator_id :: string
  cl_created_at :: string

record Release =
  rel_id :: int
  rel_namespace_id :: string
  rel_release_version :: int
  rel_release_note :: string
  rel_release_type :: string
  rel_status :: string
  rel_grayscale_percentage :: "int option"
  rel_whitelist :: "string option"
  rel_operator_id :: string
  rel_created_at :: string

record Approval =
  apr_id :: int
  apr_namespace_id :: string
  apr_submitter_id :: string
  apr_approver_id :: string
  apr_status :: string
  apr_comment :: string
  apr_created_at :: string
  apr_updated_at :: string

record User =
  usr_id :: int
  usr_username :: string
  usr_password_hash :: string
  usr_role :: string
  usr_created_at :: string

record ChangeLogQuery =
  clq_key :: "string option"
  clq_namespace_id :: "string option"
  clq_time_from :: "string option"
  clq_time_to :: "string option"
  clq_page :: int
  clq_page_size :: int

record ReleaseQuery =
  rq_namespace_id :: string
  rq_page :: int
  rq_page_size :: int

definition default_Namespace :: Namespace where
  "default_Namespace = \<lparr>ns_id = [], ns_app_id = [], ns_env = [], ns_cluster = [], ns_name = [],
     ns_type = [], ns_parent_namespace_id = None, ns_approval_enabled = None, ns_created_at = []\<rparr>"

definition default_ChangeLog :: ChangeLog where
  "default_ChangeLog = \<lparr>cl_id = 0, cl_config_id = [], cl_namespace_id = [], cl_key = [],
     cl_version = 0, cl_old_value = [], cl_new_value = [], cl_operation = [],
     cl_operator_id = [], cl_created_at = []\<rparr>"

definition default_Release :: Release where
  "default_Release = \<lparr>rel_id = 0, rel_namespace_id = [], rel_release_version = 0,
     rel_release_note = [], rel_release_type = [], rel_status = [],
     rel_grayscale_percentage = None, rel_whitelist = None, rel_operator_id = [],
     rel_created_at = []\<rparr>"

definition default_Approval :: Approval where
  "default_Approval = \<lparr>apr_id = 0, apr_namespace_id = [], apr_submitter_id = [],
     apr_approver_id = [], apr_status = [], apr_comment = [], apr_created_at = [],
     apr_updated_at = []\<rparr>"

definition default_User :: User where
  "default_User = \<lparr>usr_id = 0, usr_username = [], usr_password_hash = [], usr_role = [],
     usr_created_at = []\<rparr>"

definition default_ChangeLogQuery :: ChangeLogQuery where
  "default_ChangeLogQuery = \<lparr>clq_key = None, clq_namespace_id = None, clq_time_from = None,
     clq_time_to = None, clq_page = 1, clq_page_size = 20\<rparr>"

definition default_ReleaseQuery :: ReleaseQuery where
  "default_ReleaseQuery = \<lparr>rq_namespace_id = [], rq_page = 1, rq_page_size = 20\<rparr>"

text \<open>The primary key of the table \<^verbatim>\<open>configs\<close>.\<close>

definition ck_id :: "ConfigKey \<Rightarrow> string \<times> string" where
  "ck_id c = (ck_namespace_id c, ck_key c)"

end
