(* ===== verification/Sqlite_Orm.thy ===== *)
theory Sqlite_Orm
  imports Data_Types "HOL-Library.List_Lexorder" "HOL-Library.Char_ord"
begin

text \<open>
  The schema of \<^verbatim>\<open>createStorage\<close> (\<^verbatim>\<open>include/config-center/storage/sqlite_config_store.h\<close>) and the
  interface of the database layer. \<^verbatim>\<open>sqlite_orm\<close> and SQLite are not part of the repository: the
  member functions of \<^verbatim>\<open>storage_\<close> that the store calls are the fields of a record \<open>orm\<close>, a
  parameter of every store operation. The locales below state what the store relies on:
  \<^item> \<open>orm_table\<close>: a statement that returns has its SQL effect on one table and respects the
    declared constraints; a statement that throws changes nothing; a selection returns the
    matching rows in some order;
  \<^item> \<open>auto_table\<close>, \<open>keyed_table\<close>: \<^verbatim>\<open>autoincrement()\<close> identifiers grow, \<^verbatim>\<open>update\<close> goes by
    primary key;
  \<^item> \<open>sqlite_engine\<close>: the eight tables together with flat transactions (\<^verbatim>\<open>BEGIN\<close> inside a
    transaction is an error, \<^verbatim>\<open>ROLLBACK\<close> restores the tables of the matching \<^verbatim>\<open>BEGIN\<close>);
  \<^item> \<open>reliable_engine\<close>: in addition, a statement fails only because of a constraint.
  \<open>mem_orm\<close> is a reference engine that keeps the tables as lists; it satisfies all of them.
\<close>


section \<open>The schema\<close>

record db =
  applications :: "Application list"
  namespaces :: "Namespace list"
  configs :: "ConfigKey list"
  config_versions :: "ConfigVersion list"
  change_logs :: "ChangeLog list"
  releases :: "Release list"
  approvals :: "Approval list"
  users :: "User list"

definition empty_db :: db where
  "empty_db = \<lparr>applications = [], namespaces = [], configs = [], config_versions = [],
     change_logs = [], releases = [], approvals = [], users = []\<rparr>"

text \<open>
  An open connection: the tables, and the tables at the start of the transaction while one is
  active.
\<close>

record storage =
  tabs :: db
  snapshot :: "db option"

text \<open>
  The declared constraints: primary keys \<^verbatim>\<open>app_id\<close>, \<^verbatim>\<open>id\<close> and \<^verbatim>\<open>(namespace_id, key)\<close>, the
  \<^verbatim>\<open>unique()\<close> column \<^verbatim>\<open>username\<close>, and the foreign key of \<^verbatim>\<open>namespaces\<close>.
\<close>

definition app_dup :: "Application \<Rightarrow> Application \<Rightarrow> bool" where
  "app_dup a b \<longleftrightarrow> app_app_id a = app_app_id b"

definition ns_dup :: "Namespace \<Rightarrow> Namespace \<Rightarrow> bool" where
  "ns_dup a b \<longleftrightarrow> ns_id a = ns_id b"

definition ck_dup :: "ConfigKey \<Rightarrow> ConfigKey \<Rightarrow> bool" where
  "ck_dup a b \<longleftrightarrow> ck_id a = ck_id b"

definition usr_dup :: "User \<Rightarrow> User \<Rightarrow> bool" where
  "usr_dup a b \<longleftrightarrow> usr_username a = usr_username b"

definition no_dup :: "'r \<Rightarrow> 'r \<Rightarrow> bool" where
  "no_dup a b \<longleftrightarrow> False"

definition refs_ok :: "db \<Rightarrow> bool" where
  "refs_ok d \<longleftrightarrow> (\<forall>n\<in>set (namespaces d). \<exists>a\<in>set (applications d). app_app_id a = ns_app_id n)"

lemmas dup_defs = app_dup_def ns_dup_def ck_dup_def usr_dup_def no_dup_def

lemma refs_ok_frame [simp]:
  "refs_ok (configs_update f d) = refs_ok d"
  "refs_ok (config_versions_update g d) = refs_ok d"
  "refs_ok (change_logs_update h d) = refs_ok d"
  "refs_ok (releases_update i d) = refs_ok d"
  "refs_ok (approvals_update j d) = refs_ok d"
  "refs_ok (users_update k d) = refs_ok d"
  by (simp_all add: refs_ok_def)


text \<open>Normal form of the table updates that statements perform.\<close>

lemma db_upd_append [simp]:
  "applications_update (\<lambda>rs. rs @ xs1) d = d\<lparr>applications := applications d @ xs1\<rparr>"
  "namespaces_update (\<lambda>rs. rs @ xs2) d = d\<lparr>namespaces := namespaces d @ xs2\<rparr>"
  "configs_update (\<lambda>rs. rs @ xs3) d = d\<lparr>configs := configs d @ xs3\<rparr>"
  "config_versions_update (\<lambda>rs. rs @ xs4) d = d\<lparr>config_versions := config_versions d @ xs4\<rparr>"
  "change_logs_update (\<lambda>rs. rs @ xs5) d = d\<lparr>change_logs := change_logs d @ xs5\<rparr>"
  "releases_update (\<lambda>rs. rs @ xs6) d = d\<lparr>releases := releases d @ xs6\<rparr>"
  "approvals_update (\<lambda>rs. rs @ xs7) d = d\<lparr>approvals := approvals d @ xs7\<rparr>"
  "users_update (\<lambda>rs. rs @ xs8) d = d\<lparr>users := users d @ xs8\<rparr>"
  by (cases d; simp)+

lemma db_upd_filter [simp]:
  "applications_update (filter p1) d = d\<lparr>applications := filter p1 (applications d)\<rparr>"
  "namespaces_update (filter p2) d = d\<lparr>namespaces := filter p2 (namespaces d)\<rparr>"
  "configs_update (filter p3) d = d\<lparr>configs := filter p3 (configs d)\<rparr>"
  "config_versions_update (filter p4) d = d\<lparr>config_versions := filter p4 (config_versions d)\<rparr>"
  "change_logs_update (filter p5) d = d\<lparr>change_logs := filter p5 (change_logs d)\<rparr>"
  "releases_update (filter p6) d = d\<lparr>releases := filter p6 (releases d)\<rparr>"
  "approvals_update (filter p7) d = d\<lparr>approvals := filter p7 (approvals d)\<rparr>"
  "users_update (filter p8) d = d\<lparr>users := filter p8 (users d)\<rparr>"
  by (cases d; simp)+

lemma db_upd_map [simp]:
  "applications_update (map f1) d = d\<lparr>applications := map f1 (applications d)\<rparr>"
  "namespaces_update (map f2) d = d\<lparr>namespaces := map f2 (namespaces d)\<rparr>"
  "configs_update (map f3) d = d\<lparr>configs := map f3 (configs d)\<rparr>"
  "config_versions_update (map f4) d = d\<lparr>config_versions := map f4 (config_versions d)\<rparr>"
  "change_logs_update (map f5) d = d\<lparr>change_logs := map f5 (change_logs d)\<rparr>"
  "releases_update (map f6) d = d\<lparr>releases := map f6 (releases d)\<rparr>"
  "approvals_update (map f7) d = d\<lparr>approvals := map f7 (approvals d)\<rparr>"
  "users_update (map f8) d = d\<lparr>users := map f8 (users d)\<rparr>"
  by (cases d; simp)+


section \<open>The operations of the database layer\<close>

text \<open>
  \<open>tbl_get_all_desc_int\<close> and \<open>tbl_get_all_desc_text\<close> are \<^verbatim>\<open>get_all\<close> with a descending
  \<^verbatim>\<open>order_by\<close> on an integer or a text column and an optional pair of \<^verbatim>\<open>limit\<close> and \<^verbatim>\<open>offset\<close>.
\<close>

record 'r table_ops =
  tbl_insert :: "'r \<Rightarrow> (storage, int) io"
  tbl_update :: "'r \<Rightarrow> (storage, unit) io"
  tbl_update_all :: "('r \<Rightarrow> 'r) \<Rightarrow> ('r \<Rightarrow> bool) \<Rightarrow> (storage, unit) io"
  tbl_remove_all :: "('r \<Rightarrow> bool) \<Rightarrow> (storage, unit) io"
  tbl_get_all :: "('r \<Rightarrow> bool) \<Rightarrow> (storage, 'r list) io"
  tbl_get_all_desc_int ::
    "('r \<Rightarrow> bool) \<Rightarrow> ('r \<Rightarrow> int) \<Rightarrow> (int \<times> int) option \<Rightarrow> (storage, 'r list) io"
  tbl_get_all_desc_text ::
    "('r \<Rightarrow> bool) \<Rightarrow> ('r \<Rightarrow> string) \<Rightarrow> (int \<times> int) option \<Rightarrow> (storage, 'r list) io"

record orm =
  t_applications :: "Application table_ops"
  t_namespaces :: "Namespace table_ops"
  t_configs :: "ConfigKey table_ops"
  t_config_versions :: "ConfigVersion table_ops"
  t_change_logs :: "ChangeLog table_ops"
  t_releases :: "Release table_ops"
  t_approvals :: "Approval table_ops"
  t_users :: "User table_ops"
  orm_sync_schema :: "(storage, unit) io"
  orm_get_allocator :: "(storage, unit) io"
  orm_begin :: "(storage, unit) io"
  orm_commit :: "(storage, unit) io"
  orm_rollback :: "(storage, unit) io"

text \<open>\<^verbatim>\<open>LIMIT l OFFSET o\<close>: a negative limit is no limit, a negative offset is 0.\<close>

fun sql_window :: "(int \<times> int) option \<Rightarrow> 'r list \<Rightarrow> 'r list" where
  "sql_window None xs = xs"
| "sql_window (Some (l, off)) xs =
     (if l < 0 then drop (nat off) xs else take (nat l) (drop (nat off) xs))"

lemma sql_window_subset: "set (sql_window w xs) \<subseteq> set xs"
  by (cases "(w, xs)" rule: sql_window.cases) (auto dest: in_set_takeD in_set_dropD)

lemma sql_window_sorted: "sorted_wrt P xs \<Longrightarrow> sorted_wrt P (sql_window w xs)"
  by (cases "(w, xs)" rule: sql_window.cases) (auto intro: sorted_wrt_take sorted_wrt_drop)

lemma sql_window_length: "0 \<le> l \<Longrightarrow> length (sql_window (Some (l, off)) xs) \<le> nat l"
  by simp


section \<open>What the store relies on\<close>

locale orm_table =
  fixes T :: "'r table_ops"
    and rows :: "db \<Rightarrow> 'r list"
    and upd :: "('r list \<Rightarrow> 'r list) \<Rightarrow> db \<Rightarrow> db"
    and dup :: "'r \<Rightarrow> 'r \<Rightarrow> bool"
    and stamp :: "int \<Rightarrow> 'r \<Rightarrow> 'r"
  assumes insert_ok:
      "tbl_insert T r s = (Inr i, t) \<Longrightarrow>
         t = s\<lparr>tabs := upd (\<lambda>rs. rs @ [stamp i r]) (tabs s)\<rparr> \<and>
         (\<forall>x\<in>set (rows (tabs s)). \<not> dup r x) \<and> refs_ok (tabs t)"
    and insert_throws: "tbl_insert T r s = (Inl e, t) \<Longrightarrow> t = s"
    and update_all_ok:
      "tbl_update_all T f p s = (Inr u, t) \<Longrightarrow>
         t = s\<lparr>tabs := upd (map (\<lambda>x. if p x then f x else x)) (tabs s)\<rparr>"
    and update_all_throws: "tbl_update_all T f p s = (Inl e, t) \<Longrightarrow> t = s"
    and remove_all_ok:
      "tbl_remove_all T p s = (Inr u, t) \<Longrightarrow>
         t = s\<lparr>tabs := upd (filter (\<lambda>x. \<not> p x)) (tabs s)\<rparr> \<and> refs_ok (tabs t)"
    and remove_all_throws: "tbl_remove_all T p s = (Inl e, t) \<Longrightarrow> t = s"
    and get_all_ok:
      "tbl_get_all T p s = (Inr xs, t) \<Longrightarrow>
         t = s \<and> mset xs = mset (filter p (rows (tabs s)))"
    and get_all_throws: "tbl_get_all T p s = (Inl e, t) \<Longrightarrow> t = s"
    and get_desc_int_ok:
      "tbl_get_all_desc_int T p k w s = (Inr xs, t) \<Longrightarrow>
         t = s \<and> (\<exists>ys. mset ys = mset (filter p (rows (tabs s))) \<and>
                   sorted_wrt (\<lambda>x y. k y \<le> k x) ys \<and> xs = sql_window w ys)"
    and get_desc_int_throws: "tbl_get_all_desc_int T p k w s = (Inl e, t) \<Longrightarrow> t = s"
    and get_desc_text_ok:
      "tbl_get_all_desc_text T p k' w s = (Inr xs, t) \<Longrightarrow>
         t = s \<and> (\<exists>ys. mset ys = mset (filter p (rows (tabs s))) \<and>
                   sorted_wrt (\<lambda>x y. k' y \<le> k' x) ys \<and> xs = sql_window w ys)"
    and get_desc_text_throws: "tbl_get_all_desc_text T p k' w s = (Inl e, t) \<Longrightarrow> t = s"
begin

lemma get_all_set:
  "tbl_get_all T p s = (Inr xs, t) \<Longrightarrow> t = s \<and> set xs = {x \<in> set (rows (tabs s)). p x}"
  using get_all_ok mset_filter_set by blast

lemma get_all_nil:
  "tbl_get_all T p s = (Inr [], t) \<Longrightarrow> t = s \<and> (\<forall>x\<in>set (rows (tabs s)). \<not> p x)"
  using get_all_set [of p s "[]" t] by auto

lemma get_desc_int_set:
  "tbl_get_all_desc_int T p k None s = (Inr xs, t) \<Longrightarrow>
     t = s \<and> mset xs = mset (filter p (rows (tabs s))) \<and> sorted_wrt (\<lambda>x y. k y \<le> k x) xs"
  using get_desc_int_ok [of p k None s xs t] by auto

text \<open>A descending selection limited to one row yields a row whose column is maximal.\<close>

lemma get_desc_int_max:
  assumes "tbl_get_all_desc_int T p k (Some (1, 0)) s = (Inr xs, t)"
  shows "t = s \<and> (case xs of [] \<Rightarrow> \<forall>y\<in>set (rows (tabs s)). \<not> p y
     | x # _ \<Rightarrow> x \<in> set (rows (tabs s)) \<and> p x \<and>
         (\<forall>y\<in>set (rows (tabs s)). p y \<longrightarrow> k y \<le> k x))"
proof -
  from get_desc_int_ok [OF assms] obtain ys where t: "t = s"
    and ys: "mset ys = mset (filter p (rows (tabs s)))"
    and srt: "sorted_wrt (\<lambda>x y. k y \<le> k x) ys" and xs: "xs = take 1 ys"
    by auto
  have set: "set ys = {y \<in> set (rows (tabs s)). p y}"
    using ys by (rule mset_filter_set)
  show ?thesis
  proof (cases ys)
    case Nil
    with t xs set show ?thesis by auto
  next
    case (Cons y zs)
    with srt have "\<forall>z\<in>set ys. k z \<le> k y" by auto
    with Cons t xs set show ?thesis by auto
  qed
qed

end

locale auto_table = orm_table T rows upd dup stamp
  for T :: "'r table_ops" and rows upd dup stamp +
  fixes ident :: "'r \<Rightarrow> int"
  assumes insert_id:
    "tbl_insert T r s = (Inr i, t) \<Longrightarrow> 0 < i \<and> (\<forall>x\<in>set (rows (tabs s)). ident x < i)"
begin

lemma insert_full:
  "tbl_insert T r s = (Inr i, t) \<Longrightarrow>
     t = s\<lparr>tabs := upd (\<lambda>rs. rs @ [stamp i r]) (tabs s)\<rparr> \<and>
     (\<forall>x\<in>set (rows (tabs s)). \<not> dup r x) \<and> refs_ok (tabs t) \<and>
     0 < i \<and> (\<forall>x\<in>set (rows (tabs s)). ident x < i)"
  using insert_ok insert_id by blast

text \<open>\<^verbatim>\<open>try { id = insert(r); ok } catch (...) { failed }\<close>\<close>

lemma insert_attempt:
  assumes "catchE (bindE (tbl_insert T r) (\<lambda>i. ret (ok i))) (ret failed) s = (res, t)"
  shows "(res = Inr failed \<and> t = s) \<or>
    (\<exists>i. res = Inr (ok i) \<and> 0 < i \<and> (\<forall>x\<in>set (rows (tabs s)). ident x < i \<and> \<not> dup r x) \<and>
      t = s\<lparr>tabs := upd (\<lambda>rs. rs @ [stamp i r]) (tabs s)\<rparr>)"
proof (cases "tbl_insert T r s")
  case (Pair x u)
  show ?thesis
  proof (cases x)
    case (Inl e)
    with Pair assms insert_throws [of r s e u] show ?thesis
      by (auto simp: catchE_def bindE_def ret_def)
  next
    case (Inr i)
    with Pair assms insert_ok [of r s i u] insert_id [of r s i u] show ?thesis
      by (intro disjI2 exI [of _ i]) (auto simp: catchE_def bindE_def ret_def)
  qed
qed

end

locale keyed_table = orm_table T rows upd dup stamp
  for T :: "'r table_ops" and rows upd dup stamp +
  assumes update_ok:
      "tbl_update T r s = (Inr u, t) \<Longrightarrow>
         t = s\<lparr>tabs := upd (map (\<lambda>x. if dup r x then r else x)) (tabs s)\<rparr>"
    and update_throws: "tbl_update T r s = (Inl e, t) \<Longrightarrow> t = s"

locale reliable_table = orm_table T rows upd dup stamp
  for T :: "'r table_ops" and rows upd dup stamp +
  assumes insert_fails:
      "tbl_insert T r s = (Inl e, t) \<Longrightarrow>
         (\<exists>x\<in>set (rows (tabs s)). dup r x) \<or>
         (\<exists>i. \<not> refs_ok (upd (\<lambda>rs. rs @ [stamp i r]) (tabs s)))"
    and update_all_total: "\<exists>t. tbl_update_all T f p s = (Inr (), t)"
    and remove_all_fails:
      "tbl_remove_all T p s = (Inl e, t) \<Longrightarrow>
         \<not> refs_ok (upd (filter (\<lambda>x. \<not> p x)) (tabs s))"
    and get_all_total: "\<exists>xs. tbl_get_all T p s = (Inr xs, s)"
    and get_desc_int_total: "\<exists>xs. tbl_get_all_desc_int T p k w s = (Inr xs, s)"
    and get_desc_text_total: "\<exists>xs. tbl_get_all_desc_text T p k' w s = (Inr xs, s)"
begin

lemma insert_total:
  assumes "\<And>x. x \<in> set (rows (tabs s)) \<Longrightarrow> \<not> dup r x"
    and "\<And>i. refs_ok (upd (\<lambda>rs. rs @ [stamp i r]) (tabs s))"
  shows "\<exists>i. tbl_insert T r s = (Inr i, s\<lparr>tabs := upd (\<lambda>rs. rs @ [stamp i r]) (tabs s)\<rparr>)"
proof (cases "tbl_insert T r s")
  case (Pair x t)
  then show ?thesis
    using insert_fails [of r s _ t] insert_ok [of r s _ t] assms by (cases x) auto
qed

lemma insert_duplicate:
  assumes "x \<in> set (rows (tabs s))" and "dup r x"
  shows "\<exists>e. tbl_insert T r s = (Inl e, s)"
proof (cases "tbl_insert T r s")
  case (Pair y t)
  then show ?thesis
    using insert_ok [of r s _ t] insert_throws [of r s _ t] assms by (cases y) auto
qed

lemma remove_all_total:
  assumes "refs_ok (upd (filter (\<lambda>x. \<not> p x)) (tabs s))"
  shows "tbl_remove_all T p s = (Inr (), s\<lparr>tabs := upd (filter (\<lambda>x. \<not> p x)) (tabs s)\<rparr>)"
proof (cases "tbl_remove_all T p s")
  case (Pair x t)
  then show ?thesis
    using remove_all_fails [of p s _ t] remove_all_ok [of p s _ t] assms by (cases x) auto
qed

end


text \<open>The identifier that \<^verbatim>\<open>insert\<close> assigns in the tables with an \<^verbatim>\<open>autoincrement()\<close> key.\<close>

definition keep_row :: "int \<Rightarrow> 'r \<Rightarrow> 'r" where
  "keep_row i r = r"

definition stamp_cl :: "int \<Rightarrow> ChangeLog \<Rightarrow> ChangeLog" where
  "stamp_cl i r = r\<lparr>cl_id := i\<rparr>"

definition stamp_rel :: "int \<Rightarrow> Release \<Rightarrow> Release" where
  "stamp_rel i r = r\<lparr>rel_id := i\<rparr>"

definition stamp_apr :: "int \<Rightarrow> Approval \<Rightarrow> Approval" where
  "stamp_apr i r = r\<lparr>apr_id := i\<rparr>"

definition stamp_usr :: "int \<Rightarrow> User \<Rightarrow> User" where
  "stamp_usr i r = r\<lparr>usr_id := i\<rparr>"

lemmas stamp_defs = keep_row_def stamp_cl_def stamp_rel_def stamp_apr_def stamp_usr_def

locale sqlite_engine =
  app: orm_table "t_applications E" applications applications_update app_dup keep_row +
  ns: orm_table "t_namespaces E" namespaces namespaces_update ns_dup keep_row +
  cfg: keyed_table "t_configs E" configs configs_update ck_dup keep_row +
  ver: orm_table "t_config_versions E" config_versions config_versions_update no_dup keep_row +
  log: auto_table "t_change_logs E" change_logs change_logs_update no_dup stamp_cl cl_id +
  rel: auto_table "t_releases E" releases releases_update no_dup stamp_rel rel_id +
  apr: auto_table "t_approvals E" approvals approvals_update no_dup stamp_apr apr_id +
  usr: auto_table "t_users E" users users_update usr_dup stamp_usr usr_id
  for E :: orm +
  assumes begin_ok:
      "orm_begin E s = (Inr u, t) \<Longrightarrow> snapshot s = None \<and> t = s\<lparr>snapshot := Some (tabs s)\<rparr>"
    and begin_throws: "orm_begin E s = (Inl e, t) \<Longrightarrow> t = s"
    and commit_ok:
      "orm_commit E s = (Inr u, t) \<Longrightarrow> snapshot s \<noteq> None \<and> t = s\<lparr>snapshot := None\<rparr>"
    and commit_throws: "orm_commit E s = (Inl e, t) \<Longrightarrow> t = s"
    and rollback_total:
      "snapshot s = Some d \<Longrightarrow> orm_rollback E s = (Inr (), s\<lparr>tabs := d, snapshot := None\<rparr>)"
    and rollback_idle: "snapshot s = None \<Longrightarrow> orm_rollback E s = (Inl SqlError, s)"

locale reliable_engine = sqlite_engine E +
  rapp: reliable_table "t_applications E" applications applications_update app_dup keep_row +
  rns: reliable_table "t_namespaces E" namespaces namespaces_update ns_dup keep_row +
  rcfg: reliable_table "t_configs E" configs configs_update ck_dup keep_row +
  rver: reliable_table "t_config_versions E" config_versions config_versions_update no_dup keep_row +
  rlog: reliable_table "t_change_logs E" change_logs change_logs_update no_dup stamp_cl +
  rrel: reliable_table "t_releases E" releases releases_update no_dup stamp_rel +
  rapr: reliable_table "t_approvals E" approvals approvals_update no_dup stamp_apr +
  rusr: reliable_table "t_users E" users users_update usr_dup stamp_usr
  for E :: orm +
  assumes update_total: "\<exists>t. tbl_update (t_configs E) c s = (Inr (), t)"
    and begin_total: "snapshot s = None \<Longrightarrow> \<exists>t. orm_begin E s = (Inr (), t)"
    and commit_total: "snapshot s \<noteq> None \<Longrightarrow> \<exists>t. orm_commit E s = (Inr (), t)"


section \<open>A reference engine\<close>

definition mem_table ::
  "(db \<Rightarrow> 'r list) \<Rightarrow> (('r list \<Rightarrow> 'r list) \<Rightarrow> db \<Rightarrow> db) \<Rightarrow> ('r \<Rightarrow> 'r \<Rightarrow> bool) \<Rightarrow>
   (int \<Rightarrow> 'r \<Rightarrow> 'r) \<Rightarrow> ('r \<Rightarrow> int) \<Rightarrow> 'r table_ops" where
  "mem_table rows upd dup stamp ident = \<lparr>
     tbl_insert = (\<lambda>r s.
       let i = 1 + foldr (\<lambda>x m. max (ident x) m) (rows (tabs s)) 0;
           t = s\<lparr>tabs := upd (\<lambda>rs. rs @ [stamp i r]) (tabs s)\<rparr>
       in if (\<forall>x\<in>set (rows (tabs s)). \<not> dup r x) \<and> refs_ok (tabs t)
          then (Inr i, t) else (Inl SqlError, s)),
     tbl_update = (\<lambda>r s.
       (Inr (), s\<lparr>tabs := upd (map (\<lambda>x. if dup r x then r else x)) (tabs s)\<rparr>)),
     tbl_update_all = (\<lambda>f p s.
       (Inr (), s\<lparr>tabs := upd (map (\<lambda>x. if p x then f x else x)) (tabs s)\<rparr>)),
     tbl_remove_all = (\<lambda>p s.
       let t = s\<lparr>tabs := upd (filter (\<lambda>x. \<not> p x)) (tabs s)\<rparr>
       in if refs_ok (tabs t) then (Inr (), t) else (Inl SqlError, s)),
     tbl_get_all = (\<lambda>p s. (Inr (filter p (rows (tabs s))), s)),
     tbl_get_all_desc_int = (\<lambda>p k w s.
       (Inr (sql_window w (rev (sort_key k (filter p (rows (tabs s)))))), s)),
     tbl_get_all_desc_text = (\<lambda>p k w s.
       (Inr (sql_window w (rev (sort_key k (filter p (rows (tabs s)))))), s))\<rparr>"

definition mem_orm :: orm where
  "mem_orm = \<lparr>
     t_applications = mem_table applications applications_update app_dup keep_row (\<lambda>_. 0),
     t_namespaces = mem_table namespaces namespaces_update ns_dup keep_row (\<lambda>_. 0),
     t_configs = mem_table configs configs_update ck_dup keep_row (\<lambda>_. 0),
     t_config_versions =
       mem_table config_versions config_versions_update no_dup keep_row (\<lambda>_. 0),
     t_change_logs = mem_table change_logs change_logs_update no_dup stamp_cl cl_id,
     t_releases = mem_table releases releases_update no_dup stamp_rel rel_id,
     t_approvals = mem_table approvals approvals_update no_dup stamp_apr apr_id,
     t_users = mem_table users users_update usr_dup stamp_usr usr_id,
     orm_sync_schema = ret (),
     orm_get_allocator = ret (),
     orm_begin = (\<lambda>s. if snapshot s = None then (Inr (), s\<lparr>snapshot := Some (tabs s)\<rparr>)
                      else (Inl SqlError, s)),
     orm_commit = (\<lambda>s. if snapshot s = None then (Inl SqlError, s)
                       else (Inr (), s\<lparr>snapshot := None\<rparr>)),
     orm_rollback = (\<lambda>s. case snapshot s of None \<Rightarrow> (Inl SqlError, s)
                       | Some d \<Rightarrow> (Inr (), s\<lparr>tabs := d, snapshot := None\<rparr>))\<rparr>"

lemma rev_sort_key_desc:
  fixes k :: "'r \<Rightarrow> 'k::linorder"
  shows "sorted_wrt (\<lambda>x y. k y \<le> k x) (rev (sort_key k xs))"
  using sorted_sort_key [of k xs] by (simp add: sorted_wrt_rev sorted_map)

lemma foldr_max_ge: "x \<in> set xs \<Longrightarrow> (f x :: int) \<le> foldr (\<lambda>x m. max (f x) m) xs 0"
  by (induction xs) auto

lemma foldr_max_nonneg: "0 \<le> foldr (\<lambda>x m. max (f x) m) xs (0::int)"
  by (induction xs) auto

lemma mem_table_laws: "orm_table (mem_table rows upd dup stamp ident) rows upd dup stamp"
  by unfold_locales
    (auto simp: mem_table_def Let_def split: if_splits
      intro!: exI [of _ "rev (sort_key _ (filter _ (rows (tabs _))))"] rev_sort_key_desc)

lemma mem_auto_laws:
  "auto_table (mem_table rows upd dup stamp ident) rows upd dup stamp ident"
proof (intro auto_table.intro mem_table_laws auto_table_axioms.intro)
  fix r s i t
  assume "tbl_insert (mem_table rows upd dup stamp ident) r s = (Inr i, t)"
  then have "i = 1 + foldr (\<lambda>x m. max (ident x) m) (rows (tabs s)) 0"
    by (auto simp: mem_table_def Let_def split: if_splits)
  then show "0 < i \<and> (\<forall>x\<in>set (rows (tabs s)). ident x < i)"
    using foldr_max_nonneg [of ident "rows (tabs s)"] foldr_max_ge [of _ "rows (tabs s)" ident]
    by force
qed

lemma mem_keyed_laws: "keyed_table (mem_table rows upd dup stamp ident) rows upd dup stamp"
  by (intro keyed_table.intro mem_table_laws keyed_table_axioms.intro) (auto simp: mem_table_def)

lemma mem_reliable_laws: "reliable_table (mem_table rows upd dup stamp ident) rows upd dup stamp"
  by (intro reliable_table.intro mem_table_laws reliable_table_axioms.intro)
    (auto simp: mem_table_def Let_def split: if_splits)

lemma mem_tables [simp]:
  "t_applications mem_orm = mem_table applications applications_update app_dup keep_row (\<lambda>_. 0)"
  "t_namespaces mem_orm = mem_table namespaces namespaces_update ns_dup keep_row (\<lambda>_. 0)"
  "t_configs mem_orm = mem_table configs configs_update ck_dup keep_row (\<lambda>_. 0)"
  "t_config_versions mem_orm =
     mem_table config_versions config_versions_update no_dup keep_row (\<lambda>_. 0)"
  "t_change_logs mem_orm = mem_table change_logs change_logs_update no_dup stamp_cl cl_id"
  "t_releases mem_orm = mem_table releases releases_update no_dup stamp_rel rel_id"
  "t_approvals mem_orm = mem_table approvals approvals_update no_dup stamp_apr apr_id"
  "t_users mem_orm = mem_table users users_update usr_dup stamp_usr usr_id"
  by (simp_all add: mem_orm_def)

interpretation mem: sqlite_engine mem_orm
  by (intro sqlite_engine.intro sqlite_engine_axioms.intro)
    (simp_all only: mem_tables mem_table_laws mem_auto_laws mem_keyed_laws,
     auto simp: mem_orm_def split: if_splits option.splits)

interpretation mem: reliable_engine mem_orm
  by (intro reliable_engine.intro reliable_engine_axioms.intro mem.sqlite_engine_axioms)
    (simp_all only: mem_tables mem_reliable_laws,
     auto simp: mem_orm_def mem_table_def)

end
