(* ===== verification/Config_Store.thy ===== *)
theory Config_Store
  imports Data_Types
begin

text \<open>
  The abstract class \<^verbatim>\<open>ConfigStore\<close> (\<^verbatim>\<open>include/config-center/storage/config_store.h\<close>): the record
  \<open>config_store\<close> is its table of virtual functions over a state type \<open>'s\<close>; clients take such a
  record as the \<^verbatim>\<open>shared_ptr<ConfigStore>\<close> they hold. Operations that read the clock take the
  formatted time \<open>now\<close> that \<^verbatim>\<open>getTimestamp\<close> returns during the call; \<^verbatim>\<open>Release&\<close> and
  \<^verbatim>\<open>Approval&\<close> out-parameters are returned next to the boolean.

  The locale \<open>config_store\<close> is the contract the clients rely on, over three abstraction
  functions (applications, namespaces and configs as finite maps); \<open>reliable_config_store\<close> adds
  that the operations return.
\<close>

record 's config_store =
  cs_healthCheck :: "('s, bool) io"
  cs_createApplication :: "Application \<Rightarrow> ('s, bool) io"
  cs_getApplication :: "string \<Rightarrow> ('s, Application option) io"
  cs_listApplications :: "('s, Application list) io"
  cs_deleteApplication :: "string \<Rightarrow> ('s, bool) io"
  cs_createNamespace :: "Namespace \<Rightarrow> ('s, bool) io"
  cs_getNamespace :: "string \<Rightarrow> ('s, Namespace option) io"
  cs_listNamespaces :: "string \<Rightarrow> string \<Rightarrow> string \<Rightarrow> ('s, Namespace list) io"
  cs_deleteNamespace :: "string \<Rightarrow> ('s, bool) io"
  cs_createConfig :: "string \<Rightarrow> string \<Rightarrow> string \<Rightarrow> string \<Rightarrow> string \<Rightarrow> ('s, bool) io"
  cs_updateConfig :: "string \<Rightarrow> string \<Rightarrow> string \<Rightarrow> string \<Rightarrow> string \<Rightarrow> bool \<Rightarrow> ('s, bool) io"
  cs_deleteConfig :: "string \<Rightarrow> string \<Rightarrow> string \<Rightarrow> string \<Rightarrow> bool \<Rightarrow> ('s, bool) io"
  cs_getConfig :: "string \<Rightarrow> string \<Rightarrow> bool \<Rightarrow> ('s, ConfigKey option) io"
  cs_listConfigs :: "string \<Rightarrow> bool \<Rightarrow> ('s, ConfigKey list) io"
  cs_getConfigVersions :: "string \<Rightarrow> string \<Rightarrow> ('s, ConfigVersion list) io"
  cs_getConfigVersion :: "string \<Rightarrow> string \<Rightarrow> int \<Rightarrow> ('s, ConfigVersion option) io"
  cs_rollbackConfig :: "string \<Rightarrow> string \<Rightarrow> string \<Rightarrow> int \<Rightarrow> string \<Rightarrow> ('s, bool) io"
  cs_getChangeHistory :: "ChangeLogQuery \<Rightarrow> ('s, ChangeLog list) io"
  cs_createRelease :: "string \<Rightarrow> Release \<Rightarrow> ('s, bool \<times> Release) io"
  cs_getReleases :: "ReleaseQuery \<Rightarrow> ('s, Release list) io"
  cs_getRelease :: "int \<Rightarrow> ('s, Release option) io"
  cs_retireRelease :: "int \<Rightarrow> ('s, bool) io"
  cs_publishRelease ::
    "string \<Rightarrow> string \<Rightarrow> string \<Rightarrow> string \<Rightarrow> Release \<Rightarrow> ('s, bool \<times> Release) io"
  cs_createApproval :: "string \<Rightarrow> Approval \<Rightarrow> ('s, bool \<times> Approval) io"
  cs_updateApprovalStatus :: "string \<Rightarrow> int \<Rightarrow> string \<Rightarrow> string \<Rightarrow> ('s, bool) io"
  cs_getPendingApprovals :: "string \<Rightarrow> ('s, Approval list) io"
  cs_createUser :: "User \<Rightarrow> ('s, bool) io"
  cs_getUserByUsername :: "string \<Rightarrow> ('s, User option) io"
  cs_listUsers :: "('s, User list) io"
  cs_beginTransaction :: "('s, bool) io"
  cs_commitTransaction :: "('s, bool) io"
  cs_rollbackTransaction :: "('s, bool) io"


section \<open>The abstract view\<close>

text \<open>What a reader sees of a stored config when drafts are or are not included.\<close>

definition visible :: "bool \<Rightarrow> ConfigKey option \<Rightarrow> ConfigKey option" where
  "visible includeDraft r =
     (case r of None \<Rightarrow> None
      | Some c \<Rightarrow> if \<not> includeDraft \<and> ck_status c = ''draft'' then None else Some c)"

definition fresh_config :: "string \<Rightarrow> string \<Rightarrow> string \<Rightarrow> string \<Rightarrow> ConfigKey" where
  "fresh_config now n k v = \<lparr>ck_namespace_id = n, ck_key = k, ck_value = v, ck_version = 1,
     ck_status = ''draft'', ck_created_at = now, ck_updated_at = now\<rparr>"

definition edited_config :: "string \<Rightarrow> string \<Rightarrow> bool \<Rightarrow> ConfigKey \<Rightarrow> ConfigKey" where
  "edited_config now v draft c = c\<lparr>ck_value := v, ck_version := wrap32 (ck_version c + 1),
     ck_status := (if draft then ''draft'' else ''live''), ck_updated_at := now\<rparr>"

definition published :: "string \<Rightarrow> (string \<times> string \<rightharpoonup> ConfigKey) \<Rightarrow> (string \<times> string \<rightharpoonup> ConfigKey)" where
  "published n m = (\<lambda>i. if fst i = n then map_option (\<lambda>c. c\<lparr>ck_status := ''live''\<rparr>) (m i) else m i)"

lemma visible_simps [simp]:
  "visible d None = None"
  "visible True (Some c) = Some c"
  "ck_status c = ''draft'' \<Longrightarrow> visible False (Some c) = None"
  "ck_status c \<noteq> ''draft'' \<Longrightarrow> visible d (Some c) = Some c"
  by (simp_all add: visible_def)

lemma visible_eq_Some:
  "visible d r = Some c \<longleftrightarrow> r = Some c \<and> (d \<or> ck_status c \<noteq> ''draft'')"
  by (auto simp: visible_def split: option.splits)

lemma fresh_config_simps [simp]:
  "ck_namespace_id (fresh_config now n k v) = n"
  "ck_key (fresh_config now n k v) = k"
  "ck_value (fresh_config now n k v) = v"
  "ck_version (fresh_config now n k v) = 1"
  "ck_status (fresh_config now n k v) = ''draft''"
  "ck_id (fresh_config now n k v) = (n, k)"
  by (simp_all add: fresh_config_def ck_id_def)

lemma edited_config_simps [simp]:
  "ck_namespace_id (edited_config now v d c) = ck_namespace_id c"
  "ck_key (edited_config now v d c) = ck_key c"
  "ck_value (edited_config now v d c) = v"
  "ck_version (edited_config now v d c) = wrap32 (ck_version c + 1)"
  "ck_status (edited_config now v d c) = (if d then ''draft'' else ''live'')"
  "ck_id (edited_config now v d c) = ck_id c"
  by (simp_all add: edited_config_def ck_id_def)

lemma published_simps [simp]:
  "published n m (n, k) = map_option (\<lambda>c. c\<lparr>ck_status := ''live''\<rparr>) (m (n, k))"
  "n' \<noteq> n \<Longrightarrow> published n m (n', k) = m (n', k)"
  by (simp_all add: published_def)


section \<open>The contract\<close>

locale config_store =
  fixes S :: "'s config_store"
    and inv :: "'s \<Rightarrow> bool"
    and apps :: "'s \<Rightarrow> string \<rightharpoonup> Application"
    and nss :: "'s \<Rightarrow> string \<rightharpoonup> Namespace"
    and cfgs :: "'s \<Rightarrow> string \<times> string \<rightharpoonup> ConfigKey"
  assumes getApplication:
      "inv s \<Longrightarrow> cs_getApplication S a s = (Inr ra, t) \<Longrightarrow> t = s \<and> ra = apps s a"
    and createApplication:
      "inv s \<Longrightarrow> cs_createApplication S app s = (Inr b, t) \<Longrightarrow>
         inv t \<and> nss t = nss s \<and> cfgs t = cfgs s \<and>
         (if b then apps s (app_app_id app) = None \<and> apps t = (apps s)(app_app_id app \<mapsto> app)
          else apps t = apps s)"
    and deleteApplication:
      "inv s \<Longrightarrow> cs_deleteApplication S a s = (Inr b, t) \<Longrightarrow>
         inv t \<and> b \<and> nss t = nss s \<and> cfgs t = cfgs s \<and> apps t = (apps s)(a := None) \<and>
         (\<forall>n i. nss s i = Some n \<longrightarrow> ns_app_id n \<noteq> a)"
    and getNamespace:
      "inv s \<Longrightarrow> cs_getNamespace S i s = (Inr rn, t) \<Longrightarrow> t = s \<and> rn = nss s i"
    and createNamespace:
      "inv s \<Longrightarrow> cs_createNamespace S ns s = (Inr b, t) \<Longrightarrow>
         inv t \<and> apps t = apps s \<and> cfgs t = cfgs s \<and>
         (if b then nss s (ns_id ns) = None \<and> nss t = (nss s)(ns_id ns \<mapsto> ns) \<and>
                    apps s (ns_app_id ns) \<noteq> None
          else nss t = nss s)"
    and listNamespaces:
      "inv s \<Longrightarrow> cs_listNamespaces S a e c s = (Inr xs, t) \<Longrightarrow>
         t = s \<and> set xs = {n \<in> ran (nss s). ns_app_id n = a \<and> ns_env n = e \<and> ns_cluster n = c}"
    and deleteNamespace:
      "inv s \<Longrightarrow> cs_deleteNamespace S i s = (Inr b, t) \<Longrightarrow>
         inv t \<and> b \<and> apps t = apps s \<and> cfgs t = cfgs s \<and> nss t = (nss s)(i := None)"
    and getConfig:
      "inv s \<Longrightarrow> cs_getConfig S n k d s = (Inr rc, t) \<Longrightarrow>
         t = s \<and> rc = visible d (cfgs s (n, k))"
    and createConfig:
      "inv s \<Longrightarrow> cs_createConfig S now n k v op s = (Inr b, t) \<Longrightarrow>
         inv t \<and> apps t = apps s \<and> nss t = nss s \<and>
         (if b then cfgs s (n, k) = None \<and> cfgs t = (cfgs s)((n, k) \<mapsto> fresh_config now n k v)
          else cfgs t = cfgs s)"
    and updateConfig:
      "inv s \<Longrightarrow> cs_updateConfig S now n k v op d s = (Inr b, t) \<Longrightarrow>
         inv t \<and> apps t = apps s \<and> nss t = nss s \<and>
         (case cfgs s (n, k) of None \<Rightarrow> \<not> b \<and> cfgs t = cfgs s
          | Some c \<Rightarrow> b \<and> cfgs t = (cfgs s)((n, k) \<mapsto> edited_config now v d c))"
    and deleteConfig:
      "inv s \<Longrightarrow> cs_deleteConfig S now n k op d s = (Inr b, t) \<Longrightarrow>
         inv t \<and> b \<and> apps t = apps s \<and> nss t = nss s \<and>
         cfgs t = (case cfgs s (n, k) of None \<Rightarrow> cfgs s
            | Some c \<Rightarrow> if d \<and> ck_status c \<noteq> ''draft'' then cfgs s else (cfgs s)((n, k) := None))"
    and listConfigs:
      "inv s \<Longrightarrow> cs_listConfigs S n d s = (Inr cs, t) \<Longrightarrow>
         t = s \<and> distinct cs \<and> set cs = {c. \<exists>k. visible d (cfgs s (n, k)) = Some c}"
    and publishRelease:
      "inv s \<Longrightarrow> cs_publishRelease S now n note op out s = (Inr (b, r), t) \<Longrightarrow>
         inv t \<and> apps t = apps s \<and> nss t = nss s \<and>
         cfgs t = (if b then published n (cfgs s) else cfgs s)"

locale reliable_config_store = config_store S inv apps nss cfgs
  for S :: "'s config_store" and inv apps nss cfgs +
  assumes getApplication_total: "inv s \<Longrightarrow> \<exists>r. cs_getApplication S a s = (Inr r, s)"
    and createApplication_total:
      "inv s \<Longrightarrow> apps s (app_app_id app) = None \<Longrightarrow>
         \<exists>t. cs_createApplication S app s = (Inr True, t)"
    and getNamespace_total: "inv s \<Longrightarrow> \<exists>r. cs_getNamespace S i s = (Inr r, s)"
    and createNamespace_total:
      "inv s \<Longrightarrow> nss s (ns_id ns) = None \<Longrightarrow> apps s (ns_app_id ns) \<noteq> None \<Longrightarrow>
         \<exists>t. cs_createNamespace S ns s = (Inr True, t)"
    and getConfig_total: "inv s \<Longrightarrow> \<exists>r. cs_getConfig S n k d s = (Inr r, s)"
    and createConfig_total:
      "inv s \<Longrightarrow> \<exists>t. cs_createConfig S now n k v op s = (Inr (cfgs s (n, k) = None), t)"
    and updateConfig_total:
      "inv s \<Longrightarrow> \<exists>b t. cs_updateConfig S now n k v op d s = (Inr b, t)"
    and deleteConfig_total: "inv s \<Longrightarrow> \<exists>b t. cs_deleteConfig S now n k op d s = (Inr b, t)"
    and publishRelease_total:
      "inv s \<Longrightarrow> \<exists>r t. cs_publishRelease S now n note op out s = (Inr (True, r), t)"

end
