(* ===== verification/Sqlite_Store.thy ===== *)
theory Sqlite_Store
  imports Sqlite_Orm Config_Store
begin

text \<open>
  \<^verbatim>\<open>SqliteConfigStore\<close> (\<^verbatim>\<open>src/storage/sqlite_config_store.cpp\<close>). Every member function is a
  definition over the database layer \<open>E\<close>; the mutex \<^verbatim>\<open>mutex_\<close> is held for the whole of each public
  function (in \<^verbatim>\<open>rollbackConfig\<close>, for each of its two calls), so one run of a definition is one
  atomic section. \<open>now\<close> is the result of \<^verbatim>\<open>getTimestamp\<close>. The second half proves the effect of
  each operation on the tables, for every outcome, and that publishing is all or nothing.
\<close>


section \<open>Operations\<close>

definition makeConfigId :: "string \<Rightarrow> string \<Rightarrow> string" where
  "makeConfigId namespaceId key = namespaceId @ '':'' @ key"

definition initialize :: "orm \<Rightarrow> (storage, bool) io" where
  "initialize E = thenE (orm_sync_schema E) (ret True)"

definition healthCheck :: "orm \<Rightarrow> (storage, bool) io" where
  "healthCheck E = catchE (thenE (orm_get_allocator E) (ret True)) (ret False)"

text \<open>\<^verbatim>\<open>if (results.empty()) return std::nullopt; return results[0];\<close>\<close>

definition first_row :: "'r list \<Rightarrow> 'r option" where
  "first_row results = (case results of [] \<Rightarrow> None | r # _ \<Rightarrow> Some r)"

subsection \<open>Applications and namespaces\<close>

definition createApplication :: "orm \<Rightarrow> Application \<Rightarrow> (storage, bool) io" where
  "createApplication E app =
     catchE (thenE (tbl_insert (t_applications E) app) (ret True)) (ret False)"

definition getApplication :: "orm \<Rightarrow> string \<Rightarrow> (storage, Application option) io" where
  "getApplication E appId =
     bindE (tbl_get_all (t_applications E) (\<lambda>a. app_app_id a = appId))
       (\<lambda>results. ret (first_row results))"

definition listApplications :: "orm \<Rightarrow> (storage, Application list) io" where
  "listApplications E = tbl_get_all (t_applications E) (\<lambda>_. True)"

definition deleteApplication :: "orm \<Rightarrow> string \<Rightarrow> (storage, bool) io" where
  "deleteApplication E appId =
     thenE (tbl_remove_all (t_applications E) (\<lambda>a. app_app_id a = appId)) (ret True)"

definition createNamespace :: "orm \<Rightarrow> Namespace \<Rightarrow> (storage, bool) io" where
  "createNamespace E ns =
     catchE (thenE (tbl_insert (t_namespaces E) ns) (ret True)) (ret False)"

definition getNamespace :: "orm \<Rightarrow> string \<Rightarrow> (storage, Namespace option) io" where
  "getNamespace E nsId =
     bindE (tbl_get_all (t_namespaces E) (\<lambda>n. ns_id n = nsId))
       (\<lambda>results. ret (first_row results))"

definition listNamespaces :: "orm \<Rightarrow> string \<Rightarrow> string \<Rightarrow> string \<Rightarrow> (storage, Namespace list) io" where
  "listNamespaces E appId env cluster =
     tbl_get_all (t_namespaces E)
       (\<lambda>n. ns_app_id n = appId \<and> ns_env n = env \<and> ns_cluster n = cluster)"

definition deleteNamespace :: "orm \<Rightarrow> string \<Rightarrow> (storage, bool) io" where
  "deleteNamespace E nsId =
     thenE (tbl_remove_all (t_namespaces E) (\<lambda>n. ns_id n = nsId)) (ret True)"

subsection \<open>Configs\<close>

definition createConfig ::
  "orm \<Rightarrow> string \<Rightarrow> string \<Rightarrow> string \<Rightarrow> string \<Rightarrow> string \<Rightarrow> (storage, bool) io" where
  "createConfig E now namespaceId key value operatorId =
     (let config = \<lparr>ck_namespace_id = namespaceId, ck_key = key, ck_value = value,
            ck_version = 1, ck_status = ''draft'', ck_created_at = now, ck_updated_at = now\<rparr>;
          cv = \<lparr>cv_version = 1, cv_config_id = makeConfigId namespaceId key, cv_value = value,
            cv_change_type = ''create'', cv_operator_id = operatorId, cv_created_at = now\<rparr>;
          cl = default_ChangeLog\<lparr>cl_config_id := makeConfigId namespaceId key,
            cl_namespace_id := namespaceId, cl_key := key, cl_version := 1,
            cl_new_value := value, cl_operation := ''create'',
            cl_operator_id := operatorId, cl_created_at := now\<rparr>
      in bindE (attemptE (tbl_insert (t_configs E) config)) (\<lambda>inserted.
           case inserted of
             Inl _ \<Rightarrow> ret False
           | Inr _ \<Rightarrow>
               thenE (tbl_insert (t_config_versions E) cv)
                 (thenE (tbl_insert (t_change_logs E) cl) (ret True))))"

definition updateConfig ::
  "orm \<Rightarrow> string \<Rightarrow> string \<Rightarrow> string \<Rightarrow> string \<Rightarrow> string \<Rightarrow> bool \<Rightarrow> (storage, bool) io" where
  "updateConfig E now namespaceId key value operatorId draft =
     bindE (tbl_get_all (t_configs E) (\<lambda>c. ck_namespace_id c = namespaceId \<and> ck_key c = key))
       (\<lambda>results. case results of
          [] \<Rightarrow> ret False
        | c # _ \<Rightarrow>
           (let oldValue = ck_value c;
                newVersion = wrap32 (ck_version c + 1);
                config = c\<lparr>ck_value := value, ck_version := newVersion,
                  ck_status := (if draft then ''draft'' else ''live''), ck_updated_at := now\<rparr>;
                cv = \<lparr>cv_version = newVersion, cv_config_id = makeConfigId namespaceId key,
                  cv_value = value, cv_change_type = ''update'', cv_operator_id = operatorId,
                  cv_created_at = now\<rparr>;
                cl = default_ChangeLog\<lparr>cl_config_id := makeConfigId namespaceId key,
                  cl_namespace_id := namespaceId, cl_key := key, cl_version := newVersion,
                  cl_old_value := oldValue, cl_new_value := value, cl_operation := ''update'',
                  cl_operator_id := operatorId, cl_created_at := now\<rparr>
            in thenE (tbl_update (t_configs E) config)
                 (thenE (tbl_insert (t_config_versions E) cv)
                   (thenE (tbl_insert (t_change_logs E) cl) (ret True)))))"

definition deleteConfig ::
  "orm \<Rightarrow> string \<Rightarrow> string \<Rightarrow> string \<Rightarrow> string \<Rightarrow> bool \<Rightarrow> (storage, bool) io" where
  "deleteConfig E now namespaceId key operatorId draft =
     (let cl = default_ChangeLog\<lparr>cl_config_id := makeConfigId namespaceId key,
            cl_namespace_id := namespaceId, cl_key := key, cl_operation := ''delete'',
            cl_operator_id := operatorId, cl_created_at := now\<rparr>
      in thenE
           (if draft
            then tbl_remove_all (t_configs E)
                   (\<lambda>c. ck_namespace_id c = namespaceId \<and> ck_key c = key \<and> ck_status c = ''draft'')
            else tbl_remove_all (t_configs E)
                   (\<lambda>c. ck_namespace_id c = namespaceId \<and> ck_key c = key))
           (thenE (tbl_insert (t_change_logs E) cl) (ret True)))"

definition getConfig :: "orm \<Rightarrow> string \<Rightarrow> string \<Rightarrow> bool \<Rightarrow> (storage, ConfigKey option) io" where
  "getConfig E namespaceId key includeDraft =
     bindE (tbl_get_all (t_configs E) (\<lambda>c. ck_namespace_id c = namespaceId \<and> ck_key c = key))
       (\<lambda>results. case results of
          [] \<Rightarrow> ret None
        | c # _ \<Rightarrow> if \<not> includeDraft \<and> ck_status c = ''draft'' then ret None else ret (Some c))"

definition listConfigs :: "orm \<Rightarrow> string \<Rightarrow> bool \<Rightarrow> (storage, ConfigKey list) io" where
  "listConfigs E namespaceId includeDraft =
     bindE (tbl_get_all (t_configs E) (\<lambda>c. ck_namespace_id c = namespaceId))
       (\<lambda>results. ret (if \<not> includeDraft then filter (\<lambda>c. ck_status c \<noteq> ''draft'') results
                        else results))"

subsection \<open>Versions and history\<close>

definition getConfigVersions :: "orm \<Rightarrow> string \<Rightarrow> string \<Rightarrow> (storage, ConfigVersion list) io" where
  "getConfigVersions E namespaceId key =
     tbl_get_all_desc_int (t_config_versions E)
       (\<lambda>v. cv_config_id v = makeConfigId namespaceId key) cv_version None"

definition getConfigVersion ::
  "orm \<Rightarrow> string \<Rightarrow> string \<Rightarrow> int \<Rightarrow> (storage, ConfigVersion option) io" where
  "getConfigVersion E namespaceId key version =
     bindE (tbl_get_all (t_config_versions E)
              (\<lambda>v. cv_config_id v = makeConfigId namespaceId key \<and> cv_version v = version))
       (\<lambda>results. ret (first_row results))"

definition rollbackConfig ::
  "orm \<Rightarrow> string \<Rightarrow> string \<Rightarrow> string \<Rightarrow> int \<Rightarrow> string \<Rightarrow> (storage, bool) io" where
  "rollbackConfig E now namespaceId key targetVersion operatorId =
     bindE (getConfigVersion E namespaceId key targetVersion) (\<lambda>targetConfigVersion.
       case targetConfigVersion of
         None \<Rightarrow> ret False
       | Some v \<Rightarrow> updateConfig E now namespaceId key (cv_value v) operatorId True)"

definition getChangeHistory :: "orm \<Rightarrow> ChangeLogQuery \<Rightarrow> (storage, ChangeLog list) io" where
  "getChangeHistory E query =
     (let whereClause = (\<lambda>l.
            (case clq_key query of None \<Rightarrow> True | Some k \<Rightarrow> cl_key l = k) \<and>
            (case clq_namespace_id query of None \<Rightarrow> True | Some n \<Rightarrow> cl_namespace_id l = n) \<and>
            (case clq_time_from query of None \<Rightarrow> True | Some t \<Rightarrow> t \<le> cl_created_at l) \<and>
            (case clq_time_to query of None \<Rightarrow> True | Some t \<Rightarrow> cl_created_at l \<le> t));
          offset = wrap32 (wrap32 (clq_page query - 1) * clq_page_size query)
      in tbl_get_all_desc_text (t_change_logs E) whereClause cl_created_at
           (Some (clq_page_size query, offset)))"

subsection \<open>Releases, publishing\<close>

definition createRelease :: "orm \<Rightarrow> Release \<Rightarrow> (storage, bool \<times> Release) io" where
  "createRelease E release =
     catchE
       (bindE (tbl_insert (t_releases E) release) (\<lambda>id. ret (True, release\<lparr>rel_id := id\<rparr>)))
       (ret (False, release))"

definition getReleases :: "orm \<Rightarrow> ReleaseQuery \<Rightarrow> (storage, Release list) io" where
  "getReleases E query =
     (let offset = wrap32 (wrap32 (rq_page query - 1) * rq_page_size query)
      in tbl_get_all_desc_text (t_releases E)
           (\<lambda>r. rel_namespace_id r = rq_namespace_id query) rel_created_at
           (Some (rq_page_size query, offset)))"

definition getRelease :: "orm \<Rightarrow> int \<Rightarrow> (storage, Release option) io" where
  "getRelease E releaseId =
     bindE (tbl_get_all (t_releases E) (\<lambda>r. rel_id r = releaseId))
       (\<lambda>results. ret (first_row results))"

definition retireRelease :: "orm \<Rightarrow> int \<Rightarrow> (storage, bool) io" where
  "retireRelease E releaseId =
     thenE (tbl_update_all (t_releases E) (\<lambda>r. r\<lparr>rel_status := ''retired''\<rparr>)
              (\<lambda>r. rel_id r = releaseId))
       (ret True)"

definition beginTransaction :: "orm \<Rightarrow> (storage, bool) io" where
  "beginTransaction E = thenE (orm_begin E) (ret True)"

definition commitTransaction :: "orm \<Rightarrow> (storage, bool) io" where
  "commitTransaction E = thenE (orm_commit E) (ret True)"

definition rollbackTransaction :: "orm \<Rightarrow> (storage, bool) io" where
  "rollbackTransaction E = thenE (orm_rollback E) (ret True)"

text \<open>The body of the \<^verbatim>\<open>try\<close> block of \<^verbatim>\<open>publishRelease\<close> up to the assignment of \<^verbatim>\<open>outRelease\<close>.\<close>

definition publish_body ::
  "orm \<Rightarrow> string \<Rightarrow> string \<Rightarrow> string \<Rightarrow> string \<Rightarrow> (storage, Release) io" where
  "publish_body E now namespaceId releaseNote operatorId =
     bindE (tbl_get_all (t_configs E)
              (\<lambda>c. ck_namespace_id c = namespaceId \<and> ck_status c = ''draft'')) (\<lambda>draftConfigs.
     thenE (tbl_update_all (t_configs E) (\<lambda>c. c\<lparr>ck_status := ''live''\<rparr>)
              (\<lambda>c. ck_namespace_id c = namespaceId))
     (bindE (tbl_get_all_desc_int (t_releases E) (\<lambda>r. rel_namespace_id r = namespaceId)
               rel_release_version (Some (1, 0))) (\<lambda>rels.
        let maxVersion = (case rels of [] \<Rightarrow> 0 | r # _ \<Rightarrow> rel_release_version r);
            release = default_Release\<lparr>rel_namespace_id := namespaceId,
              rel_release_version := wrap32 (maxVersion + 1),
              rel_release_note := releaseNote, rel_release_type := ''full'',
              rel_status := ''active'', rel_operator_id := operatorId,
              rel_created_at := now\<rparr>
        in bindE (tbl_insert (t_releases E) release) (\<lambda>id.
             ret (release\<lparr>rel_id := id\<rparr>)))))"

text \<open>
  \<^verbatim>\<open>beginTransaction()\<close> stands before the \<^verbatim>\<open>try\<close>, so its exception leaves the function. An
  exception of \<^verbatim>\<open>commitTransaction()\<close> is caught after \<^verbatim>\<open>outRelease\<close> has been assigned.
\<close>

definition publishRelease ::
  "orm \<Rightarrow> string \<Rightarrow> string \<Rightarrow> string \<Rightarrow> string \<Rightarrow> Release \<Rightarrow> (storage, bool \<times> Release) io" where
  "publishRelease E now namespaceId releaseNote operatorId outRelease =
     thenE (beginTransaction E)
       (bindE (attemptE (publish_body E now namespaceId releaseNote operatorId)) (\<lambda>outcome.
          case outcome of
            Inl _ \<Rightarrow> thenE (rollbackTransaction E) (ret (False, outRelease))
          | Inr release \<Rightarrow>
              catchE (thenE (commitTransaction E) (ret (True, release)))
                (thenE (rollbackTransaction E) (ret (False, release)))))"

subsection \<open>Approvals and users\<close>

definition createApproval :: "orm \<Rightarrow> Approval \<Rightarrow> (storage, bool \<times> Approval) io" where
  "createApproval E approval =
     catchE
       (bindE (tbl_insert (t_approvals E) approval) (\<lambda>id. ret (True, approval\<lparr>apr_id := id\<rparr>)))
       (ret (False, approval))"

definition updateApprovalStatus ::
  "orm \<Rightarrow> string \<Rightarrow> int \<Rightarrow> string \<Rightarrow> string \<Rightarrow> (storage, bool) io" where
  "updateApprovalStatus E now approvalId status comment =
     thenE (tbl_update_all (t_approvals E)
              (\<lambda>a. a\<lparr>apr_status := status, apr_comment := comment, apr_updated_at := now\<rparr>)
              (\<lambda>a. apr_id a = approvalId))
       (ret True)"

definition getPendingApprovals :: "orm \<Rightarrow> string \<Rightarrow> (storage, Approval list) io" where
  "getPendingApprovals E namespaceId =
     tbl_get_all (t_approvals E)
       (\<lambda>a. apr_namespace_id a = namespaceId \<and> apr_status a = ''pending'')"

definition createUser :: "orm \<Rightarrow> User \<Rightarrow> (storage, bool) io" where
  "createUser E user = catchE (thenE (tbl_insert (t_users E) user) (ret True)) (ret False)"

definition getUserByUsername :: "orm \<Rightarrow> string \<Rightarrow> (storage, User option) io" where
  "getUserByUsername E username =
     bindE (tbl_get_all (t_users E) (\<lambda>u. usr_username u = username))
       (\<lambda>results. ret (first_row results))"

definition listUsers :: "orm \<Rightarrow> (storage, User list) io" where
  "listUsers E = tbl_get_all (t_users E) (\<lambda>_. True)"

subsection \<open>The virtual function table\<close>

definition sqlite_store :: "orm \<Rightarrow> storage config_store" where
  "sqlite_store E = \<lparr>
     cs_healthCheck = healthCheck E,
     cs_createApplication = createApplication E,
     cs_getApplication = getApplication E,
     cs_listApplications = listApplications E,
     cs_deleteApplication = deleteApplication E,
     cs_createNamespace = createNamespace E,
     cs_getNamespace = getNamespace E,
     cs_listNamespaces = listNamespaces E,
     cs_deleteNamespace = deleteNamespace E,
     cs_createConfig = createConfig E,
     cs_updateConfig = updateConfig E,
     cs_deleteConfig = deleteConfig E,
     cs_getConfig = getConfig E,
     cs_listConfigs = listConfigs E,
     cs_getConfigVersions = getConfigVersions E,
     cs_getConfigVersion = getConfigVersion E,
     cs_rollbackConfig = rollbackConfig E,
     cs_getChangeHistory = getChangeHistory E,
     cs_createRelease = (\<lambda>_. createRelease E),
     cs_getReleases = getReleases E,
     cs_getRelease = getRelease E,
     cs_retireRelease = retireRelease E,
     cs_publishRelease = publishRelease E,
     cs_createApproval = (\<lambda>_. createApproval E),
     cs_updateApprovalStatus = updateApprovalStatus E,
     cs_getPendingApprovals = getPendingApprovals E,
     cs_createUser = createUser E,
     cs_getUserByUsername = getUserByUsername E,
     cs_listUsers = listUsers E,
     cs_beginTransaction = beginTransaction E,
     cs_commitTransaction = commitTransaction E,
     cs_rollbackTransaction = rollbackTransaction E\<rparr>"


section \<open>Effects of the operations\<close>

text \<open>The rows that a write adds to the version and change-log tables.\<close>

definition version_row ::
  "string \<Rightarrow> string \<Rightarrow> string \<Rightarrow> int \<Rightarrow> string \<Rightarrow> string \<Rightarrow> string \<Rightarrow> ConfigVersion" where
  "version_row now n k ver v change op = \<lparr>cv_version = ver, cv_config_id = makeConfigId n k,
     cv_value = v, cv_change_type = change, cv_operator_id = op, cv_created_at = now\<rparr>"

definition log_row ::
  "int \<Rightarrow> string \<Rightarrow> string \<Rightarrow> string \<Rightarrow> int \<Rightarrow> string \<Rightarrow> string \<Rightarrow> string \<Rightarrow> string \<Rightarrow> ChangeLog" where
  "log_row i now n k ver old new operation op = \<lparr>cl_id = i, cl_config_id = makeConfigId n k,
     cl_namespace_id = n, cl_key = k, cl_version = ver, cl_old_value = old, cl_new_value = new,
     cl_operation = operation, cl_operator_id = op, cl_created_at = now\<rparr>"

definition release_row ::
  "int \<Rightarrow> string \<Rightarrow> string \<Rightarrow> int \<Rightarrow> string \<Rightarrow> string \<Rightarrow> Release" where
  "release_row i now n ver note op = \<lparr>rel_id = i, rel_namespace_id = n,
     rel_release_version = ver, rel_release_note = note, rel_release_type = ''full'',
     rel_status = ''active'', rel_grayscale_percentage = None, rel_whitelist = None,
     rel_operator_id = op, rel_created_at = now\<rparr>"

lemmas row_defs = version_row_def log_row_def release_row_def default_ChangeLog_def
  default_Release_def fresh_config_def edited_config_def stamp_defs

text \<open>The largest release version of a namespace, 0 when it has no release.\<close>

definition max_version :: "string \<Rightarrow> Release list \<Rightarrow> int" where
  "max_version n rs = (case filter (\<lambda>r. rel_namespace_id r = n) rs of [] \<Rightarrow> 0
     | xs \<Rightarrow> Max (rel_release_version ` set xs))"

lemma max_version_none: "\<forall>r\<in>set rs. rel_namespace_id r \<noteq> n \<Longrightarrow> max_version n rs = 0"
  by (simp add: max_version_def filter_False)

lemma max_version_eq:
  assumes "r \<in> set rs" and "rel_namespace_id r = n"
    and "\<forall>x\<in>set rs. rel_namespace_id x = n \<longrightarrow> rel_release_version x \<le> rel_release_version r"
  shows "max_version n rs = rel_release_version r"
proof -
  let ?xs = "filter (\<lambda>r. rel_namespace_id r = n) rs"
  from assms(1,2) have "r \<in> set ?xs" by simp
  moreover from this have "max_version n rs = Max (rel_release_version ` set ?xs)"
    by (cases ?xs) (auto simp: max_version_def)
  moreover have "Max (rel_release_version ` set ?xs) = rel_release_version r"
    using assms by (intro Max_eqI) auto
  ultimately show ?thesis by simp
qed

lemma max_version_ge:
  assumes "r \<in> set rs" and "rel_namespace_id r = n"
  shows "rel_release_version r \<le> max_version n rs"
proof -
  let ?xs = "filter (\<lambda>r. rel_namespace_id r = n) rs"
  from assms have r: "r \<in> set ?xs" by simp
  then have "max_version n rs = Max (rel_release_version ` set ?xs)"
    by (cases ?xs) (auto simp: max_version_def)
  with r show ?thesis by (simp add: Max_ge)
qed

lemma ck_dup_id: "ck_dup c d \<longleftrightarrow> ck_id c = ck_id d"
  by (simp add: ck_dup_def)

context sqlite_engine
begin

lemmas throws = app.insert_throws app.remove_all_throws app.get_all_throws
  ns.insert_throws ns.remove_all_throws ns.get_all_throws
  cfg.insert_throws cfg.update_throws cfg.update_all_throws cfg.remove_all_throws
  cfg.get_all_throws ver.insert_throws ver.get_all_throws ver.get_desc_int_throws
  log.insert_throws log.get_desc_text_throws rel.insert_throws rel.update_all_throws
  rel.get_all_throws rel.get_desc_int_throws rel.get_desc_text_throws apr.insert_throws
  apr.update_all_throws apr.get_all_throws usr.insert_throws usr.get_all_throws

lemma createApplication_effect:
  assumes "createApplication E app s = (r, t)"
  shows "(r = Inr False \<and> t = s) \<or>
    (r = Inr True \<and> t = s\<lparr>tabs := (tabs s)\<lparr>applications := applications (tabs s) @ [app]\<rparr>\<rparr> \<and>
     (\<forall>a\<in>set (applications (tabs s)). app_app_id a \<noteq> app_app_id app) \<and> refs_ok (tabs t))"
  using assms
  by (auto simp: createApplication_def io_runs keep_row_def app_dup_def
      dest!: app.insert_ok app.insert_throws)

lemma createNamespace_effect:
  assumes "createNamespace E n s = (r, t)"
  shows "(r = Inr False \<and> t = s) \<or>
    (r = Inr True \<and> t = s\<lparr>tabs := (tabs s)\<lparr>namespaces := namespaces (tabs s) @ [n]\<rparr>\<rparr> \<and>
     (\<forall>m\<in>set (namespaces (tabs s)). ns_id m \<noteq> ns_id n) \<and> refs_ok (tabs t))"
  using assms
  by (auto simp: createNamespace_def io_runs keep_row_def ns_dup_def
      dest!: ns.insert_ok ns.insert_throws)

lemma deleteApplication_effect:
  assumes "deleteApplication E a s = (r, t)"
  shows "(\<exists>e. r = Inl e \<and> t = s) \<or>
    (r = Inr True \<and> refs_ok (tabs t) \<and>
     t = s\<lparr>tabs := (tabs s)\<lparr>applications :=
           filter (\<lambda>x. app_app_id x \<noteq> a) (applications (tabs s))\<rparr>\<rparr>)"
  using assms
  by (cases r) (auto simp: deleteApplication_def io_runs
      dest!: app.remove_all_ok app.remove_all_throws)

lemma deleteNamespace_effect:
  assumes "deleteNamespace E i s = (r, t)"
  shows "(\<exists>e. r = Inl e \<and> t = s) \<or>
    (r = Inr True \<and> refs_ok (tabs t) \<and>
     t = s\<lparr>tabs := (tabs s)\<lparr>namespaces :=
           filter (\<lambda>x. ns_id x \<noteq> i) (namespaces (tabs s))\<rparr>\<rparr>)"
  using assms
  by (cases r) (auto simp: deleteNamespace_def io_runs
      dest!: ns.remove_all_ok ns.remove_all_throws)

lemma createConfig_effect:
  assumes "createConfig E now n k v op s = (Inr b, t)"
  shows "(\<not> b \<and> t = s) \<or>
    (b \<and> (\<forall>c\<in>set (configs (tabs s)). ck_id c \<noteq> (n, k)) \<and>
     (\<exists>i. (\<forall>l\<in>set (change_logs (tabs s)). cl_id l < i) \<and>
        t = s\<lparr>tabs := (tabs s)\<lparr>configs := configs (tabs s) @ [fresh_config now n k v],
        config_versions := config_versions (tabs s) @ [version_row now n k 1 v ''create'' op],
        change_logs := change_logs (tabs s) @ [log_row i now n k 1 [] v ''create'' op]\<rparr>\<rparr>))"
proof -
  let ?c = "fresh_config now n k v"
  obtain x u where ins: "tbl_insert (t_configs E) ?c s = (x, u)" by fastforce
  show ?thesis
  proof (cases x)
    case (Inl e)
    with assms ins cfg.insert_throws [of ?c s e u] show ?thesis
      by (auto simp: createConfig_def Let_def bindE_attemptE fresh_config_def)
  next
    case (Inr j)
    from assms ins Inr obtain j' w i where b: b
      and iv: "tbl_insert (t_config_versions E) (version_row now n k 1 v ''create'' op) u = (Inr j', w)"
      and il: "tbl_insert (t_change_logs E) (log_row 0 now n k 1 [] v ''create'' op) w = (Inr i, t)"
      by (auto simp: createConfig_def Let_def bindE_attemptE thenE_Inr row_defs)
    from cfg.insert_ok [OF ins [unfolded Inr]] ver.insert_ok [OF iv] log.insert_full [OF il] b
    show ?thesis
      by (intro disjI2 conjI exI [of _ i]) (auto simp: ck_dup_def log_row_def stamp_defs)
  qed
qed

lemma updateConfig_effect:
  assumes "updateConfig E now n k v op d s = (Inr b, t)"
  shows "(\<not> b \<and> t = s \<and> (\<forall>c\<in>set (configs (tabs s)). ck_id c \<noteq> (n, k))) \<or>
    (b \<and> (\<exists>c i. c \<in> set (configs (tabs s)) \<and> ck_id c = (n, k) \<and>
       (\<forall>l\<in>set (change_logs (tabs s)). cl_id l < i) \<and>
       t = s\<lparr>tabs := (tabs s)\<lparr>
        configs := map (\<lambda>x. if ck_id x = (n, k) then edited_config now v d c else x)
                     (configs (tabs s)),
        config_versions := config_versions (tabs s) @
          [version_row now n k (wrap32 (ck_version c + 1)) v ''update'' op],
        change_logs := change_logs (tabs s) @
          [log_row i now n k (wrap32 (ck_version c + 1)) (ck_value c) v ''update'' op]\<rparr>\<rparr>))"
proof -
  from assms obtain xs u where
    xs: "tbl_get_all (t_configs E) (\<lambda>c. ck_namespace_id c = n \<and> ck_key c = k) s = (Inr xs, u)"
    by (auto simp: updateConfig_def io_runs)
  from cfg.get_all_set [OF xs] have u: "u = s"
    and set: "set xs = {c \<in> set (configs (tabs s)). ck_id c = (n, k)}"
    by (auto simp: ck_id_def)
  show ?thesis
  proof (cases xs)
    case Nil
    with assms xs u set show ?thesis by (auto simp: updateConfig_def io_runs)
  next
    case (Cons c ys)
    with set have c: "c \<in> set (configs (tabs s))" "ck_id c = (n, k)" by auto
    then have id: "ck_dup (edited_config now v d c) x \<longleftrightarrow> ck_id x = (n, k)" for x
      by (auto simp: ck_dup_def)
    from assms xs u Cons obtain w1 j w2 i where b: b
      and up: "tbl_update (t_configs E) (edited_config now v d c) s = (Inr (), w1)"
      and iv: "tbl_insert (t_config_versions E)
        (version_row now n k (wrap32 (ck_version c + 1)) v ''update'' op) w1 = (Inr j, w2)"
      and il: "tbl_insert (t_change_logs E)
        (log_row 0 now n k (wrap32 (ck_version c + 1)) (ck_value c) v ''update'' op) w2 = (Inr i, t)"
      by (auto simp: updateConfig_def Let_def io_runs row_defs)
    from cfg.update_ok [OF up] ver.insert_ok [OF iv] log.insert_full [OF il] b c show ?thesis
      by (intro disjI2 conjI exI [of _ c] exI [of _ i]) (auto simp: id log_row_def stamp_defs)
  qed
qed

lemma deleteConfig_effect:
  assumes "deleteConfig E now n k op d s = (Inr b, t)"
  shows "b \<and> (\<exists>i. (\<forall>l\<in>set (change_logs (tabs s)). cl_id l < i) \<and> t = s\<lparr>tabs := (tabs s)\<lparr>
     configs := filter (\<lambda>c. \<not> (ck_namespace_id c = n \<and> ck_key c = k \<and>
       (d \<longrightarrow> ck_status c = ''draft''))) (configs (tabs s)),
     change_logs := change_logs (tabs s) @ [log_row i now n k 0 [] [] ''delete'' op]\<rparr>\<rparr>)"
proof -
  from assms obtain u i where b: b
    and rm: "tbl_remove_all (t_configs E) (\<lambda>c. ck_namespace_id c = n \<and> ck_key c = k \<and>
      (d \<longrightarrow> ck_status c = ''draft'')) s = (Inr (), u)"
    and ins: "tbl_insert (t_change_logs E) (log_row 0 now n k 0 [] [] ''delete'' op) u = (Inr i, t)"
    by (cases d) (auto simp: deleteConfig_def Let_def io_runs row_defs)
  from cfg.remove_all_ok [OF rm] log.insert_full [OF ins] b show ?thesis
    by (intro conjI exI [of _ i]) (auto simp: row_defs)
qed

subsection \<open>Publishing\<close>

lemma publish_body_ok:
  assumes "publish_body E now n note op s = (Inr r, t)"
  shows "\<exists>i. 0 < i \<and> (\<forall>x\<in>set (releases (tabs s)). rel_id x < i) \<and>
    r = release_row i now n (wrap32 (max_version n (releases (tabs s)) + 1)) note op \<and>
    t = s\<lparr>tabs := (tabs s)\<lparr>
      configs := map (\<lambda>c. if ck_namespace_id c = n then c\<lparr>ck_status := ''live''\<rparr> else c)
                   (configs (tabs s)),
      releases := releases (tabs s) @ [r]\<rparr>\<rparr>"
proof -
  let ?u = "s\<lparr>tabs := (tabs s)\<lparr>configs :=
    map (\<lambda>c. if ck_namespace_id c = n then c\<lparr>ck_status := ''live''\<rparr> else c) (configs (tabs s))\<rparr>\<rparr>"
  from assms obtain rels i where
    sel: "tbl_get_all_desc_int (t_releases E) (\<lambda>r. rel_namespace_id r = n)
      rel_release_version (Some (1, 0)) ?u = (Inr rels, ?u)"
    and ins: "tbl_insert (t_releases E) (release_row 0 now n
      (wrap32 ((case rels of [] \<Rightarrow> 0 | r # _ \<Rightarrow> rel_release_version r) + 1)) note op) ?u = (Inr i, t)"
    and r: "r = release_row i now n
      (wrap32 ((case rels of [] \<Rightarrow> 0 | r # _ \<Rightarrow> rel_release_version r) + 1)) note op"
    unfolding publish_body_def Let_def bindE_Inr thenE_Inr release_row_def default_Release_def
    by (fastforce dest!: cfg.get_all_ok cfg.update_all_ok dest: rel.get_desc_int_ok)
  have "(case rels of [] \<Rightarrow> 0 | r # _ \<Rightarrow> rel_release_version r) = max_version n (releases (tabs s))"
    using rel.get_desc_int_max [OF sel]
    by (cases rels) (auto simp: max_version_none intro!: max_version_eq [symmetric])
  with r rel.insert_ok [OF ins] rel.insert_id [OF ins] show ?thesis
    by (auto simp: release_row_def stamp_rel_def)
qed

lemma publish_body_snapshot:
  "publish_body E now n note op s = (x, t) \<Longrightarrow> snapshot t = snapshot s"
  by (cases x) (auto simp: publish_body_def Let_def bindE_Inr bindE_Inl thenE_Inr thenE_Inl
      dest!: cfg.get_all_ok cfg.update_all_ok rel.get_desc_int_ok rel.insert_ok
        throws)

text \<open>The end of a transaction: a rollback restores the snapshot, a commit keeps the tables or is rolled back.\<close>

lemma rollback_undoes:
  "snapshot v = Some d \<Longrightarrow>
   thenE (rollbackTransaction E) (ret z) v = (Inr z, v\<lparr>tabs := d, snapshot := None\<rparr>)"
  by (simp add: rollbackTransaction_def thenE_def bindE_def ret_def rollback_total)

lemma commit_or_restore:
  assumes "snapshot v = Some d"
  shows "catchE (thenE (commitTransaction E) (ret z)) (thenE (rollbackTransaction E) (ret z')) v \<in>
    {(Inr z, v\<lparr>snapshot := None\<rparr>), (Inr z', v\<lparr>tabs := d, snapshot := None\<rparr>)}"
proof -
  obtain c w where commit: "orm_commit E v = (c, w)" by fastforce
  then have "thenE (commitTransaction E) (ret z) v = (map_sum id (\<lambda>_. z) c, w)"
    by (cases c) (simp_all add: commitTransaction_def thenE_def bindE_def ret_def)
  with commit show ?thesis
    using commit_ok [of v _ w] commit_throws [of v _ w]
    by (cases c) (auto simp: catchE_def rollback_undoes [OF assms])
qed

lemma publishRelease_cases:
  assumes "publishRelease E now n note op out s = (res, t)"
  obtains e where "res = Inl e" and "t = s"
  | r where "res = Inr (False, r)" and "t = s"
  | r v where "publish_body E now n note op (s\<lparr>snapshot := Some (tabs s)\<rparr>) = (Inr r, v)"
      and "snapshot s = None" and "res = Inr (True, r)" and "t = v\<lparr>snapshot := None\<rparr>"
proof -
  obtain x u where start: "orm_begin E s = (x, u)" by fastforce
  show thesis
  proof (cases x)
    case (Inl e)
    with start begin_throws [of s e u] assms that(1) show thesis
      by (auto simp: publishRelease_def beginTransaction_def thenE_def bindE_def ret_def)
  next
    case (Inr y)
    with start begin_ok [of s y u] have idle: "snapshot s = None"
      and u: "u = s\<lparr>snapshot := Some (tabs s)\<rparr>" by auto
    from start Inr have began: "beginTransaction E s = (Inr True, u)"
      by (simp add: beginTransaction_def thenE_def bindE_def ret_def)
    obtain b v where body: "publish_body E now n note op u = (b, v)" by fastforce
    then have v: "snapshot v = Some (tabs s)" using publish_body_snapshot u by fastforce
    have restored: "v\<lparr>tabs := tabs s, snapshot := None\<rparr> = s" using idle by simp
    have run: "publishRelease E now n note op out s =
        (case b of Inl _ \<Rightarrow> thenE (rollbackTransaction E) (ret (False, out)) v
         | Inr r \<Rightarrow> catchE (thenE (commitTransaction E) (ret (True, r)))
             (thenE (rollbackTransaction E) (ret (False, r))) v)"
      using began body
      by (simp add: publishRelease_def thenE_def [of "beginTransaction E"] bindE_def [of "beginTransaction E"]
          bindE_def [of "attemptE m" for m] attemptE_def split: sum.splits)
    show thesis
    proof (cases b)
      case (Inl e)
      with assms run rollback_undoes [OF v, of "(False, out)"] restored that(2) show thesis by auto
    next
      case (Inr r)
      with assms run commit_or_restore [OF v, of "(True, r)" "(False, r)"] restored idle body u that(2,3)
      show thesis by auto
    qed
  qed
qed

text \<open>Publishing either happens completely or leaves the database as it was.\<close>

lemma publishRelease_effect:
  assumes "publishRelease E now n note op out s = (res, t)"
  shows "(\<exists>e. res = Inl e \<and> t = s) \<or> (\<exists>r. res = Inr (False, r) \<and> t = s) \<or>
    (\<exists>i r. res = Inr (True, r) \<and> snapshot s = None \<and>
      0 < i \<and> (\<forall>x\<in>set (releases (tabs s)). rel_id x < i) \<and>
      r = release_row i now n (wrap32 (max_version n (releases (tabs s)) + 1)) note op \<and>
      t = s\<lparr>tabs := (tabs s)\<lparr>
        configs := map (\<lambda>c. if ck_namespace_id c = n then c\<lparr>ck_status := ''live''\<rparr> else c)
                     (configs (tabs s)),
        releases := releases (tabs s) @ [r]\<rparr>\<rparr>)"
  using assms
proof (cases rule: publishRelease_cases)
  case (3 r v)
  from publish_body_ok [OF 3(1)] 3 show ?thesis by auto
qed auto

lemma publishRelease_nested:
  "snapshot s = Some d \<Longrightarrow> \<exists>e. publishRelease E now n note op out s = (Inl e, s)"
  by (cases "orm_begin E s"; cases "fst (orm_begin E s)")
    (auto simp: publishRelease_def beginTransaction_def thenE_def bindE_def
      dest: begin_ok begin_throws)

end

end
