(* ===== verification/Sqlite_Contract.thy ===== *)
theory Sqlite_Contract
  imports Sqlite_Store
begin

text \<open>
  The SQLite store satisfies its contract. \<open>store_inv\<close> is the invariant of the eight tables;
  \<open>app_map\<close>, \<open>ns_map\<close> and \<open>cfg_map\<close> are the abstraction functions; \<open>exec_op\<close> runs one
  state-changing operation (one locked section) and \<open>reachable\<close> closes the freshly created
  database under any sequence of them, so that every interleaving of callers is covered. The
  sublocales at the end make the engine contracts imply \<open>config_store\<close> and
  \<open>reliable_config_store\<close> for \<open>sqlite_store E\<close>.
\<close>


section \<open>Abstraction and invariant\<close>

definition app_map :: "storage \<Rightarrow> string \<rightharpoonup> Application" where
  "app_map s = key_map app_app_id (applications (tabs s))"

definition ns_map :: "storage \<Rightarrow> string \<rightharpoonup> Namespace" where
  "ns_map s = key_map ns_id (namespaces (tabs s))"

definition cfg_map :: "storage \<Rightarrow> string \<times> string \<rightharpoonup> ConfigKey" where
  "cfg_map s = key_map ck_id (configs (tabs s))"

lemmas map_defs = app_map_def ns_map_def cfg_map_def

text \<open>
  The current value of a config is the value recorded for its current version, and the change
  log has the write that produced it.
\<close>

definition recorded :: "db \<Rightarrow> ConfigKey \<Rightarrow> bool" where
  "recorded d c \<longleftrightarrow> (\<exists>v\<in>set (config_versions d).
     cv_config_id v = makeConfigId (ck_namespace_id c) (ck_key c) \<and>
     cv_version v = ck_version c \<and> cv_value v = ck_value c)"

definition logged :: "db \<Rightarrow> ConfigKey \<Rightarrow> bool" where
  "logged d c \<longleftrightarrow> (\<exists>l\<in>set (change_logs d).
     cl_namespace_id l = ck_namespace_id c \<and> cl_key l = ck_key c \<and>
     cl_version l = ck_version c \<and> cl_new_value l = ck_value c)"

definition config_ok :: "db \<Rightarrow> ConfigKey \<Rightarrow> bool" where
  "config_ok d c \<longleftrightarrow> ck_status c \<in> {''draft'', ''live''} \<and> int32 (ck_version c) \<and>
     recorded d c \<and> logged d c"

definition keys_ok :: "db \<Rightarrow> bool" where
  "keys_ok d \<longleftrightarrow> distinct (map app_app_id (applications d)) \<and> distinct (map ns_id (namespaces d)) \<and>
     distinct (map ck_id (configs d)) \<and> distinct (map rel_id (releases d)) \<and>
     distinct (map apr_id (approvals d)) \<and> distinct (map usr_username (users d)) \<and>
     distinct (map cl_id (change_logs d))"

definition store_inv :: "storage \<Rightarrow> bool" where
  "store_inv s \<longleftrightarrow> snapshot s = None \<and> keys_ok (tabs s) \<and> refs_ok (tabs s) \<and>
     (\<forall>c\<in>set (configs (tabs s)). config_ok (tabs s) c)"

definition init_storage :: storage where
  "init_storage = \<lparr>tabs = empty_db, snapshot = None\<rparr>"

lemma store_inv_init: "store_inv init_storage"
  by (simp add: store_inv_def init_storage_def empty_db_def keys_ok_def refs_ok_def)

lemma recorded_mono:
  "recorded d c \<Longrightarrow> set (config_versions d) \<subseteq> set (config_versions d') \<Longrightarrow> recorded d' c"
  by (auto simp: recorded_def)

lemma logged_mono:
  "logged d c \<Longrightarrow> set (change_logs d) \<subseteq> set (change_logs d') \<Longrightarrow> logged d' c"
  by (auto simp: logged_def)

lemma config_ok_mono:
  "config_ok d c \<Longrightarrow> set (config_versions d) \<subseteq> set (config_versions d') \<Longrightarrow>
   set (change_logs d) \<subseteq> set (change_logs d') \<Longrightarrow> config_ok d' c"
  by (auto simp: config_ok_def intro: recorded_mono logged_mono)

lemma config_ok_live: "config_ok d c \<Longrightarrow> config_ok d (c\<lparr>ck_status := ''live''\<rparr>)"
  by (auto simp: config_ok_def recorded_def logged_def)

lemma config_ok_frame [simp]:
  "config_ok (configs_update f d) c = config_ok d c"
  "config_ok (applications_update f1 d) c = config_ok d c"
  "config_ok (namespaces_update f2 d) c = config_ok d c"
  "config_ok (releases_update f3 d) c = config_ok d c"
  "config_ok (approvals_update f4 d) c = config_ok d c"
  "config_ok (users_update f5 d) c = config_ok d c"
  by (simp_all add: config_ok_def recorded_def logged_def)

lemma distinct_map_filterI: "distinct (map f xs) \<Longrightarrow> distinct (map f (filter p xs))"
  by (rule distinct_map_filter)


text \<open>The first row of a selection by key is the row that the map has for the key.\<close>

lemma first_row_key_map:
  assumes "distinct (map f rows)" and "set xs = {x \<in> set rows. f x = k}"
  shows "first_row xs = key_map f rows k"
proof (cases xs)
  case Nil
  with assms(2) have "\<forall>x\<in>set rows. f x \<noteq> k" by auto
  with Nil show ?thesis by (simp add: first_row_def key_map_None [symmetric])
next
  case (Cons x ys)
  with assms(2) have "x \<in> set rows \<and> f x = k" by auto
  with assms(1) have "key_map f rows k = Some x" by (simp add: key_map_Some)
  with Cons show ?thesis by (simp add: first_row_def)
qed


section \<open>Effects of the remaining operations\<close>

context sqlite_engine
begin

lemma createRelease_effect:
  assumes "createRelease E r s = (res, t)"
  shows "(res = Inr (False, r) \<and> t = s) \<or>
    (\<exists>i. res = Inr (True, r\<lparr>rel_id := i\<rparr>) \<and> (\<forall>x\<in>set (releases (tabs s)). rel_id x < i) \<and>
      t = s\<lparr>tabs := (tabs s)\<lparr>releases := releases (tabs s) @ [r\<lparr>rel_id := i\<rparr>]\<rparr>\<rparr>)"
  using rel.insert_attempt [OF assms [unfolded createRelease_def]] by (auto simp: stamp_defs)

lemma retireRelease_effect:
  assumes "retireRelease E i s = (res, t)"
  shows "(\<exists>e. res = Inl e \<and> t = s) \<or> (res = Inr True \<and>
    t = s\<lparr>tabs := (tabs s)\<lparr>releases :=
      map (\<lambda>r. if rel_id r = i then r\<lparr>rel_status := ''retired''\<rparr> else r) (releases (tabs s))\<rparr>\<rparr>)"
  using assms
  by (cases res) (auto simp: retireRelease_def io_runs dest!: rel.update_all_ok rel.update_all_throws)

lemma createApproval_effect:
  assumes "createApproval E a s = (res, t)"
  shows "(res = Inr (False, a) \<and> t = s) \<or>
    (\<exists>i. res = Inr (True, a\<lparr>apr_id := i\<rparr>) \<and> (\<forall>x\<in>set (approvals (tabs s)). apr_id x < i) \<and>
      t = s\<lparr>tabs := (tabs s)\<lparr>approvals := approvals (tabs s) @ [a\<lparr>apr_id := i\<rparr>]\<rparr>\<rparr>)"
  using apr.insert_attempt [OF assms [unfolded createApproval_def]] by (auto simp: stamp_defs)

lemma updateApprovalStatus_effect:
  assumes "updateApprovalStatus E now i st cm s = (res, t)"
  shows "(\<exists>e. res = Inl e \<and> t = s) \<or> (res = Inr True \<and>
    t = s\<lparr>tabs := (tabs s)\<lparr>approvals :=
      map (\<lambda>a. if apr_id a = i then a\<lparr>apr_status := st, apr_comment := cm, apr_updated_at := now\<rparr>
               else a) (approvals (tabs s))\<rparr>\<rparr>)"
  using assms
  by (cases res)
    (auto simp: updateApprovalStatus_def io_runs dest!: apr.update_all_ok apr.update_all_throws)

lemma createUser_effect:
  assumes "createUser E u s = (res, t)"
  shows "(res = Inr False \<and> t = s) \<or>
    (\<exists>i. res = Inr True \<and> (\<forall>x\<in>set (users (tabs s)). usr_username x \<noteq> usr_username u) \<and>
      t = s\<lparr>tabs := (tabs s)\<lparr>users := users (tabs s) @ [u\<lparr>usr_id := i\<rparr>]\<rparr>\<rparr>)"
  using usr.insert_attempt [OF assms [unfolded createUser_def thenE_def]]
  by (auto simp: stamp_defs usr_dup_def)

lemma getApplication_effect:
  assumes "store_inv s" and "getApplication E a s = (Inr r, t)"
  shows "t = s \<and> r = app_map s a"
proof -
  from assms(2) obtain xs where
    sel: "tbl_get_all (t_applications E) (\<lambda>x. app_app_id x = a) s = (Inr xs, t)"
    and r: "r = first_row xs" by (auto simp: getApplication_def io_runs)
  show ?thesis using app.get_all_set [OF sel] r assms(1)
    by (simp add: app_map_def store_inv_def keys_ok_def first_row_key_map)
qed

lemma getNamespace_effect:
  assumes "store_inv s" and "getNamespace E i s = (Inr r, t)"
  shows "t = s \<and> r = ns_map s i"
proof -
  from assms(2) obtain xs where
    sel: "tbl_get_all (t_namespaces E) (\<lambda>x. ns_id x = i) s = (Inr xs, t)"
    and r: "r = first_row xs" by (auto simp: getNamespace_def io_runs)
  show ?thesis using ns.get_all_set [OF sel] r assms(1)
    by (simp add: ns_map_def store_inv_def keys_ok_def first_row_key_map)
qed

lemma getUserByUsername_effect:
  assumes "store_inv s" and "getUserByUsername E u s = (Inr r, t)"
  shows "t = s \<and> r = key_map usr_username (users (tabs s)) u"
proof -
  from assms(2) obtain xs where
    sel: "tbl_get_all (t_users E) (\<lambda>x. usr_username x = u) s = (Inr xs, t)"
    and r: "r = first_row xs" by (auto simp: getUserByUsername_def io_runs)
  show ?thesis using usr.get_all_set [OF sel] r assms(1)
    by (simp add: store_inv_def keys_ok_def first_row_key_map)
qed

lemma getRelease_effect:
  assumes "store_inv s" and "getRelease E i s = (Inr r, t)"
  shows "t = s \<and> r = key_map rel_id (releases (tabs s)) i"
proof -
  from assms(2) obtain xs where
    sel: "tbl_get_all (t_releases E) (\<lambda>x. rel_id x = i) s = (Inr xs, t)"
    and r: "r = first_row xs" by (auto simp: getRelease_def io_runs)
  show ?thesis using rel.get_all_set [OF sel] r assms(1)
    by (simp add: store_inv_def keys_ok_def first_row_key_map)
qed

lemma getConfig_effect:
  assumes "store_inv s" and "getConfig E n k d s = (Inr r, t)"
  shows "t = s \<and> r = visible d (cfg_map s (n, k))"
proof -
  from assms(2) obtain xs u where
    sel: "tbl_get_all (t_configs E) (\<lambda>c. ck_namespace_id c = n \<and> ck_key c = k) s = (Inr xs, u)"
    and rest: "(case xs of [] \<Rightarrow> ret None | c # _ \<Rightarrow>
       if \<not> d \<and> ck_status c = ''draft'' then ret None else ret (Some c)) u = (Inr r, t)"
    by (auto simp: getConfig_def io_runs)
  from cfg.get_all_set [OF sel] have u: "u = s"
    and set: "set xs = {c \<in> set (configs (tabs s)). ck_id c = (n, k)}"
    by (auto simp: ck_id_def)
  show ?thesis
  proof (cases xs)
    case Nil
    with set have "cfg_map s (n, k) = None" by (auto simp: cfg_map_def key_map_None)
    with Nil rest u show ?thesis by simp
  next
    case (Cons c ys)
    with set have "c \<in> set (configs (tabs s))" "ck_id c = (n, k)" by auto
    with assms(1) have "cfg_map s (n, k) = Some c"
      by (simp add: cfg_map_def store_inv_def keys_ok_def key_map_Some)
    with Cons rest u show ?thesis by (auto simp: visible_def split: if_splits)
  qed
qed

lemma listConfigs_effect:
  assumes "store_inv s" and "listConfigs E n d s = (Inr cs, t)"
  shows "t = s \<and> distinct cs \<and> set cs = {c. \<exists>k. visible d (cfg_map s (n, k)) = Some c}"
proof -
  from assms(2) obtain xs where
    sel: "tbl_get_all (t_configs E) (\<lambda>c. ck_namespace_id c = n) s = (Inr xs, t)"
    and cs: "cs = (if \<not> d then filter (\<lambda>c. ck_status c \<noteq> ''draft'') xs else xs)"
    by (auto simp: listConfigs_def io_runs)
  from assms(1) have keys: "distinct (map ck_id (configs (tabs s)))"
    by (simp add: store_inv_def keys_ok_def)
  from cfg.get_all_ok [OF sel] have t: "t = s"
    and ms: "mset xs = mset (filter (\<lambda>c. ck_namespace_id c = n) (configs (tabs s)))" by auto
  from keys have "distinct (filter (\<lambda>c. ck_namespace_id c = n) (configs (tabs s)))"
    by (auto simp: distinct_map)
  with ms have "distinct xs" by (metis mset_eq_imp_distinct_iff)
  moreover have "set xs = {c \<in> set (configs (tabs s)). ck_namespace_id c = n}"
    using ms by (rule mset_filter_set)
  moreover have "cfg_map s (n, k) = Some c \<longleftrightarrow>
      c \<in> set (configs (tabs s)) \<and> ck_namespace_id c = n \<and> ck_key c = k" for c k
    using keys by (auto simp: cfg_map_def key_map_Some ck_id_def)
  ultimately show ?thesis using t cs
    by (auto simp: visible_eq_Some)
qed

end


section \<open>Every operation keeps the invariant\<close>

text \<open>
  A write to one table keeps the invariant as long as it keeps the keys of that table distinct,
  the references intact and the configs covered by the history.
\<close>

lemma store_invD:
  assumes "store_inv s"
  shows "snapshot s = None" and "keys_ok (tabs s)" and "refs_ok (tabs s)"
    and "c \<in> set (configs (tabs s)) \<Longrightarrow> config_ok (tabs s) c"
    and "distinct (map app_app_id (applications (tabs s)))"
    and "distinct (map ns_id (namespaces (tabs s)))"
    and "distinct (map ck_id (configs (tabs s)))"
  using assms by (auto simp: store_inv_def keys_ok_def)

lemma distinct_snoc_less:
  "distinct (map f xs) \<Longrightarrow> \<forall>x\<in>set xs. f x < (f y :: int) \<Longrightarrow> distinct (map f (xs @ [y]))"
  by auto

lemma map_key_upd: "(\<And>x. f (g x) = f x) \<Longrightarrow> map f (map (\<lambda>x. if p x then g x else x) xs) = map f xs"
  by (induction xs) auto

context sqlite_engine
begin

lemma createApplication_inv:
  "store_inv s \<Longrightarrow> createApplication E a s = (Inr b, t) \<Longrightarrow> store_inv t"
  by (drule createApplication_effect) (fastforce simp: store_inv_def keys_ok_def)

lemma createNamespace_inv:
  "store_inv s \<Longrightarrow> createNamespace E n s = (Inr b, t) \<Longrightarrow> store_inv t"
  by (drule createNamespace_effect) (fastforce simp: store_inv_def keys_ok_def)

lemma deleteApplication_inv:
  "store_inv s \<Longrightarrow> deleteApplication E a s = (Inr b, t) \<Longrightarrow> store_inv t"
  by (drule deleteApplication_effect) (auto simp: store_inv_def keys_ok_def distinct_map_filterI)

lemma deleteNamespace_inv:
  "store_inv s \<Longrightarrow> deleteNamespace E i s = (Inr b, t) \<Longrightarrow> store_inv t"
  by (drule deleteNamespace_effect) (auto simp: store_inv_def keys_ok_def distinct_map_filterI)

end

text \<open>Database-level facts of the three config writes.\<close>

lemma config_ok_new:
  assumes "version_row now (ck_namespace_id c) (ck_key c) (ck_version c) (ck_value c) ch op
      \<in> set (config_versions d)"
    and "log_row i now (ck_namespace_id c) (ck_key c) (ck_version c) old (ck_value c) ch' op
      \<in> set (change_logs d)"
    and "ck_status c \<in> {''draft'', ''live''}" and "int32 (ck_version c)"
  shows "config_ok d c"
  using assms unfolding config_ok_def recorded_def logged_def version_row_def log_row_def
  by (auto intro!: bexI [OF _ assms(1)] bexI [OF _ assms(2)] simp: version_row_def log_row_def)

lemma int32_one [simp]: "int32 1"
  by (simp add: int32_def)

lemma config_ok_grow:
  "config_ok d c \<Longrightarrow>
   config_ok (d\<lparr>configs := cs, config_versions := config_versions d @ vs,
     change_logs := change_logs d @ ls\<rparr>) c"
  by (rule config_ok_mono) auto

lemma log_row_id [simp]: "cl_id (log_row i now n k ver old new oper op) = i"
  by (simp add: log_row_def)


context sqlite_engine
begin

lemma createConfig_inv:
  assumes inv: "store_inv s" and run: "createConfig E now n k v op s = (Inr b, t)"
  shows "store_inv t"
proof (cases b)
  case True
  with createConfig_effect [OF run] obtain i where
    free: "\<forall>c\<in>set (configs (tabs s)). ck_id c \<noteq> (n, k)"
    and fresh: "\<forall>l\<in>set (change_logs (tabs s)). cl_id l < i"
    and t: "t = s\<lparr>tabs := (tabs s)\<lparr>configs := configs (tabs s) @ [fresh_config now n k v],
      config_versions := config_versions (tabs s) @ [version_row now n k 1 v ''create'' op],
      change_logs := change_logs (tabs s) @ [log_row i now n k 1 [] v ''create'' op]\<rparr>\<rparr>"
    by auto
  have "config_ok (tabs t) (fresh_config now n k v)"
    using t by (intro config_ok_new [of now _ "''create''" op _ i "[]" "''create''"]) simp_all
  moreover have "config_ok (tabs t) c" if "c \<in> set (configs (tabs s))" for c
    using store_invD(4) [OF inv that] t by (simp add: config_ok_grow)
  moreover have "keys_ok (tabs t)"
    using store_invD(2) [OF inv] free fresh t by (auto simp: keys_ok_def)
  ultimately show ?thesis using inv t by (auto simp: store_inv_def)
next
  case False
  with createConfig_effect [OF run] inv show ?thesis by auto
qed

lemma updateConfig_inv:
  assumes inv: "store_inv s" and run: "updateConfig E now n k v op d s = (Inr b, t)"
  shows "store_inv t"
proof (cases b)
  case True
  with updateConfig_effect [OF run] obtain c i where
    c: "c \<in> set (configs (tabs s))" "ck_id c = (n, k)"
    and fresh: "\<forall>l\<in>set (change_logs (tabs s)). cl_id l < i"
    and t: "t = s\<lparr>tabs := (tabs s)\<lparr>
      configs := map (\<lambda>x. if ck_id x = (n, k) then edited_config now v d c else x) (configs (tabs s)),
      config_versions := config_versions (tabs s) @
        [version_row now n k (wrap32 (ck_version c + 1)) v ''update'' op],
      change_logs := change_logs (tabs s) @
        [log_row i now n k (wrap32 (ck_version c + 1)) (ck_value c) v ''update'' op]\<rparr>\<rparr>"
    by auto
  from c(2) have nk: "ck_namespace_id c = n" "ck_key c = k" by (auto simp: ck_id_def)
  have "config_ok (tabs t) (edited_config now v d c)"
    using t nk
    by (intro config_ok_new [of now _ "''update''" op _ i "ck_value c" "''update''"]) simp_all
  moreover have "config_ok (tabs t) x" if "x \<in> set (configs (tabs s))" for x
    using store_invD(4) [OF inv that] t by (simp add: config_ok_grow)
  moreover have "map ck_id (configs (tabs t)) = map ck_id (configs (tabs s))"
    using t c by auto
  then have "keys_ok (tabs t)"
    using store_invD(2) [OF inv] fresh t by (auto simp: keys_ok_def simp del: map_map)
  ultimately show ?thesis using inv t by (auto simp: store_inv_def)
next
  case False
  with updateConfig_effect [OF run] inv show ?thesis by auto
qed

lemma deleteConfig_inv:
  assumes inv: "store_inv s" and run: "deleteConfig E now n k op d s = (Inr b, t)"
  shows "store_inv t"
proof -
  from deleteConfig_effect [OF run] obtain i where
    fresh: "\<forall>l\<in>set (change_logs (tabs s)). cl_id l < i"
    and t: "t = s\<lparr>tabs := (tabs s)\<lparr>
      configs := filter (\<lambda>c. \<not> (ck_namespace_id c = n \<and> ck_key c = k \<and>
        (d \<longrightarrow> ck_status c = ''draft''))) (configs (tabs s)),
      change_logs := change_logs (tabs s) @ [log_row i now n k 0 [] [] ''delete'' op]\<rparr>\<rparr>"
    by auto
  have "config_ok (tabs t) x" if "x \<in> set (configs (tabs s))" for x
    using store_invD(4) [OF inv that] t by (auto elim!: config_ok_mono)
  moreover have "keys_ok (tabs t)"
    using store_invD(2) [OF inv] fresh t by (auto simp: keys_ok_def distinct_map_filterI)
  ultimately show ?thesis using inv t by (auto simp: store_inv_def)
qed

lemma publishRelease_inv:
  assumes inv: "store_inv s" and run: "publishRelease E now n nt op out s = (res, t)"
  shows "store_inv t"
  using publishRelease_effect [OF run]
proof (elim disjE exE conjE)
  fix i r
  assume fresh: "\<forall>x\<in>set (releases (tabs s)). rel_id x < i"
    and r: "r = release_row i now n (wrap32 (max_version n (releases (tabs s)) + 1)) nt op"
    and t: "t = s\<lparr>tabs := (tabs s)\<lparr>
      configs := map (\<lambda>c. if ck_namespace_id c = n then c\<lparr>ck_status := ''live''\<rparr> else c)
        (configs (tabs s)),
      releases := releases (tabs s) @ [r]\<rparr>\<rparr>"
  have "map ck_id (configs (tabs t)) = map ck_id (configs (tabs s))"
    using t by (auto simp: ck_id_def)
  then have "keys_ok (tabs t)"
    using store_invD(2) [OF inv] fresh t r
    by (auto simp: keys_ok_def release_row_def simp del: map_map)
  moreover have "config_ok (tabs t) c" if "c \<in> set (configs (tabs t))" for c
    using that t store_invD(4) [OF inv] by (auto intro!: config_ok_live)
  ultimately show ?thesis using inv t by (auto simp: store_inv_def)
qed (use inv in auto)

lemma createRelease_inv: "store_inv s \<Longrightarrow> createRelease E r s = (Inr b, t) \<Longrightarrow> store_inv t"
  by (drule createRelease_effect) (auto simp: store_inv_def keys_ok_def)

lemma retireRelease_inv: "store_inv s \<Longrightarrow> retireRelease E i s = (Inr b, t) \<Longrightarrow> store_inv t"
  by (drule retireRelease_effect)
    (auto simp: store_inv_def keys_ok_def map_key_upd simp del: map_map)

lemma createApproval_inv: "store_inv s \<Longrightarrow> createApproval E a s = (Inr b, t) \<Longrightarrow> store_inv t"
  by (drule createApproval_effect) (auto simp: store_inv_def keys_ok_def)

lemma updateApprovalStatus_inv:
  "store_inv s \<Longrightarrow> updateApprovalStatus E now i st cm s = (Inr b, t) \<Longrightarrow> store_inv t"
  by (drule updateApprovalStatus_effect)
    (auto simp: store_inv_def keys_ok_def map_key_upd simp del: map_map)

lemma createUser_inv: "store_inv s \<Longrightarrow> createUser E u s = (Inr b, t) \<Longrightarrow> store_inv t"
  by (drule createUser_effect) (fastforce simp: store_inv_def keys_ok_def)

end


section \<open>Sequences of operations\<close>

datatype store_op =
    CreateApplication Application
  | DeleteApplication string
  | CreateNamespace Namespace
  | DeleteNamespace string
  | CreateConfig string string string string string
  | UpdateConfig string string string string string bool
  | DeleteConfig string string string string bool
  | RollbackConfig string string string int string
  | CreateRelease Release
  | RetireRelease int
  | PublishRelease string string string string
  | CreateApproval Approval
  | UpdateApprovalStatus string int string string
  | CreateUser User

fun exec_op :: "orm \<Rightarrow> store_op \<Rightarrow> (storage, bool) io" where
  "exec_op E (CreateApplication a) = createApplication E a"
| "exec_op E (DeleteApplication a) = deleteApplication E a"
| "exec_op E (CreateNamespace n) = createNamespace E n"
| "exec_op E (DeleteNamespace n) = deleteNamespace E n"
| "exec_op E (CreateConfig now n k v op) = createConfig E now n k v op"
| "exec_op E (UpdateConfig now n k v op d) = updateConfig E now n k v op d"
| "exec_op E (DeleteConfig now n k op d) = deleteConfig E now n k op d"
| "exec_op E (RollbackConfig now n k i op) = rollbackConfig E now n k i op"
| "exec_op E (CreateRelease r) = bindE (createRelease E r) (\<lambda>(b, _). ret b)"
| "exec_op E (RetireRelease i) = retireRelease E i"
| "exec_op E (PublishRelease now n nt op) =
     bindE (publishRelease E now n nt op default_Release) (\<lambda>(b, _). ret b)"
| "exec_op E (CreateApproval a) = bindE (createApproval E a) (\<lambda>(b, _). ret b)"
| "exec_op E (UpdateApprovalStatus now i st cm) = updateApprovalStatus E now i st cm"
| "exec_op E (CreateUser u) = createUser E u"

text \<open>States reached by operations that return, in any order and from any caller.\<close>

inductive reachable :: "orm \<Rightarrow> storage \<Rightarrow> bool" for E :: orm where
  start: "reachable E init_storage"
| step: "reachable E s \<Longrightarrow> exec_op E o1 s = (Inr b, t) \<Longrightarrow> reachable E t"

text \<open>Runs in which operations may also end with an exception.\<close>

inductive history :: "orm \<Rightarrow> storage \<Rightarrow> storage \<Rightarrow> bool" for E :: orm where
  stop: "history E s s"
| event: "exec_op E o1 s = (r, t) \<Longrightarrow> history E t u \<Longrightarrow> history E s u"

context sqlite_engine
begin

lemma getConfigVersion_state: "getConfigVersion E n k i s = (r, t) \<Longrightarrow> t = s"
  by (cases r) (auto simp: getConfigVersion_def io_runs dest!: ver.get_all_ok ver.get_all_throws)

lemma getConfigVersion_effect:
  assumes "getConfigVersion E n k i s = (Inr r, t)"
  shows "t = s \<and> (case r of
     None \<Rightarrow> \<forall>v\<in>set (config_versions (tabs s)). \<not> (cv_config_id v = makeConfigId n k \<and> cv_version v = i)
   | Some v \<Rightarrow> v \<in> set (config_versions (tabs s)) \<and> cv_config_id v = makeConfigId n k \<and> cv_version v = i)"
proof -
  from assms obtain xs where r: "r = first_row xs" and
    sel: "tbl_get_all (t_config_versions E)
      (\<lambda>v. cv_config_id v = makeConfigId n k \<and> cv_version v = i) s = (Inr xs, t)"
    by (auto simp: getConfigVersion_def io_runs)
  from ver.get_all_set [OF sel] r show ?thesis
    by (cases xs) (auto simp: first_row_def)
qed

text \<open>A rollback is an update to the value of a recorded version, or does nothing.\<close>

lemma rollbackConfig_cases:
  assumes "rollbackConfig E now n k i op s = (r, t)"
  shows "(\<exists>e. r = Inl e \<and> t = s) \<or>
    (r = Inr False \<and> t = s \<and> (\<forall>v\<in>set (config_versions (tabs s)).
       \<not> (cv_config_id v = makeConfigId n k \<and> cv_version v = i))) \<or>
    (\<exists>v\<in>set (config_versions (tabs s)). cv_config_id v = makeConfigId n k \<and> cv_version v = i \<and>
       updateConfig E now n k (cv_value v) op True s = (r, t))"
proof (cases "getConfigVersion E n k i s")
  case (Pair x u)
  then have u: "u = s" by (rule getConfigVersion_state)
  show ?thesis
  proof (cases x)
    case (Inl e)
    with Pair u assms show ?thesis by (auto simp: rollbackConfig_def bindE_def)
  next
    case (Inr y)
    with Pair u assms getConfigVersion_effect [of n k i s y u] show ?thesis
      by (cases y) (auto simp: rollbackConfig_def bindE_def)
  qed
qed

lemma rollbackConfig_inv:
  "store_inv s \<Longrightarrow> rollbackConfig E now n k i op s = (Inr b, t) \<Longrightarrow> store_inv t"
  by (drule rollbackConfig_cases) (auto dest: updateConfig_inv)

lemmas op_invs = createApplication_inv deleteApplication_inv createNamespace_inv
  deleteNamespace_inv createConfig_inv updateConfig_inv deleteConfig_inv rollbackConfig_inv
  retireRelease_inv updateApprovalStatus_inv createUser_inv

lemma exec_op_inv:
  assumes "store_inv s" and "exec_op E o1 s = (Inr b, t)"
  shows "store_inv t"
  using assms
  by (cases o1)
    (auto simp: bindE_Inr intro: op_invs createRelease_inv publishRelease_inv createApproval_inv)

lemma reachable_inv: "reachable E s \<Longrightarrow> store_inv s"
  by (induction rule: reachable.induct) (auto intro: store_inv_init exec_op_inv)

end


section \<open>The audit trail\<close>

text \<open>
  Nothing that was recorded is ever changed or removed: versions and change-log entries are only
  appended, and a release keeps every column but its status.
\<close>

definition release_core :: "Release \<Rightarrow> Release" where
  "release_core r = r\<lparr>rel_status := []\<rparr>"

definition audit_le :: "storage \<Rightarrow> storage \<Rightarrow> bool" where
  "audit_le s t \<longleftrightarrow>
     prefix (config_versions (tabs s)) (config_versions (tabs t)) \<and>
     prefix (change_logs (tabs s)) (change_logs (tabs t)) \<and>
     prefix (map release_core (releases (tabs s))) (map release_core (releases (tabs t)))"

interpretation audit: io_preorder audit_le
  by unfold_locales (auto simp: audit_le_def intro: prefix_order.trans)

lemma map_retire_core:
  "map release_core (map (\<lambda>r. if rel_id r = i then r\<lparr>rel_status := ''retired''\<rparr> else r) rs) =
   map release_core rs"
  by (induction rs) (auto simp: release_core_def)

context sqlite_engine
begin

lemma audit_writes:
  "keeps audit_le (tbl_insert (t_applications E) a)"
  "keeps audit_le (tbl_remove_all (t_applications E) pa)"
  "keeps audit_le (tbl_insert (t_namespaces E) n)"
  "keeps audit_le (tbl_remove_all (t_namespaces E) pn)"
  "keeps audit_le (tbl_insert (t_configs E) c)"
  "keeps audit_le (tbl_update (t_configs E) c)"
  "keeps audit_le (tbl_remove_all (t_configs E) pc)"
  "keeps audit_le (tbl_get_all (t_configs E) pc)"
  "keeps audit_le (tbl_insert (t_config_versions E) v)"
  "keeps audit_le (tbl_get_all (t_config_versions E) pv)"
  "keeps audit_le (tbl_insert (t_change_logs E) l)"
  "keeps audit_le (tbl_insert (t_releases E) r)"
  "keeps audit_le (tbl_insert (t_approvals E) ap)"
  "keeps audit_le (tbl_update_all (t_approvals E) f pp)"
  "keeps audit_le (tbl_insert (t_users E) u)"
  by (rule keepsI, rename_tac s res t, case_tac res,
      fastforce simp: audit_le_def dest: throws,
      fastforce simp: audit_le_def dest: app.insert_ok app.remove_all_ok ns.insert_ok
        ns.remove_all_ok cfg.insert_ok cfg.update_ok cfg.remove_all_ok cfg.get_all_ok
        ver.insert_ok ver.get_all_ok log.insert_ok rel.insert_ok apr.insert_ok
        apr.update_all_ok usr.insert_ok)+

lemma audit_retire: "keeps audit_le (retireRelease E i)"
  by (rule keepsI, drule retireRelease_effect) (auto simp: audit_le_def map_retire_core simp del: map_map)

lemma audit_publish: "keeps audit_le (publishRelease E now n nt op out)"
  by (rule keepsI, drule publishRelease_effect) (auto simp: audit_le_def)

lemma audit_update: "keeps audit_le (updateConfig E now n k v op d)"
  unfolding updateConfig_def Let_def
  by (intro audit.keeps_rules audit_writes)
    (auto split: list.split intro!: audit.keeps_rules audit_writes)

lemma audit_create: "keeps audit_le (createConfig E now n k v op)"
  unfolding createConfig_def Let_def
  by (intro audit.keeps_rules audit_writes)
    (auto split: sum.split intro!: audit.keeps_rules audit_writes)

lemma audit_delete: "keeps audit_le (deleteConfig E now n k op d)"
  unfolding deleteConfig_def Let_def
  by (cases d) (auto intro!: audit.keeps_rules audit_writes)

lemma audit_rollback: "keeps audit_le (rollbackConfig E now n k i op)"
  by (rule keepsI, drule rollbackConfig_cases) (auto intro: audit.refl keepsD [OF audit_update])

lemma audit_exec: "keeps audit_le (exec_op E o1)"
  by (cases o1)
    (auto simp: createApplication_def deleteApplication_def createNamespace_def
      deleteNamespace_def createRelease_def createApproval_def updateApprovalStatus_def
      createUser_def
      intro!: audit.keeps_rules audit_writes audit_retire audit_publish audit_update audit_create
        audit_delete audit_rollback)

lemma audit_history: "history E s t \<Longrightarrow> audit_le s t"
  by (induction rule: history.induct)
    (auto intro: audit.refl audit.trans dest: keepsD [OF audit_exec])

end


section \<open>The store implements the contract\<close>

lemma sqlite_store_sel [simp]:
  "cs_healthCheck (sqlite_store E) = healthCheck E"
  "cs_createApplication (sqlite_store E) = createApplication E"
  "cs_getApplication (sqlite_store E) = getApplication E"
  "cs_listApplications (sqlite_store E) = listApplications E"
  "cs_deleteApplication (sqlite_store E) = deleteApplication E"
  "cs_createNamespace (sqlite_store E) = createNamespace E"
  "cs_getNamespace (sqlite_store E) = getNamespace E"
  "cs_listNamespaces (sqlite_store E) = listNamespaces E"
  "cs_deleteNamespace (sqlite_store E) = deleteNamespace E"
  "cs_createConfig (sqlite_store E) = createConfig E"
  "cs_updateConfig (sqlite_store E) = updateConfig E"
  "cs_deleteConfig (sqlite_store E) = deleteConfig E"
  "cs_getConfig (sqlite_store E) = getConfig E"
  "cs_listConfigs (sqlite_store E) = listConfigs E"
  "cs_publishRelease (sqlite_store E) = publishRelease E"
  "cs_createRelease (sqlite_store E) = (\<lambda>_. createRelease E)"
  "cs_getReleases (sqlite_store E) = getReleases E"
  "cs_getRelease (sqlite_store E) = getRelease E"
  "cs_retireRelease (sqlite_store E) = retireRelease E"
  "cs_createApproval (sqlite_store E) = (\<lambda>_. createApproval E)"
  "cs_updateApprovalStatus (sqlite_store E) = updateApprovalStatus E"
  "cs_getPendingApprovals (sqlite_store E) = getPendingApprovals E"
  "cs_createUser (sqlite_store E) = createUser E"
  "cs_getUserByUsername (sqlite_store E) = getUserByUsername E"
  "cs_beginTransaction (sqlite_store E) = beginTransaction E"
  "cs_commitTransaction (sqlite_store E) = commitTransaction E"
  "cs_rollbackTransaction (sqlite_store E) = rollbackTransaction E"
  by (simp_all add: sqlite_store_def)

lemma cfg_map_None: "cfg_map s i = None \<longleftrightarrow> (\<forall>c\<in>set (configs (tabs s)). ck_id c \<noteq> i)"
  by (simp add: cfg_map_def key_map_None)

lemma cfg_map_Some:
  "store_inv s \<Longrightarrow> cfg_map s i = Some c \<longleftrightarrow> c \<in> set (configs (tabs s)) \<and> ck_id c = i"
  by (simp add: cfg_map_def key_map_Some store_invD)

context sqlite_engine
begin

lemma createConfig_map:
  assumes "store_inv s" and "createConfig E now n k v op s = (Inr b, t)"
  shows "app_map t = app_map s \<and> ns_map t = ns_map s \<and>
    (if b then cfg_map s (n, k) = None \<and> cfg_map t = (cfg_map s)((n, k) \<mapsto> fresh_config now n k v)
     else cfg_map t = cfg_map s)"
  using createConfig_effect [OF assms(2)]
  by (auto simp: map_defs key_map_None key_map_snoc)

lemma updateConfig_map:
  assumes "store_inv s" and "updateConfig E now n k v op d s = (Inr b, t)"
  shows "app_map t = app_map s \<and> ns_map t = ns_map s \<and>
    (case cfg_map s (n, k) of None \<Rightarrow> \<not> b \<and> cfg_map t = cfg_map s
     | Some c \<Rightarrow> b \<and> cfg_map t = (cfg_map s)((n, k) \<mapsto> edited_config now v d c))"
  using updateConfig_effect [OF assms(2)]
proof (elim disjE conjE exE)
  assume "\<not> b" "t = s" "\<forall>c\<in>set (configs (tabs s)). ck_id c \<noteq> (n, k)"
  then show ?thesis by (simp add: cfg_map_None [symmetric])
next
  fix c i
  assume b: b and c: "c \<in> set (configs (tabs s))" "ck_id c = (n, k)"
    and t: "t = s\<lparr>tabs := (tabs s)\<lparr>
      configs := map (\<lambda>x. if ck_id x = (n, k) then edited_config now v d c else x) (configs (tabs s)),
      config_versions := config_versions (tabs s) @
        [version_row now n k (wrap32 (ck_version c + 1)) v ''update'' op],
      change_logs := change_logs (tabs s) @
        [log_row i now n k (wrap32 (ck_version c + 1)) (ck_value c) v ''update'' op]\<rparr>\<rparr>"
  have "cfg_map s (n, k) = Some c" using c cfg_map_Some [OF assms(1)] by simp
  moreover have "cfg_map t = (cfg_map s)((n, k) \<mapsto> edited_config now v d c)"
    using t c by (simp add: cfg_map_def key_map_replace)
  ultimately show ?thesis using b t by (simp add: app_map_def ns_map_def)
qed

lemma deleteConfig_map:
  assumes "store_inv s" and "deleteConfig E now n k op d s = (Inr b, t)"
  shows "b \<and> app_map t = app_map s \<and> ns_map t = ns_map s \<and>
    cfg_map t = (case cfg_map s (n, k) of None \<Rightarrow> cfg_map s
      | Some c \<Rightarrow> if d \<and> ck_status c \<noteq> ''draft'' then cfg_map s else (cfg_map s)((n, k) := None))"
proof -
  from deleteConfig_effect [OF assms(2)] obtain i where b: b
    and t: "t = s\<lparr>tabs := (tabs s)\<lparr>
      configs := filter (\<lambda>c. \<not> (ck_namespace_id c = n \<and> ck_key c = k \<and>
        (d \<longrightarrow> ck_status c = ''draft''))) (configs (tabs s)),
      change_logs := change_logs (tabs s) @ [log_row i now n k 0 [] [] ''delete'' op]\<rparr>\<rparr>"
    by auto
  have "cfg_map t j = (case cfg_map s j of None \<Rightarrow> None
      | Some c \<Rightarrow> if j = (n, k) \<and> (d \<longrightarrow> ck_status c = ''draft'') then None else Some c)" for j
    using t store_invD(7) [OF assms(1)]
    by (auto simp: cfg_map_def key_map_filter ck_id_def split: option.splits
        dest!: key_map_SomeD)
  then show ?thesis using b t
    by (auto simp: fun_eq_iff app_map_def ns_map_def split: option.splits)
qed

lemma publishRelease_map:
  assumes "store_inv s" and "publishRelease E now n nt op out s = (Inr (b, r), t)"
  shows "app_map t = app_map s \<and> ns_map t = ns_map s \<and>
    cfg_map t = (if b then published n (cfg_map s) else cfg_map s)"
  using publishRelease_effect [OF assms(2)]
proof (elim disjE conjE exE)
  fix i r'
  assume b: "Inr (b, r) = Inr (True, r')"
    and t: "t = s\<lparr>tabs := (tabs s)\<lparr>
      configs := map (\<lambda>c. if ck_namespace_id c = n then c\<lparr>ck_status := ''live''\<rparr> else c)
        (configs (tabs s)),
      releases := releases (tabs s) @ [r']\<rparr>\<rparr>"
  have "cfg_map t j = published n (cfg_map s) j" for j
  proof -
    have "cfg_map t j = map_option
        (\<lambda>c. if ck_namespace_id c = n then c\<lparr>ck_status := ''live''\<rparr> else c) (cfg_map s j)"
      using t by (simp add: cfg_map_def key_map_map ck_id_def)
    then show ?thesis
      by (cases "cfg_map s j")
        (auto simp: published_def cfg_map_def ck_id_def dest!: key_map_SomeD)
  qed
  then show ?thesis using b t by (auto simp: fun_eq_iff app_map_def ns_map_def)
qed auto

end

sublocale sqlite_engine \<subseteq> store: config_store "sqlite_store E" store_inv app_map ns_map cfg_map
proof (unfold_locales, goal_cases)
  case 1 then show ?case by (auto dest: getApplication_effect)
next
  case (2 s a b t)
  then have "store_inv t" by (auto intro: createApplication_inv)
  with 2 createApplication_effect [of a s "Inr b" t] show ?case
    by (auto simp: map_defs key_map_None key_map_snoc)
next
  case (3 s a b t)
  then have "store_inv t" by (auto intro: deleteApplication_inv)
  with 3 deleteApplication_effect [of a s "Inr b" t] show ?case
    by (auto simp: map_defs key_map_remove refs_ok_def dest!: key_map_SomeD)
next
  case 4 then show ?case by (auto dest: getNamespace_effect)
next
  case (5 s n b t)
  then have "store_inv t" by (auto intro: createNamespace_inv)
  with 5 createNamespace_effect [of n s "Inr b" t] show ?case
    by (auto simp: map_defs key_map_None key_map_snoc refs_ok_def)
next
  case (6 s a e c xs t)
  then show ?case
    by (auto simp: listNamespaces_def ns_map_def ran_key_map store_invD dest!: ns.get_all_set)
next
  case (7 s i b t)
  then have "store_inv t" by (auto intro: deleteNamespace_inv)
  with 7 deleteNamespace_effect [of i s "Inr b" t] show ?case
    by (auto simp: map_defs key_map_remove)
next
  case 8 then show ?case by (auto dest: getConfig_effect)
next
  case 9 then show ?case using createConfig_inv createConfig_map by (simp only: sqlite_store_sel) blast
next
  case 10 then show ?case using updateConfig_inv updateConfig_map by (simp only: sqlite_store_sel)
next
  case 11 then show ?case using deleteConfig_inv deleteConfig_map by (simp only: sqlite_store_sel) blast
next
  case 12 then show ?case by (auto dest: listConfigs_effect)
next
  case 13 then show ?case using publishRelease_inv publishRelease_map by (simp only: sqlite_store_sel)
qed


subsection \<open>Totality on a reliable engine\<close>

context reliable_engine
begin

lemma log_total: "refs_ok (tabs s) \<Longrightarrow> \<exists>i t. tbl_insert (t_change_logs E) l s = (Inr i, t)"
  using rlog.insert_total [of s l] by (auto simp: no_dup_def)

lemma versions_then_log_total:
  assumes "refs_ok (tabs s)"
  shows "\<exists>t. thenE (tbl_insert (t_config_versions E) cv)
    (thenE (tbl_insert (t_change_logs E) cl) (ret True)) s = (Inr True, t)"
proof -
  from rver.insert_total [of s cv] assms obtain i where
    1: "tbl_insert (t_config_versions E) cv s =
      (Inr i, s\<lparr>tabs := config_versions_update (\<lambda>rs. rs @ [keep_row i cv]) (tabs s)\<rparr>)"
    by (auto simp: no_dup_def)
  from log_total [of "s\<lparr>tabs := config_versions_update (\<lambda>rs. rs @ [keep_row i cv]) (tabs s)\<rparr>" cl]
    assms obtain j t where
    2: "tbl_insert (t_change_logs E) cl
      (s\<lparr>tabs := config_versions_update (\<lambda>rs. rs @ [keep_row i cv]) (tabs s)\<rparr>) = (Inr j, t)"
    by auto
  show ?thesis using 1 2 by (simp add: thenE_def bindE_def ret_def)
qed

lemma createConfig_total:
  assumes "store_inv s"
  shows "\<exists>t. createConfig E now n k v op s = (Inr (cfg_map s (n, k) = None), t)"
proof (cases "cfg_map s (n, k)")
  case None
  then have "\<not> ck_dup (fresh_config now n k v) c" if "c \<in> set (configs (tabs s))" for c
    using that by (auto simp: cfg_map_None ck_dup_def)
  from rcfg.insert_total [of s "fresh_config now n k v", OF this] store_invD(3) [OF assms]
  obtain i u where ins: "tbl_insert (t_configs E) (fresh_config now n k v) s = (Inr i, u)"
    and "refs_ok (tabs u)" by auto
  with None versions_then_log_total [of u] show ?thesis
    by (auto simp: createConfig_def Let_def bindE_attemptE fresh_config_def)
next
  case (Some c)
  then have "c \<in> set (configs (tabs s))" and "ck_dup (fresh_config now n k v) c"
    using cfg_map_Some [OF assms] by (auto simp: ck_dup_def)
  from rcfg.insert_duplicate [OF this] Some show ?thesis
    by (auto simp: createConfig_def Let_def bindE_attemptE fresh_config_def)
qed

lemma updateConfig_total:
  assumes "store_inv s"
  shows "\<exists>b t. updateConfig E now n k v op d s = (Inr b, t)"
proof -
  from rcfg.get_all_total [of "\<lambda>c. ck_namespace_id c = n \<and> ck_key c = k" s] obtain xs where
    sel: "tbl_get_all (t_configs E) (\<lambda>c. ck_namespace_id c = n \<and> ck_key c = k) s = (Inr xs, s)"
    by auto
  show ?thesis
  proof (cases xs)
    case Nil
    with sel show ?thesis by (auto simp: updateConfig_def bindE_def ret_def)
  next
    case (Cons c ys)
    from update_total [of "edited_config now v d c" s] obtain u where
      up: "tbl_update (t_configs E) (edited_config now v d c) s = (Inr (), u)" by auto
    with cfg.update_ok [OF up] store_invD(3) [OF assms] have "refs_ok (tabs u)" by auto
    from versions_then_log_total [OF this, of "version_row now n k (wrap32 (ck_version c + 1)) v ''update'' op"
        "log_row 0 now n k (wrap32 (ck_version c + 1)) (ck_value c) v ''update'' op"]
    obtain t where "thenE (tbl_insert (t_config_versions E)
        (version_row now n k (wrap32 (ck_version c + 1)) v ''update'' op))
      (thenE (tbl_insert (t_change_logs E)
        (log_row 0 now n k (wrap32 (ck_version c + 1)) (ck_value c) v ''update'' op)) (ret True)) u =
      (Inr True, t)" by blast
    with sel Cons up have "updateConfig E now n k v op d s = (Inr True, t)"
      by (simp add: updateConfig_def Let_def bindE_def thenE_def row_defs)
    then show ?thesis by blast
  qed
qed

lemma deleteConfig_total:
  assumes "store_inv s"
  shows "\<exists>b t. deleteConfig E now n k op d s = (Inr b, t)"
proof -
  let ?p = "\<lambda>c. ck_namespace_id c = n \<and> ck_key c = k \<and> (d \<longrightarrow> ck_status c = ''draft'')"
  let ?l = "log_row 0 now n k 0 [] [] ''delete'' op"
  from rcfg.remove_all_total [of ?p s] store_invD(3) [OF assms] obtain u where
    rm: "tbl_remove_all (t_configs E) ?p s = (Inr (), u)" and "refs_ok (tabs u)" by auto
  from log_total [OF this(2)] obtain i t where "tbl_insert (t_change_logs E) ?l u = (Inr i, t)"
    by blast
  with rm have "deleteConfig E now n k op d s = (Inr True, t)"
    by (cases d) (auto simp: deleteConfig_def Let_def bindE_def thenE_def ret_def row_defs)
  then show ?thesis by blast
qed

lemma publishRelease_total:
  assumes "store_inv s"
  shows "\<exists>r t. publishRelease E now n nt op out s = (Inr (True, r), t)"
proof -
  from begin_total store_invD(1) [OF assms] obtain u where
    u: "orm_begin E s = (Inr (), u)" by blast
  with begin_ok [OF u] have su: "snapshot u = Some (tabs s)" and ru: "refs_ok (tabs u)"
    using store_invD(3) [OF assms] by auto
  from rcfg.get_all_total obtain xs where
    1: "tbl_get_all (t_configs E) (\<lambda>c. ck_namespace_id c = n \<and> ck_status c = ''draft'') u = (Inr xs, u)"
    by blast
  from rcfg.update_all_total obtain v where
    2: "tbl_update_all (t_configs E) (\<lambda>c. c\<lparr>ck_status := ''live''\<rparr>)
      (\<lambda>c. ck_namespace_id c = n) u = (Inr (), v)" by blast
  from cfg.update_all_ok [OF 2] ru have rv: "refs_ok (tabs v)" by auto
  from rrel.get_desc_int_total obtain ys where
    3: "tbl_get_all_desc_int (t_releases E) (\<lambda>r. rel_namespace_id r = n)
      rel_release_version (Some (1, 0)) v = (Inr ys, v)" by blast
  let ?r = "release_row 0 now n
    (wrap32 ((case ys of [] \<Rightarrow> 0 | r # _ \<Rightarrow> rel_release_version r) + 1)) nt op"
  from rrel.insert_total [of v ?r] rv obtain i w where
    4: "tbl_insert (t_releases E) ?r v = (Inr i, w)" by (auto simp: no_dup_def)
  have body: "publish_body E now n nt op u = (Inr (?r\<lparr>rel_id := i\<rparr>), w)"
    using 1 2 3 4
    by (simp add: publish_body_def bindE_def thenE_def Let_def release_row_def
        default_Release_def ret_def)
  with su have "snapshot w \<noteq> None" using publish_body_snapshot by fastforce
  with commit_total obtain z where "orm_commit E w = (Inr (), z)" by blast
  with u body show ?thesis
    by (auto simp: publishRelease_def beginTransaction_def commitTransaction_def thenE_def
        bindE_def ret_def attemptE_def catchE_def)
qed

end

sublocale reliable_engine \<subseteq>
  store: reliable_config_store "sqlite_store E" store_inv app_map ns_map cfg_map
proof (unfold_locales, goal_cases)
  case (1 s a)
  with rapp.get_all_total [of "\<lambda>x. app_app_id x = a" s] show ?case
    by (auto simp: getApplication_def bindE_def ret_def)
next
  case (2 s app)
  then have "\<not> app_dup app a" if "a \<in> set (applications (tabs s))" for a
    using that by (auto simp: app_map_def key_map_None app_dup_def)
  moreover have "refs_ok (applications_update (\<lambda>rs. rs @ [keep_row i app]) (tabs s))" for i
    using store_invD(3) [OF 2(1)] by (auto simp: refs_ok_def)
  ultimately show ?case using rapp.insert_total [of s app]
    by (auto simp: createApplication_def catchE_def thenE_def bindE_def ret_def)
next
  case (3 s i)
  with rns.get_all_total [of "\<lambda>x. ns_id x = i" s] show ?case
    by (auto simp: getNamespace_def bindE_def ret_def)
next
  case (4 s n)
  then have "\<not> ns_dup n m" if "m \<in> set (namespaces (tabs s))" for m
    using that by (auto simp: ns_map_def key_map_None ns_dup_def)
  moreover have "refs_ok (namespaces_update (\<lambda>rs. rs @ [keep_row i n]) (tabs s))" for i
    using 4 store_invD(3) [OF 4(1)]
    by (auto simp: refs_ok_def app_map_def keep_row_def dest!: key_map_SomeD)
  ultimately show ?case using rns.insert_total [of s n]
    by (auto simp: createNamespace_def catchE_def thenE_def bindE_def ret_def)
next
  case (5 s n k d)
  with rcfg.get_all_total [of "\<lambda>c. ck_namespace_id c = n \<and> ck_key c = k" s] show ?case
    by (auto simp: getConfig_def bindE_def ret_def split: list.split)
qed (simp_all add: createConfig_total updateConfig_total deleteConfig_total publishRelease_total)

interpretation mem_store: reliable_config_store "sqlite_store mem_orm" store_inv app_map ns_map cfg_map
  by (rule mem.store.reliable_config_store_axioms)

end
