(* ===== verification/Cpp_Numbers.thy ===== *)
theory Cpp_Numbers
  imports Prelude
begin

text \<open>
  The number and character conversions of the C++ standard library that the sources use:
  \<^verbatim>\<open>std::to_string\<close>, \<^verbatim>\<open>std::stoi\<close>, \<^verbatim>\<open>std::stoll\<close>, \<^verbatim>\<open>std::hex\<close> output of an \<^verbatim>\<open>int\<close> and \<^verbatim>\<open>::tolower\<close>
  in the C locale, with the round trip from \<^verbatim>\<open>to_string\<close> to \<^verbatim>\<open>stoi\<close> and \<^verbatim>\<open>stoll\<close>.
\<close>

definition digit_char :: "nat \<Rightarrow> char" where
  "digit_char d = char_of (48 + d)"

definition is_digit :: "char \<Rightarrow> bool" where
  "is_digit c \<longleftrightarrow> 48 \<le> (of_char c :: nat) \<and> (of_char c :: nat) \<le> 57"

definition digit_value :: "char \<Rightarrow> nat" where
  "digit_value c = of_char c - 48"

lemma of_digit_char: "d < 10 \<Longrightarrow> (of_char (digit_char d) :: nat) = 48 + d"
  by (simp add: digit_char_def)

lemma is_digit_char [simp]: "d < 10 \<Longrightarrow> is_digit (digit_char d)"
  by (simp add: is_digit_def of_digit_char)

lemma digit_value_char [simp]: "d < 10 \<Longrightarrow> digit_value (digit_char d) = d"
  by (simp add: digit_value_def of_digit_char)

fun show_nat :: "nat \<Rightarrow> string" where
  "show_nat n = (if n < 10 then [digit_char n] else show_nat (n div 10) @ [digit_char (n mod 10)])"

declare show_nat.simps [simp del]

definition to_string :: "int \<Rightarrow> string" where
  "to_string i = (if i < 0 then ''-'' @ show_nat (nat (- i)) else show_nat (nat i))"

lemma show_nat_digits: "list_all is_digit (show_nat n)"
proof (induction n rule: show_nat.induct)
  case (1 n)
  then show ?case by (cases "n < 10") (simp_all add: show_nat.simps [of n])
qed

lemma show_nat_nonempty [simp]: "show_nat n \<noteq> []"
  by (subst show_nat.simps) simp

fun read_digits :: "nat \<Rightarrow> string \<Rightarrow> nat" where
  "read_digits acc [] = acc"
| "read_digits acc (c # s) = read_digits (10 * acc + digit_value c) s"

lemma read_digits_append: "read_digits acc (s @ t) = read_digits (read_digits acc s) t"
  by (induction s arbitrary: acc) auto

lemma read_show_nat: "read_digits 0 (show_nat n) = n"
proof (induction n rule: show_nat.induct)
  case (1 n)
  show ?case
  proof (cases "n < 10")
    case True
    then show ?thesis by (simp add: show_nat.simps [of n])
  next
    case False
    with 1 show ?thesis by (simp add: show_nat.simps [of n] read_digits_append)
  qed
qed

text \<open>
  \<^verbatim>\<open>std::stoi\<close> and \<^verbatim>\<open>std::stoll\<close>: leading white space, an optional sign, the longest run of digits;
  no digits is \<^verbatim>\<open>invalid_argument\<close>, a value outside the type is \<^verbatim>\<open>out_of_range\<close>.
\<close>

definition is_space :: "char \<Rightarrow> bool" where
  "is_space c \<longleftrightarrow> c \<in> {CHR 0x20, CHR 0x09, CHR 0x0A, CHR 0x0B, CHR 0x0C, CHR 0x0D}"

definition parse_int :: "int \<Rightarrow> int \<Rightarrow> string \<Rightarrow> int result" where
  "parse_int lo hi str =
     (let s = dropWhile is_space str;
          neg = (case s of c # _ \<Rightarrow> c = CHR ''-'' | [] \<Rightarrow> False);
          u = (case s of c # r \<Rightarrow> if c = CHR ''-'' \<or> c = CHR ''+'' then r else s | [] \<Rightarrow> s);
          ds = takeWhile is_digit u
      in if ds = [] then Inl InvalidArgument
         else let m = int (read_digits 0 ds); v = (if neg then - m else m)
              in if v < lo \<or> hi < v then Inl OutOfRange else Inr v)"

definition stoi :: "string \<Rightarrow> int result" where
  "stoi = parse_int (- 2147483648) 2147483647"

definition stoll :: "string \<Rightarrow> int result" where
  "stoll = parse_int (- 9223372036854775808) 9223372036854775807"

lemma digit_not_space: "is_digit c \<Longrightarrow> \<not> is_space c"
  by (auto simp: is_digit_def is_space_def)

lemma digit_not_sign: "is_digit c \<Longrightarrow> c \<noteq> CHR ''-'' \<and> c \<noteq> CHR ''+''"
  by (auto simp: is_digit_def)

lemma takeWhile_digits: "list_all is_digit s \<Longrightarrow> takeWhile is_digit s = s"
  by (auto simp: list_all_iff takeWhile_eq_all_conv)

lemma parse_int_digits:
  assumes "list_all is_digit s" and "s \<noteq> []"
  shows "parse_int lo hi s = (let v = int (read_digits 0 s) in
     if v < lo \<or> hi < v then Inl OutOfRange else Inr v)"
proof -
  from assms obtain c r where s: "s = c # r" and c: "is_digit c" by (cases s) auto
  with assms(1) show ?thesis
    using digit_not_space [OF c] digit_not_sign [OF c]
    by (simp add: parse_int_def Let_def takeWhile_digits)
qed

lemma parse_int_neg:
  assumes "list_all is_digit s" and "s \<noteq> []"
  shows "parse_int lo hi (''-'' @ s) = (let v = - int (read_digits 0 s) in
     if v < lo \<or> hi < v then Inl OutOfRange else Inr v)"
  using assms by (simp add: parse_int_def Let_def is_space_def takeWhile_digits)

lemma parse_to_string: "lo \<le> i \<Longrightarrow> i \<le> hi \<Longrightarrow> parse_int lo hi (to_string i) = Inr i"
  using parse_int_digits [OF show_nat_digits, of "nat i" lo hi]
    parse_int_neg [OF show_nat_digits, of "nat (- i)" lo hi]
  by (auto simp: to_string_def read_show_nat Let_def)

lemma stoi_to_string: "int32 i \<Longrightarrow> stoi (to_string i) = Inr i"
  by (simp add: stoi_def int32_def parse_to_string)

lemma parse_int_bounds:
  assumes "parse_int lo hi s = Inr i"
  shows "lo \<le> i \<and> i \<le> hi"
proof -
  have "(if P then Inl a else if v < lo \<or> hi < v then Inl b else Inr v) = (Inr i :: int result) \<Longrightarrow>
      lo \<le> i \<and> i \<le> hi" for P a b v
    by (simp split: if_splits)
  from this [OF assms [unfolded parse_int_def Let_def]] show ?thesis .
qed

lemma stoi_int32: "stoi s = Inr i \<Longrightarrow> int32 i"
  using parse_int_bounds [of "- 2147483648" 2147483647 s i] by (simp add: stoi_def int32_def)

lemma to_string_inj: "to_string i = to_string j \<Longrightarrow> i = j"
proof -
  assume eq: "to_string i = to_string j"
  have "parse_int (min i j) (max i j) (to_string i) = Inr i"
    by (rule parse_to_string) simp_all
  moreover have "parse_int (min i j) (max i j) (to_string j) = Inr j"
    by (rule parse_to_string) simp_all
  ultimately show "i = j" using eq by (metis sum.inject(2))
qed

text \<open>\<^verbatim>\<open>std::hex << int\<close> for a byte value: no padding.\<close>

definition hex_digit :: "nat \<Rightarrow> char" where
  "hex_digit d = (if d < 10 then char_of (48 + d) else char_of (87 + d))"

definition hex_byte :: "nat \<Rightarrow> string" where
  "hex_byte b = (if b < 16 then [hex_digit b] else [hex_digit (b div 16), hex_digit (b mod 16)])"

text \<open>\<^verbatim>\<open>::tolower\<close> in the C locale.\<close>

definition tolower :: "char \<Rightarrow> char" where
  "tolower c = (if 65 \<le> (of_char c :: nat) \<and> (of_char c :: nat) \<le> 90
                then char_of ((of_char c :: nat) + 32) else c)"

end
