(* ===== verification/Namespace_Manager.thy ===== *)
theory Namespace_Manager
  imports Sqlite_Contract Cpp_Numbers
begin

text \<open>
  \<^verbatim>\<open>NamespaceManager\<close> (\<^verbatim>\<open>src/storage/namespace_manager.cpp\<close>): applications, environments, clusters
  and namespaces on top of an arbitrary \<^verbatim>\<open>ConfigStore\<close> \<open>S\<close>, key fallback along the parent
  namespaces, and the validation of keys and values. The environments a manager has been given
  are its member \<^verbatim>\<open>customEnvironments_\<close>, a list. \<^verbatim>\<open>resolveConfig\<close> recurses along the parent
  identifiers without a bound, so it is a \<open>partial_function\<close> and not returning is \<open>None\<close>.
\<close>


section \<open>Operations\<close>

definition kDefaultEnvironments :: "string list" where
  "kDefaultEnvironments = [''DEV'', ''FAT'', ''UAT'', ''PROD'']"

definition makeNamespaceId :: "string \<Rightarrow> string \<Rightarrow> string \<Rightarrow> string \<Rightarrow> string" where
  "makeNamespaceId appId env cluster name = appId @ ''/'' @ env @ ''/'' @ cluster @ ''/'' @ name"

definition registerApplication ::
  "'s config_store \<Rightarrow> string \<Rightarrow> string \<Rightarrow> string \<Rightarrow> string option \<Rightarrow> ('s, bool) io" where
  "registerApplication S now appId name description =
     bindE (cs_getApplication S appId) (\<lambda>existing.
       if existing \<noteq> None then ret False
       else cs_createApplication S \<lparr>app_app_id = appId, app_name = name,
              app_description = description, app_created_at = now\<rparr>)"

definition removeApplication :: "'s config_store \<Rightarrow> string \<Rightarrow> ('s, bool) io" where
  "removeApplication S appId = cs_deleteApplication S appId"

definition nm_listApplications :: "'s config_store \<Rightarrow> ('s, Application list) io" where
  "nm_listApplications S = cs_listApplications S"

definition nm_getApplication :: "'s config_store \<Rightarrow> string \<Rightarrow> ('s, Application option) io" where
  "nm_getApplication S appId = cs_getApplication S appId"

definition listEnvironments :: "string list \<Rightarrow> string list" where
  "listEnvironments customEnvironments = kDefaultEnvironments @ customEnvironments"

definition addCustomEnvironment :: "string \<Rightarrow> string list \<Rightarrow> bool \<times> string list" where
  "addCustomEnvironment envName customEnvironments =
     (if envName \<in> set kDefaultEnvironments then (False, customEnvironments)
      else if envName \<in> set customEnvironments then (False, customEnvironments)
      else (True, customEnvironments @ [envName]))"

definition createCluster ::
  "'s config_store \<Rightarrow> string \<Rightarrow> string \<Rightarrow> string \<Rightarrow> string \<Rightarrow> ('s, bool) io" where
  "createCluster S now appId env cluster =
     bindE (cs_getApplication S appId) (\<lambda>app.
       if app = None then ret False
       else bindE (cs_listNamespaces S appId env cluster) (\<lambda>existing.
         if existing \<noteq> [] then ret True
         else cs_createNamespace S (default_Namespace\<lparr>
           ns_id := makeNamespaceId appId env cluster ''application'',
           ns_app_id := appId, ns_env := env, ns_cluster := cluster,
           ns_name := ''application'', ns_type := ''private'', ns_created_at := now\<rparr>)))"

text \<open>The loop of \<^verbatim>\<open>listClusters\<close>: first occurrences in order.\<close>

fun collect_clusters :: "string list \<Rightarrow> Namespace list \<Rightarrow> string list" where
  "collect_clusters clusters [] = clusters"
| "collect_clusters clusters (n # rest) =
     (if ns_cluster n \<in> set clusters then collect_clusters clusters rest
      else collect_clusters (clusters @ [ns_cluster n]) rest)"

definition listClusters :: "'s config_store \<Rightarrow> string \<Rightarrow> string \<Rightarrow> ('s, string list) io" where
  "listClusters S appId env =
     bindE (cs_listNamespaces S appId env []) (\<lambda>found.
       let clusters = collect_clusters [] found
       in ret (if clusters = [] then [''default''] else clusters))"

definition nm_createNamespace ::
  "'s config_store \<Rightarrow> string \<Rightarrow> string \<Rightarrow> string \<Rightarrow> string \<Rightarrow> string \<Rightarrow> string \<Rightarrow> string option \<Rightarrow>
   ('s, bool) io" where
  "nm_createNamespace S now appId env cluster name type parentNamespaceId =
     bindE (cs_getApplication S appId) (\<lambda>app.
       if app = None then ret False
       else cs_createNamespace S \<lparr>ns_id = makeNamespaceId appId env cluster name,
              ns_app_id = appId, ns_env = env, ns_cluster = cluster, ns_name = name,
              ns_type = type, ns_parent_namespace_id = parentNamespaceId,
              ns_approval_enabled = Some False, ns_created_at = now\<rparr>)"

definition nm_deleteNamespace :: "'s config_store \<Rightarrow> string \<Rightarrow> ('s, bool) io" where
  "nm_deleteNamespace S namespaceId = cs_deleteNamespace S namespaceId"

definition nm_getNamespace :: "'s config_store \<Rightarrow> string \<Rightarrow> ('s, Namespace option) io" where
  "nm_getNamespace S namespaceId = cs_getNamespace S namespaceId"

definition nm_listNamespaces ::
  "'s config_store \<Rightarrow> string \<Rightarrow> string \<Rightarrow> string \<Rightarrow> ('s, Namespace list) io" where
  "nm_listNamespaces S appId env cluster = cs_listNamespaces S appId env cluster"

partial_function (option) resolveConfig ::
  "'s config_store \<Rightarrow> string \<Rightarrow> string \<Rightarrow> 's \<Rightarrow> (ConfigKey option result \<times> 's) option" where
  "resolveConfig S namespaceId key s =
     (case cs_getConfig S namespaceId key False s of
        (Inl e, t) \<Rightarrow> Some (Inl e, t)
      | (Inr (Some config), t) \<Rightarrow> Some (Inr (Some config), t)
      | (Inr None, t) \<Rightarrow>
          (case cs_getNamespace S namespaceId t of
             (Inl e, u) \<Rightarrow> Some (Inl e, u)
           | (Inr None, u) \<Rightarrow> Some (Inr None, u)
           | (Inr (Some ns), u) \<Rightarrow>
               (case ns_parent_namespace_id ns of
                  Some parent \<Rightarrow> resolveConfig S parent key u
                | None \<Rightarrow> Some (Inr None, u))))"

subsection \<open>Validation\<close>

text \<open>The character class of \<^verbatim>\<open>kKeyNamePattern\<close>, \<^verbatim>\<open>[a-zA-Z0-9._-]+\<close>.\<close>

definition key_char :: "char \<Rightarrow> bool" where
  "key_char c \<longleftrightarrow> (let n = (of_char c :: nat) in
     97 \<le> n \<and> n \<le> 122 \<or> 65 \<le> n \<and> n \<le> 90 \<or> 48 \<le> n \<and> n \<le> 57) \<or>
     c = CHR ''.'' \<or> c = CHR ''_'' \<or> c = CHR ''-''"

definition key_name_matches :: "string \<Rightarrow> bool" where
  "key_name_matches key \<longleftrightarrow> key \<noteq> [] \<and> list_all key_char key"

text \<open>The result pairs the boolean with the out-parameter \<^verbatim>\<open>error\<close>.\<close>

definition validateKeyName :: "string \<Rightarrow> string \<Rightarrow> bool \<times> string" where
  "validateKeyName key error =
     (if key = [] then (False, ''Key name cannot be empty'')
      else if length key > 128
        then (False, ''Key name exceeds maximum length of 128 characters'')
      else if \<not> key_name_matches key
        then (False, ''Key name contains invalid characters. Allowed: [a-zA-Z0-9._-]'')
      else (True, error))"

definition validateValueSize :: "string \<Rightarrow> nat \<Rightarrow> string \<Rightarrow> bool \<times> string" where
  "validateValueSize value maxBytes error =
     (if length value > maxBytes
      then (False, ''Config value exceeds maximum size of '' @ to_string (int maxBytes) @ '' bytes'')
      else (True, error))"


section \<open>Environments and clusters\<close>

lemma collect_clusters_set:
  "set (collect_clusters cs ns) = set cs \<union> ns_cluster ` set ns"
  by (induction cs ns rule: collect_clusters.induct) auto

lemma collect_clusters_distinct: "distinct cs \<Longrightarrow> distinct (collect_clusters cs ns)"
  by (induction cs ns rule: collect_clusters.induct) auto

lemma addCustomEnvironment_distinct:
  assumes "distinct (listEnvironments envs)" and "addCustomEnvironment e envs = (b, envs')"
  shows "distinct (listEnvironments envs') \<and> e \<in> set (listEnvironments envs') \<and>
    (b \<longleftrightarrow> e \<notin> set (listEnvironments envs))"
  using assms by (auto simp: listEnvironments_def addCustomEnvironment_def split: if_splits)


section \<open>Fallback resolution\<close>

text \<open>
  \<open>lineage nss n xs\<close>: following the parent identifiers from \<open>n\<close> visits exactly the namespaces
  \<open>xs\<close> and then stops.
\<close>

inductive lineage :: "(string \<rightharpoonup> Namespace) \<Rightarrow> string \<Rightarrow> string list \<Rightarrow> bool" for nss where
  missing: "nss n = None \<Longrightarrow> lineage nss n [n]"
| root: "nss n = Some r \<Longrightarrow> ns_parent_namespace_id r = None \<Longrightarrow> lineage nss n [n]"
| up: "nss n = Some r \<Longrightarrow> ns_parent_namespace_id r = Some p \<Longrightarrow> lineage nss p xs \<Longrightarrow>
     lineage nss n (n # xs)"

text \<open>The first published config for a key in a list of namespaces.\<close>

fun first_visible :: "(string \<times> string \<rightharpoonup> ConfigKey) \<Rightarrow> string \<Rightarrow> string list \<Rightarrow> ConfigKey option" where
  "first_visible m k [] = None"
| "first_visible m k (n # ns) =
     (case visible False (m (n, k)) of None \<Rightarrow> first_visible m k ns | Some c \<Rightarrow> Some c)"

definition parent_rel :: "(string \<rightharpoonup> Namespace) \<Rightarrow> (string \<times> string) set" where
  "parent_rel nss = {(p, n). \<exists>r. nss n = Some r \<and> ns_parent_namespace_id r = Some p}"

lemma lineage_exists:
  assumes "finite (dom nss)" and "acyclic (parent_rel nss)"
  shows "\<exists>xs. lineage nss n xs"
proof -
  have "parent_rel nss \<subseteq> (\<lambda>n. (the (ns_parent_namespace_id (the (nss n))), n)) ` dom nss"
    by (auto simp: parent_rel_def image_iff intro!: bexI)
  then have "finite (parent_rel nss)"
    using assms(1) by (auto intro: finite_subset)
  then have "wf (parent_rel nss)"
    using assms(2) by (rule finite_acyclic_wf)
  then show ?thesis
  proof (induction n rule: wf_induct_rule)
    case (less n)
    show ?case
    proof (cases "nss n")
      case None
      then show ?thesis by (blast intro: lineage.missing)
    next
      case (Some r)
      show ?thesis
      proof (cases "ns_parent_namespace_id r")
        case None
        with Some show ?thesis by (blast intro: lineage.root)
      next
        case (Some p)
        with \<open>nss n = Some r\<close> have "(p, n) \<in> parent_rel nss" by (auto simp: parent_rel_def)
        then obtain xs where "lineage nss p xs" using less by blast
        with Some \<open>nss n = Some r\<close> show ?thesis by (blast intro: lineage.up)
      qed
    qed
  qed
qed

lemma finite_dom_key_map: "finite (dom (key_map f xs))"
  by (simp add: key_map_def finite_dom_map_of)

context reliable_config_store
begin

lemma getConfig_run: "inv s \<Longrightarrow> cs_getConfig S n k d s = (Inr (visible d (cfgs s (n, k))), s)"
  using getConfig_total getConfig by fastforce

lemma getNamespace_run: "inv s \<Longrightarrow> cs_getNamespace S i s = (Inr (nss s i), s)"
  using getNamespace_total getNamespace by fastforce

lemma getApplication_run: "inv s \<Longrightarrow> cs_getApplication S a s = (Inr (apps s a), s)"
  using getApplication_total getApplication by fastforce

lemma resolveConfig_step:
  "inv s \<Longrightarrow> resolveConfig S n k s =
     (case visible False (cfgs s (n, k)) of
        Some c \<Rightarrow> Some (Inr (Some c), s)
      | None \<Rightarrow> (case nss s n of None \<Rightarrow> Some (Inr None, s)
          | Some r \<Rightarrow> (case ns_parent_namespace_id r of None \<Rightarrow> Some (Inr None, s)
              | Some p \<Rightarrow> resolveConfig S p k s)))"
  by (subst resolveConfig.simps) (simp add: getConfig_run getNamespace_run split: option.split)

lemma resolveConfig_lineage:
  assumes "lineage (nss s) n xs" and "inv s"
  shows "resolveConfig S n k s = Some (Inr (first_visible (cfgs s) k xs), s)"
  using assms
  by (induction rule: lineage.induct)
    (subst resolveConfig_step; simp split: option.split)+

text \<open>
  The recursion runs forever exactly when the parents never leave a set of namespaces none of which
  publishes the key.
\<close>

lemma resolveConfig_trapped:
  assumes "inv s" and X: "\<forall>m\<in>X. visible False (cfgs s (m, k)) = None \<and> (\<exists>p\<in>X. (p, m) \<in> parent_rel (nss s))"
    and "n \<in> X"
  shows "resolveConfig S n k s = None"
proof (rule ccontr)
  let ?P = "\<lambda>S' n' k' s'. \<not> (S' = S \<and> n' \<in> X \<and> k' = k \<and> s' = s)"
  assume "resolveConfig S n k s \<noteq> None"
  then obtain y where y: "resolveConfig S n k s = Some y" by auto
  have "?P S' n' k' s'" if "resolveConfig S' n' k' s' = Some y'" for S' n' k' s' y'
  proof (rule resolveConfig.raw_induct [where P = "\<lambda>S' n' k' s' _. ?P S' n' k' s'", OF _ that])
    fix f :: "'s config_store \<Rightarrow> string \<Rightarrow> string \<Rightarrow> 's \<Rightarrow> (ConfigKey option result \<times> 's) option"
    fix S1 n1 k1 s1 y1
    assume IH: "\<And>S1 n1 k1 s1 y1. f S1 n1 k1 s1 = Some y1 \<Longrightarrow> ?P S1 n1 k1 s1"
      and eq: "(case cs_getConfig S1 n1 k1 False s1 of
        (Inl e, t) \<Rightarrow> Some (Inl e, t)
      | (Inr None, t) \<Rightarrow>
          (case cs_getNamespace S1 n1 t of
             (Inl e, u) \<Rightarrow> Some (Inl e, u)
           | (Inr None, u) \<Rightarrow> Some (Inr None, u)
           | (Inr (Some ns), u) \<Rightarrow>
               (case ns_parent_namespace_id ns of
                  None \<Rightarrow> Some (Inr None, u)
                | Some parent \<Rightarrow> f S1 parent k1 u))
      | (Inr (Some config), t) \<Rightarrow> Some (Inr (Some config), t)) = Some y1"
    show "?P S1 n1 k1 s1"
    proof
      assume at: "S1 = S \<and> n1 \<in> X \<and> k1 = k \<and> s1 = s"
      with X obtain p r where "p \<in> X" "nss s n1 = Some r" "ns_parent_namespace_id r = Some p"
        and "visible False (cfgs s (n1, k)) = None" by (fastforce simp: parent_rel_def)
      with eq at IH [of S p k s y1] show False by (simp add: getConfig_run getNamespace_run assms(1))
    qed
  qed
  from this [OF y] assms(3) show False by simp
qed

lemma resolveConfig_diverges:
  assumes "inv s"
  shows "resolveConfig S n k s = None \<longleftrightarrow>
    (\<exists>X. n \<in> X \<and> (\<forall>m\<in>X. visible False (cfgs s (m, k)) = None \<and> (\<exists>p\<in>X. (p, m) \<in> parent_rel (nss s))))"
proof
  let ?X = "{m. resolveConfig S m k s = None}"
  have "visible False (cfgs s (m, k)) = None \<and> (\<exists>p\<in>?X. (p, m) \<in> parent_rel (nss s))" if "m \<in> ?X" for m
    using that resolveConfig_step [OF assms, of m k] by (auto simp: parent_rel_def split: option.splits)
  moreover assume "resolveConfig S n k s = None"
  ultimately show "\<exists>X. n \<in> X \<and> (\<forall>m\<in>X. visible False (cfgs s (m, k)) = None \<and> (\<exists>p\<in>X. (p, m) \<in> parent_rel (nss s)))"
    by (intro exI [of _ ?X]) simp
qed (use resolveConfig_trapped [OF assms] in blast)

end

end
