(* ===== verification/Store_Properties.thy ===== *)
theory Store_Properties
  imports Namespace_Manager
begin

text \<open>
  The abstract specification of the store and the properties of the SQLite implementation. A
  \<open>store_view\<close> has the applications, namespaces and configs as maps and the set of recorded values;
  \<open>spec_step\<close> is what each operation may do to it. The properties quantify over every database
  engine with the laws of \<open>sqlite_engine\<close>, or \<open>reliable_engine\<close> where an operation has to return;
  their witnesses run on the in-memory engine \<open>mem_orm\<close>.
\<close>


section \<open>Specification\<close>

record store_view =
  v_apps :: "string \<rightharpoonup> Application"
  v_nss :: "string \<rightharpoonup> Namespace"
  v_cfgs :: "string \<times> string \<rightharpoonup> ConfigKey"
  v_values :: "(string \<times> int \<times> string) set"

definition recorded_values :: "storage \<Rightarrow> (string \<times> int \<times> string) set" where
  "recorded_values s = (\<lambda>v. (cv_config_id v, cv_version v, cv_value v)) ` set (config_versions (tabs s))"

definition view :: "storage \<Rightarrow> store_view" where
  "view s = \<lparr>v_apps = app_map s, v_nss = ns_map s, v_cfgs = cfg_map s, v_values = recorded_values s\<rparr>"

definition write_value ::
  "string \<Rightarrow> string \<Rightarrow> ConfigKey \<Rightarrow> store_view \<Rightarrow> store_view" where
  "write_value n k c w = w\<lparr>v_cfgs := (v_cfgs w)((n, k) \<mapsto> c),
     v_values := insert (makeConfigId n k, ck_version c, ck_value c) (v_values w)\<rparr>"

definition without_config ::
  "bool \<Rightarrow> string \<times> string \<Rightarrow> (string \<times> string \<rightharpoonup> ConfigKey) \<Rightarrow> (string \<times> string \<rightharpoonup> ConfigKey)" where
  "without_config d i m = (case m i of None \<Rightarrow> m
     | Some c \<Rightarrow> if d \<and> ck_status c \<noteq> ''draft'' then m else m(i := None))"

inductive spec_step :: "store_op \<Rightarrow> bool \<Rightarrow> store_view \<Rightarrow> store_view \<Rightarrow> bool" where
  create_app: "v_apps w (app_app_id a) = None \<Longrightarrow>
    spec_step (CreateApplication a) True w (w\<lparr>v_apps := (v_apps w)(app_app_id a \<mapsto> a)\<rparr>)"
| create_app_refused: "spec_step (CreateApplication a) False w w"
| delete_app: "\<forall>n\<in>ran (v_nss w). ns_app_id n \<noteq> a \<Longrightarrow>
    spec_step (DeleteApplication a) True w (w\<lparr>v_apps := (v_apps w)(a := None)\<rparr>)"
| create_ns: "v_nss w (ns_id n) = None \<Longrightarrow> v_apps w (ns_app_id n) \<noteq> None \<Longrightarrow>
    spec_step (CreateNamespace n) True w (w\<lparr>v_nss := (v_nss w)(ns_id n \<mapsto> n)\<rparr>)"
| create_ns_refused: "spec_step (CreateNamespace n) False w w"
| delete_ns: "spec_step (DeleteNamespace i) True w (w\<lparr>v_nss := (v_nss w)(i := None)\<rparr>)"
| create_cfg: "v_cfgs w (n, k) = None \<Longrightarrow>
    spec_step (CreateConfig now n k v op) True w (write_value n k (fresh_config now n k v) w)"
| create_cfg_refused: "spec_step (CreateConfig now n k v op) False w w"
| update_cfg: "v_cfgs w (n, k) = Some c \<Longrightarrow>
    spec_step (UpdateConfig now n k v op d) True w (write_value n k (edited_config now v d c) w)"
| update_absent: "v_cfgs w (n, k) = None \<Longrightarrow> spec_step (UpdateConfig now n k v op d) False w w"
| delete_cfg: "spec_step (DeleteConfig now n k op d) True w
    (w\<lparr>v_cfgs := without_config d (n, k) (v_cfgs w)\<rparr>)"
| rollback_cfg: "v_cfgs w (n, k) = Some c \<Longrightarrow> (makeConfigId n k, i, v) \<in> v_values w \<Longrightarrow>
    spec_step (RollbackConfig now n k i op) True w (write_value n k (edited_config now v True c) w)"
| rollback_absent: "v_cfgs w (n, k) = None \<or> (\<forall>v. (makeConfigId n k, i, v) \<notin> v_values w) \<Longrightarrow>
    spec_step (RollbackConfig now n k i op) False w w"
| publish_ns: "spec_step (PublishRelease now n nt op) True w (w\<lparr>v_cfgs := published n (v_cfgs w)\<rparr>)"
| publish_refused: "spec_step (PublishRelease now n nt op) False w w"
| create_release: "spec_step (CreateRelease r) b w w"
| retire_release: "spec_step (RetireRelease i) b w w"
| create_approval: "spec_step (CreateApproval a) b w w"
| update_approval: "spec_step (UpdateApprovalStatus now i st cm) b w w"
| create_user: "spec_step (CreateUser u) b w w"

lemma view_sel [simp]:
  "v_apps (view s) = app_map s" "v_nss (view s) = ns_map s" "v_cfgs (view s) = cfg_map s"
  "v_values (view s) = recorded_values s"
  by (simp_all add: view_def)

lemma view_eqI:
  "app_map t = v_apps w \<Longrightarrow> ns_map t = v_nss w \<Longrightarrow> cfg_map t = v_cfgs w \<Longrightarrow>
   recorded_values t = v_values w \<Longrightarrow> view t = w"
  by (simp add: view_def)

lemma view_frame:
  "applications (tabs t) = applications (tabs s) \<Longrightarrow> namespaces (tabs t) = namespaces (tabs s) \<Longrightarrow>
   configs (tabs t) = configs (tabs s) \<Longrightarrow> config_versions (tabs t) = config_versions (tabs s) \<Longrightarrow>
   view t = view s"
  by (simp add: view_def map_defs recorded_values_def)

lemma recorded_values_frame:
  "config_versions (tabs t) = config_versions (tabs s) \<Longrightarrow> recorded_values t = recorded_values s"
  by (simp add: recorded_values_def)

context sqlite_engine
begin

lemma createConfig_view:
  assumes "store_inv s" and "createConfig E now n k v op s = (Inr b, t)"
  shows "spec_step (CreateConfig now n k v op) b (view s) (view t)"
proof (cases b)
  case True
  from createConfig_effect [OF assms(2)] True have vals:
    "recorded_values t = insert (makeConfigId n k, 1, v) (recorded_values s)"
    by (auto simp: version_row_def recorded_values_def)
  from createConfig_map [OF assms] True have "cfg_map s (n, k) = None"
    and "view t = write_value n k (fresh_config now n k v) (view s)"
    by (auto simp: write_value_def vals intro!: view_eqI)
  then show ?thesis using True create_cfg [of "view s" n k now v op] by simp
next
  case False
  with createConfig_effect [OF assms(2)] have "t = s" by auto
  with False create_cfg_refused show ?thesis by simp
qed

lemma updateConfig_view:
  assumes "store_inv s" and "updateConfig E now n k v op d s = (Inr b, t)"
  shows "(case cfg_map s (n, k) of None \<Rightarrow> \<not> b \<and> t = s
    | Some c \<Rightarrow> b \<and> view t = write_value n k (edited_config now v d c) (view s))"
proof (cases "cfg_map s (n, k)")
  case None
  with updateConfig_map [OF assms] have "\<not> b" by simp
  with updateConfig_effect [OF assms(2)] None show ?thesis by auto
next
  case (Some c)
  note m = updateConfig_map [OF assms]
  from m Some have b: b and t: "cfg_map t = (cfg_map s)((n, k) \<mapsto> edited_config now v d c)" by auto
  from updateConfig_effect [OF assms(2)] b obtain c' where c': "c' \<in> set (configs (tabs s))" "ck_id c' = (n, k)"
    and vals: "recorded_values t = insert (makeConfigId n k, wrap32 (ck_version c' + 1), v) (recorded_values s)"
    by (auto simp: version_row_def recorded_values_def)
  have "c' = c" using c' Some cfg_map_Some [OF assms(1), of "(n, k)" c'] by simp
  with vals t m Some b show ?thesis
    by (auto simp: write_value_def intro!: view_eqI)
qed

lemma rollbackConfig_view:
  assumes inv: "store_inv s" and run: "rollbackConfig E now n k i op s = (Inr b, t)"
  shows "spec_step (RollbackConfig now n k i op) b (view s) (view t)"
  using rollbackConfig_cases [OF run]
proof (elim disjE bexE conjE exE)
  assume "Inr b = Inr False" "t = s" and none: "\<forall>v\<in>set (config_versions (tabs s)).
      \<not> (cv_config_id v = makeConfigId n k \<and> cv_version v = i)"
  from none have "\<forall>v. (makeConfigId n k, i, v) \<notin> v_values (view s)"
    by (auto simp: recorded_values_def)
  with \<open>Inr b = Inr False\<close> \<open>t = s\<close> show ?thesis by (auto intro: rollback_absent)
next
  fix v assume v: "v \<in> set (config_versions (tabs s))" "cv_config_id v = makeConfigId n k" "cv_version v = i"
    and upd: "updateConfig E now n k (cv_value v) op True s = (Inr b, t)"
  from v have mem: "(makeConfigId n k, i, cv_value v) \<in> v_values (view s)"
    by (auto simp: recorded_values_def intro!: image_eqI [of _ _ v])
  show ?thesis
  proof (cases "cfg_map s (n, k)")
    case None
    with updateConfig_view [OF inv upd] rollback_absent [of "view s" n k i now op] show ?thesis by simp
  next
    case (Some c)
    with updateConfig_view [OF inv upd] rollback_cfg [OF _ mem, of c now op] show ?thesis by simp
  qed
qed auto

lemma createApplication_view:
  assumes inv: "store_inv s" and c: "createApplication E a s = (Inr b, t)"
  shows "spec_step (CreateApplication a) b (view s) (view t)"
proof -
  from createApplication_effect [OF c] have vals: "recorded_values t = recorded_values s"
    by (intro recorded_values_frame) auto
  from store.createApplication [OF inv, of a b t] c have m: "ns_map t = ns_map s" "cfg_map t = cfg_map s"
    "if b then app_map s (app_app_id a) = None \<and> app_map t = (app_map s)(app_app_id a \<mapsto> a)
     else app_map t = app_map s" by auto
  then have "view t = (if b then (view s)\<lparr>v_apps := (v_apps (view s))(app_app_id a \<mapsto> a)\<rparr> else view s)"
    using vals by (intro view_eqI) (cases b; simp)+
  with m create_app [of "view s" a] create_app_refused [of a "view s"] show ?thesis by (cases b) simp_all
qed

lemma deleteApplication_view:
  assumes inv: "store_inv s" and c: "deleteApplication E a s = (Inr b, t)"
  shows "spec_step (DeleteApplication a) b (view s) (view t)"
proof -
  from deleteApplication_effect [OF c] have vals: "recorded_values t = recorded_values s"
    by (intro recorded_values_frame) auto
  from store.deleteApplication [OF inv, of a b t] c have m: b "ns_map t = ns_map s"
    "cfg_map t = cfg_map s" "app_map t = (app_map s)(a := None)"
    "\<forall>n\<in>ran (ns_map s). ns_app_id n \<noteq> a" by (auto simp: ran_def)
  then have "view t = (view s)\<lparr>v_apps := (v_apps (view s))(a := None)\<rparr>"
    using vals by (intro view_eqI) simp_all
  with m delete_app [of "view s" a] show ?thesis by simp
qed

lemma createNamespace_view:
  assumes inv: "store_inv s" and c: "createNamespace E n s = (Inr b, t)"
  shows "spec_step (CreateNamespace n) b (view s) (view t)"
proof -
  from createNamespace_effect [OF c] have vals: "recorded_values t = recorded_values s"
    by (intro recorded_values_frame) auto
  from store.createNamespace [OF inv, of n b t] c have m: "app_map t = app_map s" "cfg_map t = cfg_map s"
    "if b then ns_map s (ns_id n) = None \<and> ns_map t = (ns_map s)(ns_id n \<mapsto> n) \<and>
        app_map s (ns_app_id n) \<noteq> None else ns_map t = ns_map s" by auto
  then have "view t = (if b then (view s)\<lparr>v_nss := (v_nss (view s))(ns_id n \<mapsto> n)\<rparr> else view s)"
    using vals by (intro view_eqI) (cases b; simp)+
  with m create_ns [of "view s" n] create_ns_refused [of n "view s"] show ?thesis by (cases b) simp_all
qed

lemma deleteNamespace_view:
  assumes inv: "store_inv s" and c: "deleteNamespace E i s = (Inr b, t)"
  shows "spec_step (DeleteNamespace i) b (view s) (view t)"
proof -
  from deleteNamespace_effect [OF c] have vals: "recorded_values t = recorded_values s"
    by (intro recorded_values_frame) auto
  from store.deleteNamespace [OF inv, of i b t] c have m: b "app_map t = app_map s"
    "cfg_map t = cfg_map s" "ns_map t = (ns_map s)(i := None)" by auto
  then have "view t = (view s)\<lparr>v_nss := (v_nss (view s))(i := None)\<rparr>"
    using vals by (intro view_eqI) simp_all
  with m delete_ns [of i "view s"] show ?thesis by simp
qed

lemma deleteConfig_view:
  assumes inv: "store_inv s" and c: "deleteConfig E now n k op d s = (Inr b, t)"
  shows "spec_step (DeleteConfig now n k op d) b (view s) (view t)"
proof -
  from deleteConfig_effect [OF c] have vals: "recorded_values t = recorded_values s"
    by (intro recorded_values_frame) auto
  from deleteConfig_map [OF inv c] vals
  have b and "view t = (view s)\<lparr>v_cfgs := without_config d (n, k) (v_cfgs (view s))\<rparr>"
    by (auto simp: without_config_def intro!: view_eqI)
  with delete_cfg [of now n k op d "view s"] show ?thesis by simp
qed

lemma publishRelease_view:
  assumes inv: "store_inv s" and c: "publishRelease E now n nt op out s = (Inr (b, r), t)"
  shows "spec_step (PublishRelease now n nt op) b (view s) (view t)"
proof -
  from publishRelease_effect [OF c] have vals: "recorded_values t = recorded_values s"
    by (intro recorded_values_frame) auto
  from publishRelease_map [OF inv c] vals have
    "view t = (if b then (view s)\<lparr>v_cfgs := published n (v_cfgs (view s))\<rparr> else view s)"
    by (intro view_eqI) (cases b; simp)+
  with publish_ns [of now n nt op "view s"] publish_refused [of now n nt op "view s"]
  show ?thesis by (cases b) simp_all
qed

lemma release_views:
  "createRelease E r s = (res, t) \<Longrightarrow> spec_step (CreateRelease r) b (view s) (view t)"
  "retireRelease E i s = (res', t) \<Longrightarrow> spec_step (RetireRelease i) b (view s) (view t)"
  by (drule createRelease_effect retireRelease_effect, subst view_frame [of t s];
      auto intro: create_release retire_release)+

lemma approval_views:
  "createApproval E a s = (res, t) \<Longrightarrow> spec_step (CreateApproval a) b (view s) (view t)"
  "updateApprovalStatus E now i st cm s = (res', t) \<Longrightarrow>
   spec_step (UpdateApprovalStatus now i st cm) b (view s) (view t)"
  by (drule createApproval_effect updateApprovalStatus_effect, subst view_frame [of t s];
      auto intro: create_approval update_approval)+

lemma createUser_view: "createUser E u s = (res, t) \<Longrightarrow> spec_step (CreateUser u) b (view s) (view t)"
  by (drule createUser_effect, subst view_frame [of t s]; auto intro: create_user)

lemma getConfigVersions_effect:
  assumes "getConfigVersions E n k s = (Inr vs, t)"
  shows "t = s \<and> mset vs = mset (filter (\<lambda>v. cv_config_id v = makeConfigId n k) (config_versions (tabs s))) \<and>
    sorted_wrt (\<lambda>v w. cv_version w \<le> cv_version v) vs"
  using ver.get_desc_int_set [OF assms [unfolded getConfigVersions_def]] .

lemma getChangeHistory_effect:
  assumes "getChangeHistory E q s = (Inr ls, t)"
  shows "t = s \<and> (0 \<le> clq_page_size q \<longrightarrow> length ls \<le> nat (clq_page_size q)) \<and>
    sorted_wrt (\<lambda>l m. cl_created_at m \<le> cl_created_at l) ls \<and>
    (\<forall>l\<in>set ls. l \<in> set (change_logs (tabs s)) \<and>
      (\<forall>k. clq_key q = Some k \<longrightarrow> cl_key l = k) \<and>
      (\<forall>n. clq_namespace_id q = Some n \<longrightarrow> cl_namespace_id l = n) \<and>
      (\<forall>a. clq_time_from q = Some a \<longrightarrow> a \<le> cl_created_at l) \<and>
      (\<forall>b. clq_time_to q = Some b \<longrightarrow> cl_created_at l \<le> b))"
proof -
  let ?p = "\<lambda>l. (case clq_key q of None \<Rightarrow> True | Some k \<Rightarrow> cl_key l = k) \<and>
    (case clq_namespace_id q of None \<Rightarrow> True | Some n \<Rightarrow> cl_namespace_id l = n) \<and>
    (case clq_time_from q of None \<Rightarrow> True | Some t \<Rightarrow> t \<le> cl_created_at l) \<and>
    (case clq_time_to q of None \<Rightarrow> True | Some t \<Rightarrow> cl_created_at l \<le> t)"
  let ?w = "Some (clq_page_size q, wrap32 (wrap32 (clq_page q - 1) * clq_page_size q))"
  from assms have "tbl_get_all_desc_text (t_change_logs E) ?p cl_created_at ?w s = (Inr ls, t)"
    by (simp add: getChangeHistory_def Let_def)
  from log.get_desc_text_ok [OF this] obtain ys where t: "t = s"
    and ys: "mset ys = mset (filter ?p (change_logs (tabs s)))"
    and srt: "sorted_wrt (\<lambda>l m. cl_created_at m \<le> cl_created_at l) ys" and ls: "ls = sql_window ?w ys"
    by blast
  from sql_window_subset [of ?w ys] mset_filter_set [OF ys]
  have "l \<in> set (change_logs (tabs s)) \<and> ?p l" if "l \<in> set ls" for l using that ls by auto
  moreover from srt ls have "sorted_wrt (\<lambda>l m. cl_created_at m \<le> cl_created_at l) ls"
    by (simp only: sql_window_sorted)
  moreover from ls have "0 \<le> clq_page_size q \<longrightarrow> length ls \<le> nat (clq_page_size q)"
    by (simp only: sql_window_length) simp
  ultimately show ?thesis using t by (auto split: option.splits)
qed

lemma exec_refines:
  assumes inv: "store_inv s" and run: "exec_op E o1 s = (Inr b, t)"
  shows "spec_step o1 b (view s) (view t)"
proof (cases o1)
  case (UpdateConfig now n k v op d)
  with run updateConfig_view [OF inv, of now n k v op d b t] show ?thesis
    by (cases "cfg_map s (n, k)") (auto intro: update_cfg update_absent)
qed (use inv run in \<open>auto simp: bindE_Inr
  intro: createApplication_view deleteApplication_view createNamespace_view deleteNamespace_view
    createConfig_view deleteConfig_view rollbackConfig_view publishRelease_view
    release_views approval_views createUser_view\<close>)

end

context reliable_engine
begin

lemma config_ops_return:
  assumes "store_inv s"
  shows "(\<exists>t. createConfig E now n k v op s = (Inr (cfg_map s (n, k) = None), t)) \<and>
    (\<exists>t. updateConfig E now n k v op d s = (Inr (cfg_map s (n, k) \<noteq> None), t)) \<and>
    (\<exists>t. deleteConfig E now n k op d s = (Inr True, t)) \<and>
    getConfig E n k d s = (Inr (visible d (cfg_map s (n, k))), s) \<and>
    (\<exists>r t. publishRelease E now n nt op out s = (Inr (True, r), t))"
proof (intro conjI)
  from updateConfig_total [OF assms] obtain b t where u: "updateConfig E now n k v op d s = (Inr b, t)"
    by blast
  with updateConfig_map [OF assms u]
  show "\<exists>t. updateConfig E now n k v op d s = (Inr (cfg_map s (n, k) \<noteq> None), t)"
    by (auto split: option.splits)
  from deleteConfig_total [OF assms] obtain b t where x: "deleteConfig E now n k op d s = (Inr b, t)"
    by blast
  with deleteConfig_map [OF assms x] show "\<exists>t. deleteConfig E now n k op d s = (Inr True, t)" by auto
  show "getConfig E n k d s = (Inr (visible d (cfg_map s (n, k))), s)"
    using store.getConfig_run [OF assms, of n k d] by simp
qed (use createConfig_total [OF assms] publishRelease_total [OF assms] in blast)+

end


section \<open>Example states\<close>

text \<open>A config created, then edited, on the in-memory engine.\<close>

definition demo1 :: storage where
  "demo1 = snd (createConfig mem_orm ''t1'' ''ns'' ''k'' ''v1'' ''alice'' init_storage)"

definition demo2 :: storage where
  "demo2 = snd (updateConfig mem_orm ''t2'' ''ns'' ''k'' ''v2'' ''bob'' True demo1)"

lemma demo1_run: "createConfig mem_orm ''t1'' ''ns'' ''k'' ''v1'' ''alice'' init_storage = (Inr True, demo1)"
  unfolding demo1_def by (rule run_pair) code_simp

lemma demo2_run: "updateConfig mem_orm ''t2'' ''ns'' ''k'' ''v2'' ''bob'' True demo1 = (Inr True, demo2)"
  unfolding demo2_def by (rule run_pair) code_simp

lemma demo1_inv: "store_inv demo1"
  using mem.createConfig_inv [OF store_inv_init demo1_run] .

lemma demo2_inv: "store_inv demo2"
  using mem.updateConfig_inv [OF demo1_inv demo2_run] .


section \<open>Properties of the SQLite store\<close>



definition published_tables :: "string \<Rightarrow> Release \<Rightarrow> db \<Rightarrow> db" where
  "published_tables n r d = d\<lparr>
     configs := map (\<lambda>c. if ck_namespace_id c = n then c\<lparr>ck_status := ''live''\<rparr> else c) (configs d),
     releases := releases d @ [r]\<rparr>"

text \<open>
  C2. Publishing is atomic: whatever statement fails, including the commit, \<^verbatim>\<open>publishRelease\<close> either
  leaves the database as it was (and throws or returns false), or returns true after switching every
  config of the namespace to live and adding one release, whose number is one more than the largest
  of the namespace and whose identifier is new.
\<close>

theorem publish_atomic:
  assumes "sqlite_engine E" and "publishRelease E now n nt op out s = (res, t)"
  shows "(t = s \<and> (\<forall>r. res \<noteq> Inr (True, r))) \<or>
    (\<exists>i r. res = Inr (True, r) \<and> (\<forall>x\<in>set (releases (tabs s)). rel_id x < i) \<and>
       r = release_row i now n (wrap32 (max_version n (releases (tabs s)) + 1)) nt op \<and>
       t = s\<lparr>tabs := published_tables n r (tabs s)\<rparr>)"
  using sqlite_engine.publishRelease_effect [OF assms] by (auto simp: published_tables_def)

theorem publish_atomic_witness:
  "\<exists>r. fst (publishRelease mem_orm ''t3'' ''ns'' ''first'' ''bob'' default_Release demo2) = Inr (True, r) \<and>
     snd (publishRelease mem_orm ''t3'' ''ns'' ''first'' ''bob'' default_Release demo2) =
       demo2\<lparr>tabs := published_tables ''ns'' r (tabs demo2)\<rparr>"
proof -
  have "fst (publishRelease mem_orm ''t3'' ''ns'' ''first'' ''bob'' default_Release demo2) =
      Inr (True, release_row 1 ''t3'' ''ns'' 1 ''first'' ''bob'')" by code_simp
  from publish_atomic [OF mem.sqlite_engine_axioms run_pair [OF this]] this show ?thesis by auto
qed

text \<open>
  C3. The store implements its specification: on a state that satisfies the invariant, every
  operation that returns \<open>b\<close> acts on the abstract view (applications, namespaces, configs, recorded
  values) as \<open>spec_step\<close> says for the outcome \<open>b\<close>.
\<close>

theorem store_refines:
  assumes "sqlite_engine E" and "store_inv s" and "exec_op E o1 s = (Inr b, t)"
  shows "spec_step o1 b (view s) (view t)"
  using assms by (rule sqlite_engine.exec_refines)

theorem store_refines_witness:
  "spec_step (UpdateConfig ''t2'' ''ns'' ''k'' ''v2'' ''bob'' True) True (view demo1) (view demo2)"
  by (rule store_refines [OF mem.sqlite_engine_axioms demo1_inv]) (simp add: demo2_run)





text \<open>
  C7. From draft to live. A new config is a draft: a read without drafts does not see it, a read with
  drafts returns it with version 1, and every other read is unchanged. After a successful publish a reader
  without drafts sees every config stored in the published namespace, with its latest value, and reads of
  other namespaces are what they were.
\<close>

theorem drafts_go_live:
  assumes "sqlite_engine E" and "store_inv s"
  shows "(createConfig E now n k v op s = (Inr True, t) \<and> getConfig E m j d t = (Inr c, u) \<longrightarrow>
      c = (if (m, j) = (n, k) then (if d then Some (fresh_config now n k v) else None)
           else visible d (cfg_map s (m, j)))) \<and>
    (publishRelease E now n nt op out s = (Inr (True, r), t') \<and> getConfig E m j False t' = (Inr c', u') \<longrightarrow>
      c' = (if m = n then map_option (\<lambda>c. c\<lparr>ck_status := ''live''\<rparr>) (cfg_map s (m, j))
            else visible False (cfg_map s (m, j))))"
proof (intro conjI impI, goal_cases)
  case 1
  with sqlite_engine.createConfig_inv [OF assms] sqlite_engine.createConfig_map [OF assms]
    sqlite_engine.getConfig_effect [OF assms(1), of t m j d c u]
  show ?case by auto
next
  case 2
  with sqlite_engine.publishRelease_inv [OF assms] sqlite_engine.publishRelease_map [OF assms]
    sqlite_engine.getConfig_effect [OF assms(1), of t' m j False c' u']
  show ?case by (auto simp: published_def visible_def split: option.splits)
qed

theorem drafts_go_live_witness:
  "fst (getConfig mem_orm ''ns'' ''k'' False demo1) = Inr None \<and>
   fst (getConfig mem_orm ''ns'' ''k'' False
     (snd (publishRelease mem_orm ''t3'' ''ns'' ''first'' ''bob'' default_Release demo2))) =
   Inr (map_option (\<lambda>c. c\<lparr>ck_status := ''live''\<rparr>) (cfg_map demo2 (''ns'', ''k'')))"
proof -
  let ?t = "snd (publishRelease mem_orm ''t3'' ''ns'' ''first'' ''bob'' default_Release demo2)"
  have n: "fst (getConfig mem_orm ''ns'' ''k'' False demo1) = Inr None" by code_simp
  have p: "fst (publishRelease mem_orm ''t3'' ''ns'' ''first'' ''bob'' default_Release demo2) =
      Inr (True, release_row 1 ''t3'' ''ns'' 1 ''first'' ''bob'')" by code_simp
  have g: "fst (getConfig mem_orm ''ns'' ''k'' False ?t) =
      Inr (Some \<lparr>ck_namespace_id = ''ns'', ck_key = ''k'', ck_value = ''v2'', ck_version = 2,
        ck_status = ''live'', ck_created_at = ''t1'', ck_updated_at = ''t2''\<rparr>)" by code_simp
  from drafts_go_live [OF mem.sqlite_engine_axioms store_inv_init] demo1_run run_pair [OF n]
    drafts_go_live [OF mem.sqlite_engine_axioms demo2_inv] run_pair [OF p] run_pair [OF g] n g
  show ?thesis by fastforce
qed



lemma valid_key_no_colon: "validateKeyName k e = (True, e') \<Longrightarrow> CHR '':'' \<notin> set k"
  by (auto simp: validateKeyName_def key_name_matches_def list_all_iff key_char_def split: if_splits)

lemma split_at_last:
  assumes "n @ [c] @ k = n' @ [c] @ k'" and "c \<notin> set k" and "c \<notin> set k'"
  shows "n = n' \<and> k = k'"
proof -
  have k: "rev k = takeWhile (\<lambda>x. x \<noteq> c) (rev (n @ [c] @ k))" if "c \<notin> set k" for n k
    using that by (subst takeWhile_eq_all_conv [of _ "rev k", THEN iffD2, symmetric])
      (auto simp: takeWhile_tail)
  have "rev k = rev k'" unfolding k [OF assms(2), of n] k [OF assms(3), of n'] assms(1) ..
  with assms(1) show ?thesis by simp
qed

text \<open>
  C10. For keys that \<^verbatim>\<open>validateKeyName\<close> accepts, the config identifier determines the namespace and
  the key, so the version history of one config never mixes with another's.
\<close>

theorem config_id_injective:
  assumes "validateKeyName k e1 = (True, e1')" and "validateKeyName k' e2 = (True, e2')"
    and "makeConfigId n k = makeConfigId n' k'"
  shows "n = n' \<and> k = k'"
  using split_at_last [of n "CHR '':''" k n' k'] assms
  by (simp add: makeConfigId_def valid_key_no_colon)

theorem config_id_injective_witness:
  "makeConfigId ''app/DEV/default/a'' ''db.url'' = makeConfigId ''app/DEV/default/a'' ''db.url'' \<and>
   (''app/DEV/default/a'' :: string) = ''app/DEV/default/a'' \<and> validateKeyName ''db.url'' [] = (True, [])"
proof -
  have v: "validateKeyName ''db.url'' [] = (True, [])" by code_simp
  from config_id_injective [OF v v, of "''app/DEV/default/a''" "''app/DEV/default/a''"] v show ?thesis by simp
qed



text \<open>
  C12. On an engine whose statements succeed unless a constraint forbids them, the config operations
  always return: creation says whether the key was free, and update, delete, publish and reads do not
  throw.
\<close>

theorem store_total:
  assumes "reliable_engine E" and "store_inv s"
  shows "(\<exists>t. createConfig E now n k v op s = (Inr (cfg_map s (n, k) = None), t)) \<and>
    (\<exists>t. updateConfig E now n k v op d s = (Inr (cfg_map s (n, k) \<noteq> None), t)) \<and>
    (\<exists>t. deleteConfig E now n k op d s = (Inr True, t)) \<and>
    getConfig E n k d s = (Inr (visible d (cfg_map s (n, k))), s) \<and>
    (\<exists>r t. publishRelease E now n nt op out s = (Inr (True, r), t))"
  using reliable_engine.config_ops_return [OF assms] .

theorem store_total_witness:
  "\<exists>t. updateConfig mem_orm ''t3'' ''ns'' ''k'' ''v3'' ''bob'' False demo2 =
     (Inr (cfg_map demo2 (''ns'', ''k'') \<noteq> None), t)"
  using store_total [OF mem.reliable_engine_axioms demo2_inv] by blast


section \<open>An engine that fails between two statements\<close>

text \<open>The in-memory engine with a version table that accepts no insertions.\<close>

definition flaky_orm :: orm where
  "flaky_orm = mem_orm\<lparr>t_config_versions := (t_config_versions mem_orm)\<lparr>tbl_insert := (\<lambda>r s. (Inl SqlError, s))\<rparr>\<rparr>"

lemma failing_insert_laws:
  assumes "orm_table T rows upd dup stamp"
  shows "orm_table (T\<lparr>tbl_insert := (\<lambda>r s. (Inl SqlError, s))\<rparr>) rows upd dup stamp"
  using assms unfolding orm_table_def by simp

lemma flaky_tables:
  "t_applications flaky_orm = t_applications mem_orm" "t_namespaces flaky_orm = t_namespaces mem_orm"
  "t_configs flaky_orm = t_configs mem_orm" "t_change_logs flaky_orm = t_change_logs mem_orm"
  "t_releases flaky_orm = t_releases mem_orm" "t_approvals flaky_orm = t_approvals mem_orm"
  "t_users flaky_orm = t_users mem_orm" "orm_begin flaky_orm = orm_begin mem_orm"
  "orm_commit flaky_orm = orm_commit mem_orm" "orm_rollback flaky_orm = orm_rollback mem_orm"
  "t_config_versions flaky_orm = (t_config_versions mem_orm)\<lparr>tbl_insert := (\<lambda>r s. (Inl SqlError, s))\<rparr>"
  by (simp_all add: flaky_orm_def)

interpretation flaky: sqlite_engine flaky_orm
  unfolding sqlite_engine_def sqlite_engine_axioms_def flaky_tables
  using mem.sqlite_engine_axioms failing_insert_laws [OF mem.ver.orm_table_axioms]
  unfolding sqlite_engine_def sqlite_engine_axioms_def by blast


end
