(* ===== verification/Publish_Engine.thy ===== *)
theory Publish_Engine
  imports Store_Properties
begin

text \<open>
  \<^verbatim>\<open>PublishEngine\<close> (\<^verbatim>\<open>src/publish/publish_engine.cpp\<close>) on an arbitrary \<^verbatim>\<open>ConfigStore\<close> \<open>S\<close>, and
  \<^verbatim>\<open>ReleaseRuleEngine\<close> (\<^verbatim>\<open>src/publish/release_rule_engine.cpp\<close>). Parameters: \<open>dump\<close> is
  \<^verbatim>\<open>nlohmann::json::dump\<close> of an array of strings (it may throw), \<open>hash\<close> is \<^verbatim>\<open>std::hash\<close> on strings,
  which the C++ standard leaves to the implementation.
\<close>


section \<open>Operations\<close>

definition getDraftChanges :: "'s config_store \<Rightarrow> string \<Rightarrow> ('s, ConfigKey list) io" where
  "getDraftChanges S namespaceId =
     bindE (cs_listConfigs S namespaceId True) (\<lambda>found.
       ret (filter (\<lambda>c. ck_status c = ''draft'') found))"

definition addDraftChange ::
  "'s config_store \<Rightarrow> string \<Rightarrow> string \<Rightarrow> string \<Rightarrow> string \<Rightarrow> string \<Rightarrow> ('s, bool) io" where
  "addDraftChange S now namespaceId key value operatorId =
     bindE (cs_getConfig S namespaceId key False) (\<lambda>existing.
       if existing \<noteq> None then cs_updateConfig S now namespaceId key value operatorId True
       else cs_createConfig S now namespaceId key value operatorId)"

definition removeDraftChange ::
  "'s config_store \<Rightarrow> string \<Rightarrow> string \<Rightarrow> string \<Rightarrow> string \<Rightarrow> ('s, bool) io" where
  "removeDraftChange S now namespaceId key operatorId =
     cs_deleteConfig S now namespaceId key operatorId True"

definition publish ::
  "'s config_store \<Rightarrow> string \<Rightarrow> string \<Rightarrow> string \<Rightarrow> string \<Rightarrow> Release \<Rightarrow> ('s, bool \<times> Release) io" where
  "publish S now namespaceId releaseNote operatorId outRelease =
     cs_publishRelease S now namespaceId releaseNote operatorId outRelease"

definition submitForApproval ::
  "'s config_store \<Rightarrow> string \<Rightarrow> string \<Rightarrow> string \<Rightarrow> ('s, bool \<times> Approval) io" where
  "submitForApproval S now namespaceId submitterId =
     (let approval = default_Approval\<lparr>apr_namespace_id := namespaceId,
            apr_submitter_id := submitterId, apr_status := ''pending'', apr_created_at := []\<rparr>
      in bindE (cs_createApproval S now approval) (\<lambda>(_, a). ret (True, a)))"

definition approve :: "'s config_store \<Rightarrow> string \<Rightarrow> int \<Rightarrow> string \<Rightarrow> string \<Rightarrow> ('s, bool) io" where
  "approve S now approvalId approverId comment =
     cs_updateApprovalStatus S now approvalId ''approved'' comment"

definition reject :: "'s config_store \<Rightarrow> string \<Rightarrow> int \<Rightarrow> string \<Rightarrow> string \<Rightarrow> ('s, bool) io" where
  "reject S now approvalId approverId comment =
     cs_updateApprovalStatus S now approvalId ''rejected'' comment"

definition pe_getPendingApprovals :: "'s config_store \<Rightarrow> string \<Rightarrow> ('s, Approval list) io" where
  "pe_getPendingApprovals S namespaceId = cs_getPendingApprovals S namespaceId"

text \<open>
  When \<^verbatim>\<open>publishRelease\<close> throws, the out-parameter is taken to be unassigned: it throws from \<^verbatim>\<open>BEGIN\<close>,
  before the assignment, or from a \<^verbatim>\<open>ROLLBACK\<close> that fails itself.
\<close>

definition publishGrayscale ::
  "'s config_store \<Rightarrow> (string list \<Rightarrow> string result) \<Rightarrow> string \<Rightarrow> string \<Rightarrow> string \<Rightarrow> string \<Rightarrow> int \<Rightarrow>
   string list \<Rightarrow> Release \<Rightarrow> ('s, bool \<times> Release) io" where
  "publishGrayscale S dump now namespaceId releaseNote operatorId percentage whitelist outRelease =
     thenE (cs_beginTransaction S)
       (bindE (attemptE (cs_publishRelease S now namespaceId releaseNote operatorId outRelease))
         (\<lambda>published.
            case published of
              Inl _ \<Rightarrow> thenE (cs_rollbackTransaction S) (ret (False, outRelease))
            | Inr (_, r) \<Rightarrow>
                (let r1 = r\<lparr>rel_release_type := ''grayscale'',
                       rel_grayscale_percentage := Some percentage\<rparr>
                 in case (if whitelist \<noteq> [] then map_sum id (\<lambda>d. r1\<lparr>rel_whitelist := Some d\<rparr>) (dump whitelist)
                          else Inr r1) of
                      Inl _ \<Rightarrow> thenE (cs_rollbackTransaction S) (ret (False, r1))
                    | Inr r2 \<Rightarrow>
                        catchE (thenE (cs_commitTransaction S) (ret (True, r2)))
                          (thenE (cs_rollbackTransaction S) (ret (False, r2))))))"

definition fullRollout :: "'s config_store \<Rightarrow> string \<Rightarrow> string \<Rightarrow> string \<Rightarrow> int \<Rightarrow> ('s, bool) io" where
  "fullRollout S now namespaceId operatorId releaseId =
     bindE (cs_getRelease S releaseId) (\<lambda>release.
       case release of
         None \<Rightarrow> ret False
       | Some r \<Rightarrow>
           if rel_status r \<noteq> ''active'' then ret False
           else thenE (cs_retireRelease S releaseId)
             (let newRelease = default_Release\<lparr>rel_namespace_id := namespaceId,
                    rel_release_note := ''Full rollout of release '' @ to_string releaseId,
                    rel_release_type := ''full'', rel_status := ''active'',
                    rel_operator_id := operatorId\<rparr>
              in bindE (cs_createRelease S now newRelease) (\<lambda>(ok, _). ret ok)))"

definition getReleaseHistory :: "'s config_store \<Rightarrow> string \<Rightarrow> int \<Rightarrow> int \<Rightarrow> ('s, Release list) io" where
  "getReleaseHistory S namespaceId page pageSize =
     cs_getReleases S \<lparr>rq_namespace_id = namespaceId, rq_page = page, rq_page_size = pageSize\<rparr>"

subsection \<open>Grayscale rules\<close>

definition evaluateClientMatch ::
  "(string \<Rightarrow> nat) \<Rightarrow> string \<Rightarrow> string \<Rightarrow> int \<Rightarrow> string list \<Rightarrow> bool" where
  "evaluateClientMatch hash instanceId ipAddress grayscalePercentage whitelist =
     (if (\<exists>w\<in>set whitelist. w = instanceId \<or> w = ipAddress) then True
      else if grayscalePercentage \<ge> 100 then True
      else if grayscalePercentage \<le> 0 then False
      else let bucket = int (hash (instanceId @ ipAddress) mod 100)
           in bucket < grayscalePercentage)"


text \<open>When every one of \<open>N\<close> buckets holds \<open>k\<close> elements, the first \<open>p\<close> hold \<open>p * k\<close>.\<close>

lemma count_buckets:
  fixes f :: "'c \<Rightarrow> nat"
  assumes "\<forall>b<N. length (filter (\<lambda>x. f x = b) xs) = k" and "p \<le> N"
  shows "length (filter (\<lambda>x. f x < p) xs) = p * k"
  using assms(2)
proof (induction p)
  case (Suc p)
  have "length (filter (\<lambda>x. f x < Suc p) xs) =
      length (filter (\<lambda>x. f x < p) xs) + length (filter (\<lambda>x. f x = p) xs)"
    by (induction xs) (auto simp: less_Suc_eq)
  with Suc assms(1) show ?case by simp
qed simp

lemma match_bucket:
  assumes "0 \<le> p" and "p \<le> 100" and "i \<notin> set wl" and "ip \<notin> set wl"
  shows "evaluateClientMatch hash i ip p wl \<longleftrightarrow> hash (i @ ip) mod 100 < nat p"
  using assms by (auto simp: evaluateClientMatch_def Let_def)


section \<open>Draft editing on the contract\<close>

context reliable_config_store
begin

lemma createConfig_run:
  assumes "inv s"
  obtains t where "cs_createConfig S now n k v op s = (Inr (cfgs s (n, k) = None), t)" and "inv t"
    and "cfgs t = (case cfgs s (n, k) of None \<Rightarrow> (cfgs s)((n, k) \<mapsto> fresh_config now n k v)
                   | Some _ \<Rightarrow> cfgs s)"
proof -
  from createConfig_total [OF assms] obtain t where
    t: "cs_createConfig S now n k v op s = (Inr (cfgs s (n, k) = None), t)" by blast
  with createConfig [OF assms t] show thesis
    by (intro that [of t]) (auto split: option.split if_splits)
qed

lemma updateConfig_run:
  assumes "inv s" and "cfgs s (n, k) = Some c"
  obtains t where "cs_updateConfig S now n k v op d s = (Inr True, t)" and "inv t"
    and "cfgs t = (cfgs s)((n, k) \<mapsto> edited_config now v d c)"
proof -
  from updateConfig_total [OF assms(1)] obtain b t where
    t: "cs_updateConfig S now n k v op d s = (Inr b, t)" by blast
  with updateConfig [OF assms(1) t] assms(2) show thesis
    by (intro that [of t]) auto
qed

lemma addDraftChange_run:
  assumes "inv s"
  shows "\<exists>t. addDraftChange S now n k v op s =
      (Inr (case cfgs s (n, k) of None \<Rightarrow> True | Some c \<Rightarrow> ck_status c \<noteq> ''draft''), t) \<and> inv t \<and>
    cfgs t = (case cfgs s (n, k) of
        None \<Rightarrow> (cfgs s)((n, k) \<mapsto> fresh_config now n k v)
      | Some c \<Rightarrow> if ck_status c = ''draft'' then cfgs s
                  else (cfgs s)((n, k) \<mapsto> edited_config now v True c))"
proof (cases "visible False (cfgs s (n, k))")
  case None
  obtain t where t: "cs_createConfig S now n k v op s = (Inr (cfgs s (n, k) = None), t)" "inv t"
      "cfgs t = (case cfgs s (n, k) of None \<Rightarrow> (cfgs s)((n, k) \<mapsto> fresh_config now n k v)
                 | Some _ \<Rightarrow> cfgs s)"
    using createConfig_run [OF assms] by blast
  from None have "case cfgs s (n, k) of None \<Rightarrow> True | Some c \<Rightarrow> ck_status c = ''draft''"
    by (auto simp: visible_def split: option.splits if_splits)
  with None t show ?thesis
    by (intro exI [of _ t])
      (auto simp: addDraftChange_def bindE_def getConfig_run [OF assms] split: option.splits)
next
  case (Some c)
  then have c: "cfgs s (n, k) = Some c" "ck_status c \<noteq> ''draft''" by (auto simp: visible_eq_Some)
  obtain t where "cs_updateConfig S now n k v op True s = (Inr True, t)" "inv t"
      "cfgs t = (cfgs s)((n, k) \<mapsto> edited_config now v True c)"
    using updateConfig_run [OF assms c(1)] by blast
  with Some c show ?thesis
    by (intro exI [of _ t]) (simp add: addDraftChange_def bindE_def getConfig_run [OF assms])
qed

lemma publish_run:
  assumes "inv s"
  obtains r t where "publish S now n nt op out s = (Inr (True, r), t)" and "inv t"
    and "cfgs t = published n (cfgs s)"
proof -
  from publishRelease_total [OF assms] obtain r t where
    t: "cs_publishRelease S now n nt op out s = (Inr (True, r), t)" by blast
  with publishRelease [OF assms t] show thesis
    by (intro that [of r t]) (auto simp: publish_def)
qed

end


section \<open>Grayscale publishing on the SQLite store\<close>

context sqlite_engine
begin

text \<open>
  The transaction opened by \<^verbatim>\<open>publishGrayscale\<close> makes the \<^verbatim>\<open>BEGIN\<close> of \<^verbatim>\<open>publishRelease\<close> fail, the
  exception is caught and everything is rolled back.
\<close>

lemma publishGrayscale_nested:
  assumes "publishGrayscale (sqlite_store E) dump now n nt op p wl out s = (Inr (b, r), t)"
  shows "\<not> b \<and> t = s \<and> r = out"
proof -
  from assms obtain x u where u: "orm_begin E s = (Inr x, u)"
    by (auto simp: publishGrayscale_def beginTransaction_def thenE_Inr)
  with begin_ok [OF u] have idle: "snapshot s = None"
    and su: "snapshot u = Some (tabs s)" "u = s\<lparr>snapshot := Some (tabs s)\<rparr>" by auto
  from publishRelease_nested [OF su(1)] obtain e where
    "publishRelease E now n nt op out u = (Inl e, u)" by blast
  with assms u have "thenE (rollbackTransaction E) (ret (False, out)) u = (Inr (b, r), t)"
    by (auto simp: publishGrayscale_def beginTransaction_def thenE_def bindE_def ret_def attemptE_def)
  with rollback_total [OF su(1)] idle su(2) show ?thesis
    by (auto simp: rollbackTransaction_def thenE_def bindE_def ret_def)
qed

lemma listClusters_effect:
  assumes "store_inv s" and "listClusters (sqlite_store E) a env s = (Inr cs, t)"
  shows "cs = (if \<exists>n\<in>ran (ns_map s). ns_app_id n = a \<and> ns_env n = env \<and> ns_cluster n = [] then [[]]
               else [''default''])"
proof -
  from assms(2) obtain xs where xs: "cs_listNamespaces (sqlite_store E) a env [] s = (Inr xs, t)"
    and cs: "cs = (if collect_clusters [] xs = [] then [''default''] else collect_clusters [] xs)"
    by (auto simp: listClusters_def bindE_Inr Let_def)
  let ?found = "{n \<in> ran (ns_map s). ns_app_id n = a \<and> ns_env n = env \<and> ns_cluster n = []}"
  from store.listNamespaces [OF assms(1) xs] have "set xs = ?found" by simp
  then have "set (collect_clusters [] xs) = (if ?found = {} then {} else {[]})"
    by (auto simp: collect_clusters_set)
  with collect_clusters_distinct [of "[]" xs]
  have "collect_clusters [] xs = (if ?found = {} then [] else [[]])"
    using distinct_singleton_set [of "collect_clusters [] xs" "[]"] by (auto split: if_splits)
  with cs show ?thesis by auto
qed

lemma fullRollout_effect:
  assumes "store_inv s" and "fullRollout (sqlite_store E) now n op i s = (Inr True, t)"
  shows "\<exists>r j. r \<in> set (releases (tabs s)) \<and> rel_id r = i \<and> rel_status r = ''active'' \<and>
    (\<forall>x\<in>set (releases (tabs s)). rel_id x < j) \<and>
    t = s\<lparr>tabs := (tabs s)\<lparr>releases :=
      map (\<lambda>r. if rel_id r = i then r\<lparr>rel_status := ''retired''\<rparr> else r) (releases (tabs s)) @
      [default_Release\<lparr>rel_id := j, rel_namespace_id := n,
        rel_release_note := ''Full rollout of release '' @ to_string i,
        rel_release_type := ''full'', rel_status := ''active'', rel_operator_id := op\<rparr>]\<rparr>\<rparr>"
proof -
  let ?new = "default_Release\<lparr>rel_namespace_id := n,
    rel_release_note := ''Full rollout of release '' @ to_string i,
    rel_release_type := ''full'', rel_status := ''active'', rel_operator_id := op\<rparr>"
  from assms(2) obtain ro u where ro: "getRelease E i s = (Inr ro, u)"
    by (auto simp: fullRollout_def bindE_Inr)
  with assms(2) obtain r where get: "getRelease E i s = (Inr (Some r), u)"
    and act: "rel_status r = ''active''"
    and rest: "thenE (retireRelease E i)
      (bindE (createRelease E ?new) (\<lambda>(ok, _). ret ok)) u = (Inr True, t)"
    by (cases ro) (auto simp: fullRollout_def bindE_run ret_def Let_def split: if_splits)
  from rest obtain b v rv where ret: "retireRelease E i u = (Inr b, v)"
    and new: "createRelease E ?new v = (Inr (True, rv), t)"
    by (auto simp: thenE_Inr bindE_Inr ret_def)
  from getRelease_effect [OF assms(1) get] have u: "u = s"
    and r: "r \<in> set (releases (tabs s))" "rel_id r = i"
    by (auto dest!: sym [of "Some r"] key_map_SomeD)
  from retireRelease_effect [OF ret] u have v: "v = s\<lparr>tabs := (tabs s)\<lparr>releases :=
      map (\<lambda>r. if rel_id r = i then r\<lparr>rel_status := ''retired''\<rparr> else r) (releases (tabs s))\<rparr>\<rparr>"
    by simp
  from createRelease_effect [OF new] obtain j where
    j: "\<forall>x\<in>set (releases (tabs v)). rel_id x < j"
    and t: "t = v\<lparr>tabs := (tabs v)\<lparr>releases := releases (tabs v) @ [?new\<lparr>rel_id := j\<rparr>]\<rparr>\<rparr>" by auto
  have "rel_id x < j" if x: "x \<in> set (releases (tabs s))" for x
  proof -
    from x v have "(if rel_id x = i then x\<lparr>rel_status := ''retired''\<rparr> else x) \<in> set (releases (tabs v))"
      by simp
    with j have "rel_id (if rel_id x = i then x\<lparr>rel_status := ''retired''\<rparr> else x) < j" by blast
    then show ?thesis by (simp split: if_splits)
  qed
  with r act v t show ?thesis
    by (intro exI [of _ r] exI [of _ j]) (simp add: default_Release_def)
qed

end

context reliable_engine
begin

lemma store_contract: "reliable_config_store (sqlite_store E) store_inv app_map ns_map cfg_map"
  by (rule store.reliable_config_store_axioms)

end


section \<open>Example states\<close>

text \<open>An application with a shared namespace, a namespace below it, and one that is its own parent.\<close>

definition demo_namespace :: "string \<Rightarrow> string option \<Rightarrow> Namespace" where
  "demo_namespace i p = default_Namespace\<lparr>ns_id := i, ns_app_id := ''a'', ns_cluster := ''default'',
     ns_parent_namespace_id := p\<rparr>"

definition demo3 :: storage where
  "demo3 =
     snd (createNamespace mem_orm (demo_namespace ''loop'' (Some ''loop''))
       (snd (createNamespace mem_orm (demo_namespace ''child'' (Some ''base''))
         (snd (createNamespace mem_orm (demo_namespace ''base'' None)
           (snd (createApplication mem_orm \<lparr>app_app_id = ''a'', app_name = ''A'', app_description = None,
              app_created_at = ''t0''\<rparr> init_storage)))))))"

definition demo4 :: storage where
  "demo4 = snd (createNamespace mem_orm (demo_namespace ''child'' (Some ''base''))
     (snd (createNamespace mem_orm (demo_namespace ''base'' None)
       (snd (createApplication mem_orm \<lparr>app_app_id = ''a'', app_name = ''A'', app_description = None,
          app_created_at = ''t0''\<rparr> init_storage)))))"

lemma demo_spaces:
  "namespaces (tabs demo3) = [demo_namespace ''base'' None, demo_namespace ''child'' (Some ''base''),
     demo_namespace ''loop'' (Some ''loop'')]"
  "namespaces (tabs demo4) = [demo_namespace ''base'' None, demo_namespace ''child'' (Some ''base'')]"
  "configs (tabs demo3) = []" "configs (tabs demo4) = []"
  by code_simp+

lemma demo_invs: "store_inv demo3" "store_inv demo4"
  by code_simp+


section \<open>Properties of the namespace manager and the publish engine\<close>

text \<open>
  C14. When the parent links have no cycle, \<^verbatim>\<open>resolveConfig\<close> returns: it visits the namespace, its
  parent and so on, and yields the first published config found on that path, or nothing. In general it
  recurses without end exactly when the parents stay for ever among namespaces that do not publish the
  key, such as a namespace that is its own parent.
\<close>

theorem resolve_first_visible:
  assumes "reliable_engine E" and "store_inv s"
  shows "(acyclic (parent_rel (ns_map s)) \<longrightarrow> (\<exists>xs. lineage (ns_map s) n xs \<and>
      resolveConfig (sqlite_store E) n k s = Some (Inr (first_visible (cfg_map s) k xs), s))) \<and>
    (resolveConfig (sqlite_store E) n k s = None \<longleftrightarrow> (\<exists>X. n \<in> X \<and>
      (\<forall>m\<in>X. visible False (cfg_map s (m, k)) = None \<and> (\<exists>p\<in>X. (p, m) \<in> parent_rel (ns_map s)))))"
proof -
  note store = reliable_engine.store_contract [OF assms(1)]
  have "finite (dom (ns_map s))" by (simp add: ns_map_def finite_dom_key_map)
  from lineage_exists [OF this] reliable_config_store.resolveConfig_lineage [OF store _ assms(2)]
  have "acyclic (parent_rel (ns_map s)) \<longrightarrow> (\<exists>xs. lineage (ns_map s) n xs \<and>
      resolveConfig (sqlite_store E) n k s = Some (Inr (first_visible (cfg_map s) k xs), s))" by blast
  with reliable_config_store.resolveConfig_diverges [OF store assms(2)] show ?thesis by blast
qed

theorem resolve_first_visible_witness:
  "(\<exists>xs. lineage (ns_map demo4) ''child'' xs \<and>
     resolveConfig (sqlite_store mem_orm) ''child'' ''k'' demo4 =
       Some (Inr (first_visible (cfg_map demo4) ''k'' xs), demo4)) \<and>
   resolveConfig (sqlite_store mem_orm) ''loop'' ''k'' demo3 = None"
proof
  have "parent_rel (ns_map demo4) \<subseteq> {(''base'', ''child'')}"
    by (auto simp: parent_rel_def ns_map_def demo_spaces demo_namespace_def default_Namespace_def
        split: if_splits)
  moreover have "acyclic {(''base'' :: string, ''child'' :: string)}" by (auto simp: acyclic_def trancl_insert)
  ultimately have "acyclic (parent_rel (ns_map demo4))" by (rule acyclic_subset [rotated])
  with resolve_first_visible [OF mem.reliable_engine_axioms demo_invs(2)]
  show "\<exists>xs. lineage (ns_map demo4) ''child'' xs \<and>
     resolveConfig (sqlite_store mem_orm) ''child'' ''k'' demo4 =
       Some (Inr (first_visible (cfg_map demo4) ''k'' xs), demo4)" by blast
  have "visible False (cfg_map demo3 (''loop'', ''k'')) = None" "(''loop'', ''loop'') \<in> parent_rel (ns_map demo3)"
    by (simp_all add: parent_rel_def ns_map_def cfg_map_def demo_spaces demo_namespace_def default_Namespace_def)
  with resolve_first_visible [OF mem.reliable_engine_axioms demo_invs(1), of "''loop''" "''k''"]
  show "resolveConfig (sqlite_store mem_orm) ''loop'' ''k'' demo3 = None" by blast
qed

text \<open>
  \<^verbatim>\<open>listClusters\<close> never lists a named cluster: it asks for namespaces whose cluster is the empty
  string, so its answer is the one name \<^verbatim>\<open>default\<close>, or the empty name when a namespace has it.
\<close>

lemma listClusters_never_named:
  assumes "sqlite_engine E" and "store_inv s" and "listClusters (sqlite_store E) a env s = (Inr cs, t)"
  shows "cs \<in> {[''default''], [[]]}"
  using sqlite_engine.listClusters_effect [OF assms] by simp

text \<open>
  C17. While a key has an unpublished draft, a further edit through \<^verbatim>\<open>addDraftChange\<close> is lost: the
  call returns false and no config changes, because the draft is invisible to the existence check and
  the insertion then meets the primary key.
\<close>

theorem second_draft_edit_lost:
  assumes "reliable_engine E" and "store_inv s" and "cfg_map s (n, k) = Some c"
    and "ck_status c = ''draft''"
  shows "\<exists>t. addDraftChange (sqlite_store E) now n k v op s = (Inr False, t) \<and> cfg_map t = cfg_map s"
  using reliable_config_store.addDraftChange_run [OF reliable_engine.store_contract [OF assms(1)] assms(2), of now n k v op]
    assms(3,4) by auto

theorem second_draft_edit_lost_witness:
  "\<exists>t. addDraftChange (sqlite_store mem_orm) ''t9'' ''ns'' ''k'' ''v9'' ''eve'' demo1 = (Inr False, t) \<and>
     cfg_map t = cfg_map demo1"
proof -
  have "configs (tabs demo1) = [fresh_config ''t1'' ''ns'' ''k'' ''v1'']" by code_simp
  then have "cfg_map demo1 (''ns'', ''k'') = Some (fresh_config ''t1'' ''ns'' ''k'' ''v1'')"
    by (simp add: cfg_map_def)
  from second_draft_edit_lost [OF mem.reliable_engine_axioms demo1_inv this] show ?thesis by simp
qed

text \<open>
  C18. \<^verbatim>\<open>publishGrayscale\<close> never publishes on the SQLite store: the inner \<^verbatim>\<open>publishRelease\<close> cannot open
  a second transaction, so a call that returns says false, hands back the release it was given and
  leaves the database as it was.
\<close>

theorem grayscale_never_publishes:
  assumes "sqlite_engine E"
    and "publishGrayscale (sqlite_store E) dump now n nt op p wl out s = (Inr (b, r), t)"
  shows "\<not> b \<and> t = s \<and> r = out"
  using sqlite_engine.publishGrayscale_nested [OF assms] .

theorem grayscale_never_publishes_witness:
  "snd (publishGrayscale (sqlite_store mem_orm) (\<lambda>_. Inr []) ''t3'' ''ns'' [] ''bob'' 50 [] default_Release demo2)
   = demo2"
proof -
  let ?m = "publishGrayscale (sqlite_store mem_orm) (\<lambda>_. Inr []) ''t3'' ''ns'' [] ''bob'' 50 [] default_Release demo2"
  have "fst ?m = Inr (False, default_Release)" by code_simp
  from grayscale_never_publishes [OF mem.sqlite_engine_axioms run_pair [OF this]] show ?thesis by simp
qed

text \<open>
  C19. A full rollout that succeeds needs an active release with the given identifier: it marks that
  release (and no other) retired and appends an active release of type full for the namespace the
  caller names, with release number 0 and no creation time.
\<close>

theorem full_rollout_effect:
  assumes "sqlite_engine E" and "store_inv s"
    and "fullRollout (sqlite_store E) now n op i s = (Inr True, t)"
  shows "\<exists>r j. r \<in> set (releases (tabs s)) \<and> rel_id r = i \<and> rel_status r = ''active'' \<and>
    (\<forall>x\<in>set (releases (tabs s)). rel_id x < j) \<and>
    t = s\<lparr>tabs := (tabs s)\<lparr>releases :=
      map (\<lambda>r. if rel_id r = i then r\<lparr>rel_status := ''retired''\<rparr> else r) (releases (tabs s)) @
      [default_Release\<lparr>rel_id := j, rel_namespace_id := n,
        rel_release_note := ''Full rollout of release '' @ to_string i,
        rel_release_type := ''full'', rel_status := ''active'', rel_operator_id := op\<rparr>]\<rparr>\<rparr>"
  using sqlite_engine.fullRollout_effect [OF assms] .

theorem full_rollout_effect_witness:
  "map rel_status (releases (tabs (snd (fullRollout (sqlite_store mem_orm) ''t4'' ''ns'' ''bob'' 1
     (snd (publishRelease mem_orm ''t3'' ''ns'' ''first'' ''bob'' default_Release demo2)))))) =
   [''retired'', ''active'']"
proof -
  let ?s = "snd (publishRelease mem_orm ''t3'' ''ns'' ''first'' ''bob'' default_Release demo2)"
  have p: "fst (publishRelease mem_orm ''t3'' ''ns'' ''first'' ''bob'' default_Release demo2) =
      Inr (True, release_row 1 ''t3'' ''ns'' 1 ''first'' ''bob'')" by code_simp
  have rels: "releases (tabs ?s) = [release_row 1 ''t3'' ''ns'' 1 ''first'' ''bob'']" by code_simp
  have f: "fst (fullRollout (sqlite_store mem_orm) ''t4'' ''ns'' ''bob'' 1 ?s) = Inr True" by code_simp
  have inv: "store_inv ?s" using mem.publishRelease_inv [OF demo2_inv run_pair [OF p]] .
  from full_rollout_effect [OF mem.sqlite_engine_axioms inv run_pair [OF f]] show ?thesis
    by (auto simp: rels release_row_def)
qed

text \<open>
  C20. Grayscale matching: a whitelisted instance or address always matches, and raising the percentage
  or extending the whitelist never drops a client. Over clients outside the whitelist whose hashes fall
  equally often into each of the 100 buckets, a percentage \<open>p\<close> from 0 to 100 selects exactly \<open>p\<close> in a
  hundred, none at 0 and all at 100.
\<close>

theorem client_match_share:
  assumes "\<forall>c\<in>set cs. fst c \<notin> set wl \<and> snd c \<notin> set wl"
    and "\<forall>b<100. length (filter (\<lambda>c. hash (fst c @ snd c) mod 100 = b) cs) = k"
    and "0 \<le> p" and "p \<le> 100"
  shows "length (filter (\<lambda>c. evaluateClientMatch hash (fst c) (snd c) p wl) cs) = nat p * k \<and>
    (i \<in> set wl \<or> ip \<in> set wl \<longrightarrow> evaluateClientMatch hash i ip x wl) \<and>
    (evaluateClientMatch hash i ip x wl \<and> x \<le> y \<and> set wl \<subseteq> set wl' \<longrightarrow>
       evaluateClientMatch hash i ip y wl')"
proof -
  have "filter (\<lambda>c. evaluateClientMatch hash (fst c) (snd c) p wl) cs =
      filter (\<lambda>c. hash (fst c @ snd c) mod 100 < nat p) cs"
    using assms(1) match_bucket [OF assms(3,4)] by (intro filter_cong) auto
  with count_buckets [OF assms(2), of "nat p"] assms(4) show ?thesis
    by (auto simp: evaluateClientMatch_def Let_def)
qed

theorem client_match_share_witness:
  "length (filter (\<lambda>c. evaluateClientMatch length (fst c) (snd c) 20 [''i7''])
      (map (\<lambda>n. (replicate n (CHR ''a''), [])) [0..<100])) = 20 \<and>
   evaluateClientMatch length ''i7'' ''10.0.0.1'' 0 [''i7'']"
proof -
  let ?cs = "map (\<lambda>n. (replicate n (CHR ''a''), [])) [0..<100]"
  have no: "replicate n (CHR ''a'') \<noteq> ''i7''" for n by (cases n) auto
  have "length (filter (\<lambda>c. length (fst c @ snd c) mod 100 = b) ?cs) = 1" if "b < 100" for b
  proof -
    have "length (filter (\<lambda>c. length (fst c @ snd c) mod 100 = b) ?cs) = length (filter (\<lambda>n. n mod 100 = b) [0..<100])"
      by (simp add: filter_map comp_def del: upt_Suc)
    also have "\<dots> = card ({n. n mod 100 = b} \<inter> set [0..<100])" by (rule distinct_length_filter) simp
    also have "{n. n mod 100 = b} \<inter> set [0..<100] = {b}" using that by auto
    finally show ?thesis by simp
  qed
  with no show ?thesis
    using client_match_share [of ?cs "[''i7'']" length 1 20 "''i7''" "''10.0.0.1''" 0 0 "[''i7'']"]
    by (auto simp del: upt_Suc)
qed

end
