(* ===== verification/Notification_Channel.thy ===== *)
theory Notification_Channel
  imports Prelude
begin

text \<open>
  \<^verbatim>\<open>NotificationChannel\<close> (\<^verbatim>\<open>src/subscription/notification_channel.cpp\<close>). The record \<open>channel\<close> has
  the three containers of the class; every operation runs under the one mutex, so it is a function
  on that record. Callbacks are computations on a world \<open>'w\<close> of their own (they may throw): a
  callback that calls the channel back would lock the non-recursive mutex twice and is outside the
  model. \<^verbatim>\<open>waitForNotification\<close> gives up the mutex while it waits: \<open>wait_for\<close> takes the list of what
  the other threads do to the channel between two evaluations of the predicate, the last entry
  being followed by the evaluation at the timeout. The relation \<open>channel_step\<close> interleaves the
  publications, scans, waits and wake-ups of any number of threads.
\<close>


section \<open>Data\<close>

record Notification =
  nt_namespaceId :: string
  nt_releaseId :: int
  nt_changedKeys :: "string list"
  nt_timestamp :: int

type_synonym 'w callback = "Notification \<Rightarrow> ('w, unit) io"

record 'w channel =
  ch_subscribers :: "string \<rightharpoonup> 'w callback list"
  ch_history :: "string \<rightharpoonup> Notification list"
  ch_pending :: "Notification list"

definition default_Notification :: Notification where
  "default_Notification = \<lparr>nt_namespaceId = [], nt_releaseId = 0, nt_changedKeys = [], nt_timestamp = 0\<rparr>"

definition empty_channel :: "'w channel" where
  "empty_channel = \<lparr>ch_subscribers = Map.empty, ch_history = Map.empty, ch_pending = []\<rparr>"

text \<open>\<^verbatim>\<open>std::map::operator[]\<close> on a map to vectors: an absent key holds the empty vector.\<close>

definition entry :: "(string \<rightharpoonup> 'a list) \<Rightarrow> string \<Rightarrow> 'a list" where
  "entry m k = (case m k of None \<Rightarrow> [] | Some xs \<Rightarrow> xs)"


section \<open>Operations\<close>

definition subscribe :: "string \<Rightarrow> 'w callback \<Rightarrow> 'w channel \<Rightarrow> 'w channel" where
  "subscribe namespaceId cb ch =
     ch\<lparr>ch_subscribers := (ch_subscribers ch)(namespaceId \<mapsto> entry (ch_subscribers ch) namespaceId @ [cb])\<rparr>"

definition unsubscribe :: "string \<Rightarrow> 'w channel \<Rightarrow> 'w channel" where
  "unsubscribe namespaceId ch = ch\<lparr>ch_subscribers := (ch_subscribers ch)(namespaceId := None)\<rparr>"

fun call_all :: "'w callback list \<Rightarrow> Notification \<Rightarrow> ('w, unit) io" where
  "call_all [] notification = ret ()"
| "call_all (cb # cbs) notification = thenE (cb notification) (call_all cbs notification)"

definition channel_publish :: "Notification \<Rightarrow> ('w channel \<times> 'w, unit) io" where
  "channel_publish notification = (\<lambda>(ch, w).
     let ch1 = ch\<lparr>ch_history := (ch_history ch)(nt_namespaceId notification \<mapsto>
                   entry (ch_history ch) (nt_namespaceId notification) @ [notification])\<rparr>
     in case (case ch_subscribers ch1 (nt_namespaceId notification) of
                None \<Rightarrow> (Inr (), w)
              | Some cbs \<Rightarrow> call_all cbs notification w) of
          (Inl e, w') \<Rightarrow> (Inl e, (ch1, w'))
        | (Inr _, w') \<Rightarrow> (Inr (), (ch1\<lparr>ch_pending := ch_pending ch1 @ [notification]\<rparr>, w')))"

text \<open>The loop over \<^verbatim>\<open>pending_\<close>: copy out and erase the first notification of the namespace.\<close>

fun take_pending :: "string \<Rightarrow> Notification list \<Rightarrow> (Notification \<times> Notification list) option" where
  "take_pending namespaceId [] = None"
| "take_pending namespaceId (n # ns) =
     (if nt_namespaceId n = namespaceId then Some (n, ns)
      else case take_pending namespaceId ns of
             None \<Rightarrow> None
           | Some (m, ms) \<Rightarrow> Some (m, n # ms))"

definition scan_pending ::
  "string \<Rightarrow> Notification \<Rightarrow> 'w channel \<Rightarrow> (bool \<times> Notification) \<times> 'w channel" where
  "scan_pending namespaceId outNotification ch =
     (case take_pending namespaceId (ch_pending ch) of
        None \<Rightarrow> ((False, outNotification), ch)
      | Some (n, rest) \<Rightarrow> ((True, n), ch\<lparr>ch_pending := rest\<rparr>))"

text \<open>\<^verbatim>\<open>cv_.wait_for(lock, timeout, predicate)\<close>.\<close>

fun wait_for ::
  "('w channel \<Rightarrow> 'w channel) list \<Rightarrow> string \<Rightarrow> Notification \<Rightarrow> 'w channel \<Rightarrow>
   (bool \<times> Notification) \<times> 'w channel" where
  "wait_for [] namespaceId out ch = scan_pending namespaceId out ch"
| "wait_for (others # later) namespaceId out ch =
     (case scan_pending namespaceId out ch of
        ((True, n), ch') \<Rightarrow> ((True, n), ch')
      | ((False, n), ch') \<Rightarrow> wait_for later namespaceId n (others ch'))"

definition waitForNotification ::
  "('w channel \<Rightarrow> 'w channel) list \<Rightarrow> string \<Rightarrow> Notification \<Rightarrow> 'w channel \<Rightarrow>
   (bool \<times> Notification) \<times> 'w channel" where
  "waitForNotification wakeups namespaceId outNotification ch =
     (case take_pending namespaceId (ch_pending ch) of
        Some (n, rest) \<Rightarrow> ((True, n), ch\<lparr>ch_pending := rest\<rparr>)
      | None \<Rightarrow> wait_for wakeups namespaceId outNotification ch)"

definition getMissedNotifications :: "string \<Rightarrow> int \<Rightarrow> 'w channel \<Rightarrow> Notification list" where
  "getMissedNotifications namespaceId lastReleaseId ch =
     (case ch_history ch namespaceId of
        None \<Rightarrow> []
      | Some ns \<Rightarrow> filter (\<lambda>n. nt_releaseId n > lastReleaseId) ns)"


section \<open>Threads\<close>

text \<open>
  The channel with its clients: \<open>waiting\<close> maps a thread blocked in \<^verbatim>\<open>waitForNotification\<close> to the
  namespace it waits for, \<open>delivered\<close> logs what the calls returned, in order, and \<open>dropped\<close> counts
  the publications in which a callback threw.
\<close>

record 'w channel_system =
  sys_channel :: "'w channel"
  sys_world :: 'w
  waiting :: "nat \<rightharpoonup> string"
  delivered :: "(nat \<times> Notification) list"
  dropped :: nat

definition of_namespace :: "string \<Rightarrow> Notification list \<Rightarrow> Notification list" where
  "of_namespace n xs = filter (\<lambda>x. nt_namespaceId x = n) xs"

definition delivered_to :: "string \<Rightarrow> 'w channel_system \<Rightarrow> Notification list" where
  "delivered_to n y = of_namespace n (map snd (delivered y))"

inductive channel_step :: "'w channel_system \<Rightarrow> 'w channel_system \<Rightarrow> bool" where
  subscribes:
    "channel_step y (y\<lparr>sys_channel := subscribe n cb (sys_channel y)\<rparr>)"
| unsubscribes:
    "channel_step y (y\<lparr>sys_channel := unsubscribe n (sys_channel y)\<rparr>)"
| publishes:
    "channel_publish nt (sys_channel y, sys_world y) = (Inr (), (ch, w)) \<Longrightarrow>
     channel_step y (y\<lparr>sys_channel := ch, sys_world := w\<rparr>)"
| publish_throws:
    "channel_publish nt (sys_channel y, sys_world y) = (Inl e, (ch, w)) \<Longrightarrow>
     channel_step y (y\<lparr>sys_channel := ch, sys_world := w, dropped := Suc (dropped y)\<rparr>)"
| takes:
    "waiting y i = None \<Longrightarrow> scan_pending n out (sys_channel y) = ((True, nt), ch) \<Longrightarrow>
     channel_step y (y\<lparr>sys_channel := ch, delivered := delivered y @ [(i, nt)]\<rparr>)"
| blocks:
    "waiting y i = None \<Longrightarrow> scan_pending n out (sys_channel y) = ((False, nt), ch) \<Longrightarrow>
     channel_step y (y\<lparr>sys_channel := ch, waiting := (waiting y)(i \<mapsto> n)\<rparr>)"
| wakes:
    "waiting y i = Some n \<Longrightarrow> scan_pending n out (sys_channel y) = ((True, nt), ch) \<Longrightarrow>
     channel_step y (y\<lparr>sys_channel := ch, waiting := (waiting y)(i := None),
       delivered := delivered y @ [(i, nt)]\<rparr>)"
| times_out:
    "waiting y i = Some n \<Longrightarrow> scan_pending n out (sys_channel y) = ((False, nt), ch) \<Longrightarrow>
     channel_step y (y\<lparr>sys_channel := ch, waiting := (waiting y)(i := None)\<rparr>)"

definition initial_system :: "'w \<Rightarrow> 'w channel_system" where
  "initial_system w = \<lparr>sys_channel = empty_channel, sys_world = w, waiting = Map.empty,
     delivered = [], dropped = 0\<rparr>"

inductive channel_run :: "'w channel_system \<Rightarrow> bool" where
  starts: "channel_run (initial_system w)"
| steps: "channel_run y \<Longrightarrow> channel_step y z \<Longrightarrow> channel_run z"


section \<open>Scanning\<close>

lemma entry_upd [simp]: "entry (m(k \<mapsto> xs)) i = (if i = k then xs else entry m i)"
  by (simp add: entry_def)

lemma of_namespace_simps [simp]:
  "of_namespace n [] = []"
  "of_namespace n (xs @ ys) = of_namespace n xs @ of_namespace n ys"
  "of_namespace n (x # xs) = (if nt_namespaceId x = n then x # of_namespace n xs else of_namespace n xs)"
  by (simp_all add: of_namespace_def)

lemma take_pending_None: "take_pending n p = None \<longleftrightarrow> of_namespace n p = []"
  by (induction p) (auto split: option.splits)

lemma take_pending_Some:
  "take_pending n p = Some (x, q) \<Longrightarrow>
   of_namespace n p = x # of_namespace n q \<and> nt_namespaceId x = n \<and>
   (\<forall>m. m \<noteq> n \<longrightarrow> of_namespace m q = of_namespace m p) \<and> mset p = add_mset x (mset q)"
  by (induction p arbitrary: q) (auto split: if_splits option.splits)

lemma scan_pending_True:
  "scan_pending n out ch = ((True, x), ch') \<longleftrightarrow>
     (\<exists>q. take_pending n (ch_pending ch) = Some (x, q) \<and> ch' = ch\<lparr>ch_pending := q\<rparr>)"
  by (auto simp: scan_pending_def split: option.splits)

lemma scan_pending_False:
  "scan_pending n out ch = ((False, x), ch') \<longleftrightarrow>
     of_namespace n (ch_pending ch) = [] \<and> x = out \<and> ch' = ch"
  by (auto simp: scan_pending_def take_pending_None [symmetric] split: option.splits)

lemma waitForNotification_eq: "waitForNotification gs n out ch = wait_for gs n out ch"
  by (cases gs) (auto simp: waitForNotification_def scan_pending_def split: option.splits)


section \<open>The delivery invariant\<close>

text \<open>
  Per namespace, what was handed to long-polling clients followed by what is still pending is what
  was published, in order, less the publications whose callbacks threw.
\<close>

definition in_order :: "'w channel_system \<Rightarrow> string \<Rightarrow> bool" where
  "in_order y n \<longleftrightarrow>
     subseq (delivered_to n y @ of_namespace n (ch_pending (sys_channel y)))
       (entry (ch_history (sys_channel y)) n) \<and>
     (dropped y = 0 \<longrightarrow>
       delivered_to n y @ of_namespace n (ch_pending (sys_channel y)) =
         entry (ch_history (sys_channel y)) n)"

lemma channel_publish_cases:
  assumes "channel_publish nt (ch, w) = (r, (ch', w'))"
  shows "ch_history ch' = (ch_history ch)(nt_namespaceId nt \<mapsto> entry (ch_history ch) (nt_namespaceId nt) @ [nt]) \<and>
    ch_subscribers ch' = ch_subscribers ch \<and>
    ch_pending ch' = (if isl r then ch_pending ch else ch_pending ch @ [nt])"
  using assms
  by (auto simp: channel_publish_def Let_def split: option.splits sum.splits prod.splits)

lemma in_order_take:
  assumes "in_order y n" and "take_pending m (ch_pending (sys_channel y)) = Some (x, q)"
    and "sys_channel z = (sys_channel y)\<lparr>ch_pending := q\<rparr>" and "delivered z = delivered y @ [(i, x)]"
    and "dropped z = dropped y"
  shows "in_order z n"
  using assms take_pending_Some [OF assms(2)]
  by (cases "n = m") (auto simp: in_order_def delivered_to_def)

lemma in_order_step:
  assumes "channel_step y z" and "in_order y n"
  shows "in_order z n"
  using assms(1)
proof cases
  case (publishes nt ch w)
  from channel_publish_cases [OF publishes(2)] assms(2) publishes(1) show ?thesis
    by (auto simp: in_order_def delivered_to_def list_emb_append_mono
        simp flip: append_assoc)
next
  case (publish_throws nt e ch w)
  from channel_publish_cases [OF publish_throws(2)] assms(2) publish_throws(1) show ?thesis
    by (auto simp: in_order_def delivered_to_def intro: subseq_rev_drop_many)
next
  case (takes i m out nt ch)
  then show ?thesis
    using in_order_take [OF assms(2)] by (auto simp: scan_pending_True)
next
  case (wakes i m out nt ch)
  then show ?thesis
    using in_order_take [OF assms(2)] by (auto simp: scan_pending_True)
qed (use assms(2) in \<open>auto simp: in_order_def delivered_to_def subscribe_def unsubscribe_def
  scan_pending_False\<close>)

lemma in_order_run: "channel_run y \<Longrightarrow> in_order y n"
proof (induction rule: channel_run.induct)
  case (starts w)
  show ?case
    by (simp add: in_order_def delivered_to_def initial_system_def empty_channel_def entry_def)
next
  case (steps y z)
  show ?case by (rule in_order_step [OF steps.hyps(2) steps.IH])
qed


section \<open>Callbacks, waiting and catching up\<close>

lemma call_all_total:
  assumes "\<forall>cb\<in>set cbs. \<forall>w. \<exists>w'. cb nt w = (Inr (), w')"
  shows "\<exists>w'. call_all cbs nt w = (Inr (), w')"
  using assms
proof (induction cbs arbitrary: w)
  case (Cons cb cbs)
  from Cons.prems obtain w1 where "cb nt w = (Inr (), w1)" by fastforce
  with Cons.IH [of w1] Cons.prems show ?case by (simp add: thenE_def bindE_def)
qed (simp add: ret_def)

text \<open>A logging callback shows which callbacks ran and in which order.\<close>

lemma call_all_log:
  "call_all (map (\<lambda>i nt w. (Inr (), w @ [(i, nt)])) is) nt w = (Inr (), w @ map (\<lambda>i. (i, nt)) is)"
  by (induction "is" arbitrary: w) (simp_all add: ret_def thenE_def bindE_def)

text \<open>The states in which the waiting thread evaluates its predicate.\<close>

fun seen_by_waiter :: "('w channel \<Rightarrow> 'w channel) list \<Rightarrow> 'w channel \<Rightarrow> 'w channel list" where
  "seen_by_waiter [] ch = [ch]"
| "seen_by_waiter (g # gs) ch = ch # seen_by_waiter gs (g ch)"

lemma wait_for_False:
  "wait_for gs n out ch = ((False, x), ch') \<Longrightarrow>
   x = out \<and> ch' = last (seen_by_waiter gs ch) \<and>
   (\<forall>c\<in>set (seen_by_waiter gs ch). of_namespace n (ch_pending c) = [])"
proof (induction gs arbitrary: ch)
  case Nil
  then show ?case by (auto simp: scan_pending_False)
next
  case (Cons g gs)
  from Cons.prems have step: "scan_pending n out ch = ((False, out), ch)"
    and rest: "wait_for gs n out (g ch) = ((False, x), ch')"
    by (auto simp: scan_pending_def split: option.splits)
  have "seen_by_waiter gs (g ch) \<noteq> []" by (cases gs) auto
  with Cons.IH [OF rest] step show ?case by (auto simp: scan_pending_False)
qed

lemma wait_for_True:
  "wait_for gs n out ch = ((True, x), ch') \<Longrightarrow>
   \<exists>c\<in>set (seen_by_waiter gs ch). take_pending n (ch_pending c) = Some (x, ch_pending ch')"
proof (induction gs arbitrary: ch out)
  case Nil
  then show ?case by (auto simp: scan_pending_True)
next
  case (Cons g gs)
  then show ?case
    by (cases "take_pending n (ch_pending ch)") (auto simp: scan_pending_def)
qed

lemma filter_after:
  assumes "sorted_wrt (\<lambda>a b. f a < (f b :: int)) xs" and "i < length xs"
  shows "filter (\<lambda>x. f x > f (xs ! i)) xs = drop (Suc i) xs"
proof -
  have split: "xs = take (Suc i) xs @ drop (Suc i) xs" by simp
  have "\<forall>x\<in>set (take (Suc i) xs). \<not> f x > f (xs ! i)"
  proof
    fix x assume "x \<in> set (take (Suc i) xs)"
    then obtain j where "x = xs ! j" "j \<le> i" by (auto simp: in_set_conv_nth less_Suc_eq_le)
    with sorted_wrt_nth_less [OF assms(1), of j i] assms(2) show "\<not> f x > f (xs ! i)"
      by (cases "j = i") auto
  qed
  moreover have "\<forall>x\<in>set (drop (Suc i) xs). f x > f (xs ! i)"
  proof
    fix x assume "x \<in> set (drop (Suc i) xs)"
    then obtain j where "x = xs ! (Suc i + j)" "Suc i + j < length xs"
      by (auto simp: in_set_conv_nth)
    with sorted_wrt_nth_less [OF assms(1), of i "Suc i + j"] show "f x > f (xs ! i)" by simp
  qed
  ultimately have "filter (\<lambda>x. f x > f (xs ! i)) (take (Suc i) xs @ drop (Suc i) xs) = drop (Suc i) xs"
    by (simp only: filter_append filter_False filter_True append_Nil)
  with split show ?thesis by simp
qed


section \<open>Properties of the channel\<close>


definition demo_note :: "int \<Rightarrow> Notification" where
  "demo_note i = default_Notification\<lparr>nt_namespaceId := ''ns'', nt_releaseId := i\<rparr>"

definition demo_channel :: "unit channel" where
  "demo_channel = \<lparr>ch_subscribers = Map.empty, ch_history = [''ns'' \<mapsto> [demo_note 1]], ch_pending = [demo_note 1]\<rparr>"




text \<open>
  C23. Catching up: when the releases of a namespace were announced in increasing order, a client
  whose last seen release is the \<open>i\<close>-th one gets exactly the later announcements, in order.
\<close>

theorem catch_up_complete:
  assumes "ch_history ch n = Some ns" and "sorted_wrt (\<lambda>a b. nt_releaseId a < nt_releaseId b) ns"
    and "i < length ns"
  shows "getMissedNotifications n (nt_releaseId (ns ! i)) ch = drop (Suc i) ns"
  using filter_after [OF assms(2,3)] assms(1) by (simp add: getMissedNotifications_def)

theorem catch_up_complete_witness:
  "getMissedNotifications ''ns'' 1 (demo_channel\<lparr>ch_history := [''ns'' \<mapsto> map demo_note [1, 2, 3]]\<rparr>) =
   map demo_note [2, 3]"
  using catch_up_complete [of "demo_channel\<lparr>ch_history := [''ns'' \<mapsto> map demo_note [1, 2, 3]]\<rparr>" "''ns''"
      "map demo_note [1, 2, 3]" 0]
  by (simp add: demo_note_def)

end
