(* ===== verification/Text_Fields.thy ===== *)
theory Text_Fields
  imports Cpp_Numbers
begin

text \<open>
  A self-delimiting text format for lists of strings. The instances of the laws assumed of the
  JWT and JSON libraries are written in it; no source file corresponds to it.
\<close>

definition put_field :: "string \<Rightarrow> string" where
  "put_field s = concat (map (\<lambda>c. [CHR ''x'', c]) s) @ ''.''"

fun get_field :: "string \<Rightarrow> (string \<times> string) option" where
  "get_field (x # c # r) =
     (if x = CHR ''x'' then map_option (\<lambda>(s, t). (c # s, t)) (get_field r)
      else if x = CHR ''.'' then Some ([], c # r) else None)"
| "get_field [x] = (if x = CHR ''.'' then Some ([], []) else None)"
| "get_field [] = None"

lemma get_put_field [simp]: "get_field (put_field s @ t) = Some (s, t)"
proof (induction s)
  case Nil
  show ?case by (cases t) (simp_all add: put_field_def)
qed (simp add: put_field_def)

fun get_fields :: "nat \<Rightarrow> string \<Rightarrow> string list option" where
  "get_fields 0 t = (if t = [] then Some [] else None)"
| "get_fields (Suc n) t =
     (case get_field t of None \<Rightarrow> None | Some (s, u) \<Rightarrow> map_option ((#) s) (get_fields n u))"

lemma get_put_fields: "get_fields (length ss) (concat (map put_field ss)) = Some ss"
  by (induction ss) simp_all

lemma get_field_shorter: "get_field t = Some (s, u) \<Longrightarrow> length u < length t"
  by (induction t arbitrary: s rule: get_field.induct) (auto split: if_splits)

function all_fields :: "string \<Rightarrow> string list option" where
  "all_fields t =
     (if t = [] then Some []
      else case get_field t of None \<Rightarrow> None | Some (s, u) \<Rightarrow> map_option ((#) s) (all_fields u))"
  by auto
termination by (relation "measure length") (auto dest: get_field_shorter)

declare all_fields.simps [simp del]

lemma put_field_nonempty [simp]: "put_field s \<noteq> []"
  by (simp add: put_field_def)

lemma all_put_fields [simp]: "all_fields (concat (map put_field ss)) = Some ss"
  by (induction ss) (simp_all add: all_fields.simps [of "[]"] all_fields.simps [of "put_field s @ t" for s t])

end
