(* ===== verification/Auth.thy ===== *)
theory Auth
  imports Sqlite_Contract Text_Fields
begin

text \<open>
  \<^verbatim>\<open>src/auth/auth_types.cpp\<close>: \<^verbatim>\<open>JwtManager\<close>, \<^verbatim>\<open>UserManager\<close> and \<^verbatim>\<open>AuthMiddleware\<close>. The jwt-cpp library
  is the record \<open>jwt_lib\<close> with the laws of the locale \<open>jwt_library\<close>, SHA-256 (OpenSSL) is the
  parameter \<open>sha256\<close> from strings to lists of bytes. Times are nanoseconds since the epoch; jwt-cpp
  stores dates as whole seconds. The laws of \<open>jwt_library\<close> are instantiated by \<open>ref_jwt\<close>, a token
  format without cryptography; the laws of \<open>user_store\<close> by the SQLite store.
\<close>


section \<open>The JWT library\<close>

record jwt_claims =
  jc_issuer :: string
  jc_subject :: string
  jc_role :: string
  jc_issued_at :: int
  jc_expires_at :: int

record 'd jwt_lib =
  jl_sign :: "string \<Rightarrow> jwt_claims \<Rightarrow> string result"
  jl_decode :: "string \<Rightarrow> 'd result"
  jl_verify :: "string \<Rightarrow> string \<Rightarrow> int \<Rightarrow> 'd \<Rightarrow> unit result"
  jl_get_subject :: "'d \<Rightarrow> string result"
  jl_get_claim :: "string \<Rightarrow> 'd \<Rightarrow> string result"
  jl_get_expires_at :: "'d \<Rightarrow> int result"

definition whole_seconds :: "int \<Rightarrow> int" where
  "whole_seconds t = t div 1000000000 * 1000000000"


section \<open>JwtManager\<close>

text \<open>
  \<^verbatim>\<open>std::chrono\<close> counts nanoseconds in 64 bits: an expiry beyond them has no defined value.
\<close>

definition nanos :: "int \<Rightarrow> bool" where
  "nanos t \<longleftrightarrow> - (2 ^ 63) \<le> t \<and> t < 2 ^ 63"

definition generateToken ::
  "'d jwt_lib \<Rightarrow> string \<Rightarrow> int \<Rightarrow> int \<Rightarrow> string \<Rightarrow> string \<Rightarrow> string result" where
  "generateToken J secret expiryHours now username role =
     (if \<not> nanos (expiryHours * 3600000000000) \<or> \<not> nanos (now + expiryHours * 3600000000000)
      then Inl Undefined
      else jl_sign J secret \<lparr>jc_issuer = ''config-center'', jc_subject = username, jc_role = role,
        jc_issued_at = now, jc_expires_at = now + expiryHours * 3600000000000\<rparr>)"

text \<open>
  The out-parameters are returned with the verdict: \<^verbatim>\<open>username\<close> is already assigned when reading
  the role throws.
\<close>

definition validateToken ::
  "'d jwt_lib \<Rightarrow> string \<Rightarrow> int \<Rightarrow> string \<Rightarrow> string \<Rightarrow> string \<Rightarrow> bool \<times> string \<times> string" where
  "validateToken J secret now token username role =
     (case jl_decode J token of
        Inl _ \<Rightarrow> (False, username, role)
      | Inr decoded \<Rightarrow>
          (case jl_verify J secret ''config-center'' now decoded of
             Inl _ \<Rightarrow> (False, username, role)
           | Inr _ \<Rightarrow>
               (case jl_get_subject J decoded of
                  Inl _ \<Rightarrow> (False, username, role)
                | Inr u \<Rightarrow>
                    (case jl_get_claim J ''role'' decoded of
                       Inl _ \<Rightarrow> (False, u, role)
                     | Inr r \<Rightarrow> (True, u, r)))))"

definition isExpired :: "'d jwt_lib \<Rightarrow> int \<Rightarrow> string \<Rightarrow> bool" where
  "isExpired J now token =
     (case jl_decode J token of
        Inl _ \<Rightarrow> True
      | Inr decoded \<Rightarrow>
          (case jl_get_expires_at J decoded of
             Inl _ \<Rightarrow> True
           | Inr expiry \<Rightarrow> now > expiry))"


section \<open>UserManager\<close>

definition hashPassword :: "(string \<Rightarrow> nat list) \<Rightarrow> string \<Rightarrow> string" where
  "hashPassword sha256 password = concat (map hex_byte (sha256 (''config-center-salt'' @ password)))"

definition verifyPassword :: "(string \<Rightarrow> nat list) \<Rightarrow> string \<Rightarrow> string \<Rightarrow> bool" where
  "verifyPassword sha256 password hash \<longleftrightarrow> hashPassword sha256 password = hash"

definition um_createUser ::
  "'s config_store \<Rightarrow> (string \<Rightarrow> nat list) \<Rightarrow> string \<Rightarrow> string \<Rightarrow> string \<Rightarrow> string \<Rightarrow> ('s, bool) io" where
  "um_createUser S sha256 now username password role =
     cs_createUser S (default_User\<lparr>usr_username := username,
       usr_password_hash := hashPassword sha256 password, usr_role := role, usr_created_at := now\<rparr>)"

definition authenticate ::
  "'s config_store \<Rightarrow> (string \<Rightarrow> nat list) \<Rightarrow> string \<Rightarrow> string \<Rightarrow> ('s, bool) io" where
  "authenticate S sha256 username password =
     bindE (cs_getUserByUsername S username) (\<lambda>user.
       case user of
         None \<Rightarrow> ret False
       | Some u \<Rightarrow> ret (verifyPassword sha256 password (usr_password_hash u)))"

definition um_listUsers :: string where
  "um_listUsers = []"


section \<open>AuthMiddleware\<close>

definition validateRequest ::
  "'d jwt_lib \<Rightarrow> string \<Rightarrow> int \<Rightarrow> string \<Rightarrow> string \<Rightarrow> string \<Rightarrow> bool \<times> string \<times> string" where
  "validateRequest J secret now authHeader username role =
     (if authHeader = [] then (False, username, role)
      else if length authHeader < length ''Bearer '' then (False, username, role)
      else if take (length ''Bearer '') authHeader \<noteq> ''Bearer '' then (False, username, role)
      else validateToken J secret now (drop (length ''Bearer '') authHeader) username role)"

definition hasPermission :: "string \<Rightarrow> string \<Rightarrow> bool" where
  "hasPermission role requiredRole =
     (if role = ''admin'' then True
      else if role = ''operator'' \<and> requiredRole = ''viewer'' then True
      else if role = requiredRole then True
      else False)"


section \<open>Tokens\<close>

text \<open>
  What jwt-cpp documents: decoding gives back the signed claims, dates in whole seconds; the
  verifier accepts a token between its dates for its issuer and secret, and for no other.
\<close>

lemma generateToken_Inr:
  "generateToken J secret h t u r = Inr tok \<Longrightarrow>
   jl_sign J secret \<lparr>jc_issuer = ''config-center'', jc_subject = u, jc_role = r, jc_issued_at = t,
     jc_expires_at = t + h * 3600000000000\<rparr> = Inr tok"
  by (simp add: generateToken_def split: if_splits)

locale jwt_library =
  fixes J :: "'d jwt_lib"
  assumes decode_signed:
      "jl_sign J k c = Inr tok \<Longrightarrow> \<exists>d. jl_decode J tok = Inr d \<and>
         jl_get_subject J d = Inr (jc_subject c) \<and> jl_get_claim J ''role'' d = Inr (jc_role c) \<and>
         jl_get_expires_at J d = Inr (whole_seconds (jc_expires_at c))"
    and verify_signed:
      "jl_sign J k c = Inr tok \<Longrightarrow> jl_decode J tok = Inr d \<Longrightarrow>
         jl_verify J k' i now d = Inr () \<longleftrightarrow>
           k' = k \<and> i = jc_issuer c \<and>
           whole_seconds (jc_issued_at c) \<le> now \<and> now \<le> whole_seconds (jc_expires_at c)"
begin

lemma validate_generated:
  assumes "generateToken J secret h t u r = Inr tok"
  shows "validateToken J secret' now tok u0 r0 =
    (if secret' = secret \<and> whole_seconds t \<le> now \<and> now \<le> whole_seconds (t + h * 3600000000000)
     then (True, u, r) else (False, u0, r0))"
proof -
  note sign = generateToken_Inr [OF assms]
  from decode_signed [OF sign] obtain d where d: "jl_decode J tok = Inr d"
    "jl_get_subject J d = Inr u" "jl_get_claim J ''role'' d = Inr r" by auto
  from verify_signed [OF sign d(1), of secret' "''config-center''" now] d show ?thesis
    by (cases "jl_verify J secret' ''config-center'' now d") (auto simp: validateToken_def)
qed

lemma isExpired_generated:
  assumes "generateToken J secret h t u r = Inr tok"
  shows "isExpired J now tok \<longleftrightarrow> now > whole_seconds (t + h * 3600000000000)"
proof -
  from decode_signed [OF generateToken_Inr [OF assms]] show ?thesis
    by (auto simp: isExpired_def)
qed

end

text \<open>A token format that satisfies the laws: the fields one after the other, each escaped.\<close>

definition ref_fields :: "string \<Rightarrow> jwt_claims \<Rightarrow> string list" where
  "ref_fields k c = [k, jc_issuer c, jc_subject c, jc_role c,
     to_string (whole_seconds (jc_issued_at c)), to_string (whole_seconds (jc_expires_at c))]"

definition ref_date :: "nat \<Rightarrow> string list \<Rightarrow> int result" where
  "ref_date i d = stoll (d ! i)"

definition ref_jwt :: "string list jwt_lib" where
  "ref_jwt = \<lparr>
     jl_sign = (\<lambda>k c.
       if (\<forall>t\<in>{jc_issued_at c, jc_expires_at c}. - (2 ^ 63) \<le> whole_seconds t \<and> whole_seconds t < 2 ^ 63)
       then Inr (concat (map put_field (ref_fields k c))) else Inl JwtError),
     jl_decode = (\<lambda>tok. case get_fields 6 tok of None \<Rightarrow> Inl JwtError | Some d \<Rightarrow> Inr d),
     jl_verify = (\<lambda>k i now d.
       case (ref_date 4 d, ref_date 5 d) of
         (Inr a, Inr b) \<Rightarrow> if d ! 0 = k \<and> d ! 1 = i \<and> a \<le> now \<and> now \<le> b then Inr () else Inl JwtError
       | _ \<Rightarrow> Inl JwtError),
     jl_get_subject = (\<lambda>d. Inr (d ! 2)),
     jl_get_claim = (\<lambda>n d. if n = ''role'' then Inr (d ! 3) else Inl JwtError),
     jl_get_expires_at = ref_date 5\<rparr>"

lemma stoll_to_string: "- (2 ^ 63) \<le> i \<Longrightarrow> i < 2 ^ 63 \<Longrightarrow> stoll (to_string i) = Inr i"
  unfolding stoll_def by (rule parse_to_string) simp_all

lemma ref_jwt_signed:
  assumes "jl_sign ref_jwt k c = Inr tok"
  shows "jl_decode ref_jwt tok = Inr (ref_fields k c) \<and>
    ref_date 4 (ref_fields k c) = Inr (whole_seconds (jc_issued_at c)) \<and>
    ref_date 5 (ref_fields k c) = Inr (whole_seconds (jc_expires_at c))"
  using assms get_put_fields [of "ref_fields k c"]
  by (auto simp: ref_jwt_def ref_date_def ref_fields_def stoll_to_string numeral_eq_Suc
      split: if_splits)

interpretation ref: jwt_library ref_jwt
proof
  fix k c tok assume "jl_sign ref_jwt k c = Inr tok"
  note s = ref_jwt_signed [OF this]
  then show "\<exists>d. jl_decode ref_jwt tok = Inr d \<and> jl_get_subject ref_jwt d = Inr (jc_subject c) \<and>
      jl_get_claim ref_jwt ''role'' d = Inr (jc_role c) \<and>
      jl_get_expires_at ref_jwt d = Inr (whole_seconds (jc_expires_at c))"
    by (intro exI [of _ "ref_fields k c"]) (simp add: ref_jwt_def ref_fields_def)
next
  fix k c tok d k' i now
  assume "jl_sign ref_jwt k c = Inr tok" and d: "jl_decode ref_jwt tok = Inr d"
  note s = ref_jwt_signed [OF this(1)]
  with d have "d = ref_fields k c" by simp
  with s show "jl_verify ref_jwt k' i now d = Inr () \<longleftrightarrow> k' = k \<and> i = jc_issuer c \<and>
      whole_seconds (jc_issued_at c) \<le> now \<and> now \<le> whole_seconds (jc_expires_at c)"
    by (auto simp: ref_jwt_def ref_fields_def)
qed


section \<open>Users\<close>

text \<open>What \<^verbatim>\<open>UserManager\<close> relies on: users by name, never overwritten.\<close>

locale user_store =
  fixes S :: "'s config_store" and inv :: "'s \<Rightarrow> bool" and usrs :: "'s \<Rightarrow> string \<rightharpoonup> User"
  assumes createUser:
      "inv s \<Longrightarrow> cs_createUser S u s = (Inr b, t) \<Longrightarrow> inv t \<and>
         (if b then usrs s (usr_username u) = None \<and>
                    (\<exists>i. usrs t = (usrs s)(usr_username u \<mapsto> u\<lparr>usr_id := i\<rparr>))
          else usrs t = usrs s)"
    and getUserByUsername:
      "inv s \<Longrightarrow> cs_getUserByUsername S n s = (Inr ru, t) \<Longrightarrow> t = s \<and> ru = usrs s n"
begin

lemma authenticate_eq:
  assumes "inv s" and "authenticate S sha n p s = (Inr b, t)"
  shows "t = s \<and> b = (\<exists>u. usrs s n = Some u \<and> hashPassword sha p = usr_password_hash u)"
proof -
  from assms(2) obtain ru where "cs_getUserByUsername S n s = (Inr ru, t)"
    and "b = (case ru of None \<Rightarrow> False | Some u \<Rightarrow> verifyPassword sha p (usr_password_hash u))"
    by (auto simp: authenticate_def bindE_Inr split: option.splits)
  with getUserByUsername [OF assms(1)] show ?thesis
    by (auto simp: verifyPassword_def split: option.splits)
qed

lemma createUser_authenticate:
  assumes "inv s" and "um_createUser S sha now n p r s = (Inr True, t)"
    and "authenticate S sha m q t = (Inr b, u)"
  shows "b = (if m = n then hashPassword sha q = hashPassword sha p
    else (\<exists>x. usrs s m = Some x \<and> hashPassword sha q = usr_password_hash x))"
proof -
  from createUser [OF assms(1) assms(2) [unfolded um_createUser_def]] obtain x where
    "inv t" and x: "usrs t = (usrs s)(n \<mapsto> x)" "usr_password_hash x = hashPassword sha p"
    by (auto simp: default_User_def)
  from authenticate_eq [OF \<open>inv t\<close> assms(3)] x show ?thesis by simp
qed

end

definition user_map :: "storage \<Rightarrow> string \<rightharpoonup> User" where
  "user_map s = key_map usr_username (users (tabs s))"

sublocale sqlite_engine \<subseteq> accounts: user_store "sqlite_store E" store_inv user_map
proof
  fix s u b t assume inv: "store_inv s" and "cs_createUser (sqlite_store E) u s = (Inr b, t)"
  then have c: "createUser E u s = (Inr b, t)" by simp
  show "store_inv t \<and> (if b then user_map s (usr_username u) = None \<and>
      (\<exists>i. user_map t = (user_map s)(usr_username u \<mapsto> u\<lparr>usr_id := i\<rparr>)) else user_map t = user_map s)"
  proof (cases b)
    case True
    with createUser_effect [OF c] obtain i where
      fresh: "\<forall>x\<in>set (users (tabs s)). usr_username x \<noteq> usr_username (u\<lparr>usr_id := i\<rparr>)"
      and t: "t = s\<lparr>tabs := (tabs s)\<lparr>users := users (tabs s) @ [u\<lparr>usr_id := i\<rparr>]\<rparr>\<rparr>" by auto
    from key_map_snoc [OF fresh] t
    have "user_map t = (user_map s)(usr_username u \<mapsto> u\<lparr>usr_id := i\<rparr>)" by (simp add: user_map_def)
    moreover from fresh have "user_map s (usr_username u) = None" by (simp add: user_map_def key_map_None)
    ultimately show ?thesis using True createUser_inv [OF inv c] by auto
  next
    case False
    with createUser_effect [OF c] inv show ?thesis by auto
  qed
next
  fix s n ru t assume "store_inv s" and "cs_getUserByUsername (sqlite_store E) n s = (Inr ru, t)"
  with getUserByUsername_effect [of s n ru t] show "t = s \<and> ru = user_map s n"
    by (simp add: user_map_def)
qed


context sqlite_engine
begin

lemma user_contract: "user_store (sqlite_store E) store_inv user_map"
  by (rule accounts.user_store_axioms)

end


section \<open>Properties of authentication\<close>

definition role_rank :: "string \<Rightarrow> nat" where
  "role_rank r = (if r = ''admin'' then 2 else if r = ''operator'' then 1 else 0)"

lemma permission_order:
  "r \<in> {''viewer'', ''operator'', ''admin''} \<Longrightarrow> q \<in> {''viewer'', ''operator'', ''admin''} \<Longrightarrow>
   hasPermission r q \<longleftrightarrow> role_rank q \<le> role_rank r"
  "hasPermission a a" "hasPermission a b \<Longrightarrow> hasPermission b c \<Longrightarrow> hasPermission a c"
  by (auto simp: hasPermission_def role_rank_def split: if_splits)

text \<open>The two sides of an authenticated request.\<close>

lemma bearer_round_trip:
  assumes "jwt_library J" and "generateToken J secret h t u r = Inr tok"
  shows "validateRequest J secret' now (''Bearer '' @ tok) u0 r0 =
    (if secret' = secret \<and> whole_seconds t \<le> now \<and> now \<le> whole_seconds (t + h * 3600000000000)
     then (True, u, r) else (False, u0, r0))"
  using jwt_library.validate_generated [OF assms] by (auto simp: validateRequest_def)

text \<open>
  C26. After a user has been created, authentication under that name succeeds exactly for passwords
  with the same hash as the one given, and authentication under any other name is what it was before.
\<close>

theorem created_user_authenticates:
  assumes "sqlite_engine E" and "store_inv s"
    and "um_createUser (sqlite_store E) sha now n p r s = (Inr True, t)"
    and "authenticate (sqlite_store E) sha m q t = (Inr b, u)"
  shows "b = (if m = n then hashPassword sha q = hashPassword sha p
    else (\<exists>x. user_map s m = Some x \<and> hashPassword sha q = usr_password_hash x))"
  using user_store.createUser_authenticate [OF sqlite_engine.user_contract [OF assms(1)] assms(2-4)] .

theorem created_user_authenticates_witness:
  "fst (authenticate (sqlite_store mem_orm) (map of_char) ''ann'' ''pw''
     (snd (um_createUser (sqlite_store mem_orm) (map of_char) ''t1'' ''ann'' ''pw'' ''viewer'' init_storage))) = Inr True"
proof -
  let ?c = "um_createUser (sqlite_store mem_orm) (map of_char) ''t1'' ''ann'' ''pw'' ''viewer'' init_storage"
  have c: "fst ?c = Inr True" by code_simp
  have a: "fst (authenticate (sqlite_store mem_orm) (map of_char) ''ann'' ''pw'' (snd ?c)) = Inr True"
    by code_simp
  from created_user_authenticates [OF mem.sqlite_engine_axioms store_inv_init run_pair [OF c] run_pair [OF a]] a
  show ?thesis by simp
qed

text \<open>
  The stored form of a password hash does not determine the digest: bytes are written in
  hexadecimal without padding, so two different 32-byte digests have the same text.
\<close>

lemma hash_text_ambiguous:
  "\<exists>a b. a \<noteq> b \<and> length a = 32 \<and> length b = 32 \<and> (\<forall>x\<in>set a \<union> set b. x < 256) \<and>
     hashPassword (\<lambda>_. a) p = hashPassword (\<lambda>_. b) p"
  by (intro exI [of _ "[1, 35] @ replicate 30 0"] exI [of _ "[18, 3] @ replicate 30 0"])
    (simp add: hashPassword_def hex_byte_def hex_digit_def)

end
