(* ===== verification/Api_Handlers.thy ===== *)
theory Api_Handlers
  imports Publish_Engine
begin

text \<open>
  The JSON responses and the handler classes of \<^verbatim>\<open>src/api\<close> (\<^verbatim>\<open>ApiResponse\<close>, \<^verbatim>\<open>ConfigHandler\<close>,
  \<^verbatim>\<open>NamespaceHandler\<close>, \<^verbatim>\<open>PublishHandler\<close>, \<^verbatim>\<open>HealthHandler\<close>, \<^verbatim>\<open>AuthHandler\<close>,
  \<^verbatim>\<open>NotificationHandler\<close>). The nlohmann JSON library is the record \<open>json_lib\<close> over its value type
  \<open>'j\<close>; the laws the proofs use of it are the locale \<open>json_library\<close>, instantiated on a datatype of
  JSON values. Every manager of an \<^verbatim>\<open>ApiContext\<close> shares the one store, so handlers take the store.
\<close>


section \<open>The JSON library\<close>

text \<open>
  \<open>j_dump2\<close> is \<^verbatim>\<open>dump(2)\<close>, \<open>j_object\<close> and \<open>j_array\<close> are the initializer-list constructors, \<open>j_set\<close> is assignment through
  \<^verbatim>\<open>operator[]\<close>, \<open>j_at\<close> and \<open>j_at_const\<close> read through the non-const and the const \<^verbatim>\<open>operator[]\<close> (the
  latter has no defined result on a missing key), \<open>j_string\<close> is \<^verbatim>\<open>get<std::string>\<close>, and
  \<open>j_value\<close> is \<^verbatim>\<open>value(key, default)\<close> at a string default. \<open>j_items\<close> iterates over an object.
\<close>

record 'j json_lib =
  j_parse :: "string \<Rightarrow> 'j result"
  j_dump :: "'j \<Rightarrow> string result"
  j_dump2 :: "'j \<Rightarrow> string result"
  j_null :: 'j
  j_str :: "string \<Rightarrow> 'j"
  j_int :: "int \<Rightarrow> 'j"
  j_bool :: "bool \<Rightarrow> 'j"
  j_object :: "(string \<times> 'j) list \<Rightarrow> 'j"
  j_array :: "'j list \<Rightarrow> 'j"
  j_set :: "'j \<Rightarrow> string \<Rightarrow> 'j \<Rightarrow> 'j"
  j_contains :: "'j \<Rightarrow> string \<Rightarrow> bool"
  j_at :: "'j \<Rightarrow> string \<Rightarrow> 'j result"
  j_at_const :: "'j \<Rightarrow> string \<Rightarrow> 'j result"
  j_string :: "'j \<Rightarrow> string result"
  j_value :: "'j \<Rightarrow> string \<Rightarrow> string \<Rightarrow> string result"
  j_items :: "'j \<Rightarrow> (string \<times> 'j) list result"

definition lift :: "'a result \<Rightarrow> ('s, 'a) io" where
  "lift r s = (r, s)"

lemma lift_eq [simp]: "lift r s = (x, t) \<longleftrightarrow> x = r \<and> t = s"
  by (auto simp: lift_def)

lemma bindE_lift [simp]: "bindE (lift (Inr x)) f = f x" "bindE (lift (Inl e)) f = raise e"
  by (rule ext, simp add: bindE_def lift_def raise_def)+

definition api_error :: "'j json_lib \<Rightarrow> int \<Rightarrow> string \<Rightarrow> 'j" where
  "api_error J code message = j_object J [(''error'', j_str J message), (''code'', j_int J code)]"

definition api_success_data :: "'j \<Rightarrow> 'j" where
  "api_success_data data = data"

definition api_success :: "'j json_lib \<Rightarrow> 'j" where
  "api_success J = j_object J [(''status'', j_str J ''ok'')]"

text \<open>Reading a string member through the const and the non-const \<^verbatim>\<open>operator[]\<close>.\<close>

definition string_at :: "'j json_lib \<Rightarrow> 'j \<Rightarrow> string \<Rightarrow> ('s, string) io" where
  "string_at J body k = bindE (lift (j_at J body k)) (\<lambda>v. lift (j_string J v))"

definition string_at_const :: "'j json_lib \<Rightarrow> 'j \<Rightarrow> string \<Rightarrow> ('s, string) io" where
  "string_at_const J body k = bindE (lift (j_at_const J body k)) (\<lambda>v. lift (j_string J v))"


section \<open>Config handlers\<close>

definition ConfigHandler_handleGetConfig ::
  "'j json_lib \<Rightarrow> 's config_store \<Rightarrow> string \<Rightarrow> string \<Rightarrow> ('s, 'j) io" where
  "ConfigHandler_handleGetConfig J S namespaceId key =
     bindE (cs_getConfig S namespaceId key False) (\<lambda>config.
       case config of
         None \<Rightarrow> ret (api_error J 404 ''Config not found'')
       | Some c \<Rightarrow> ret (j_object J [(''key'', j_str J (ck_key c)), (''value'', j_str J (ck_value c)),
           (''version'', j_int J (ck_version c))]))"

text \<open>The statements after the value is read, shared with the HTTP session.\<close>

definition set_draft ::
  "'j json_lib \<Rightarrow> 's config_store \<Rightarrow> string \<Rightarrow> string \<Rightarrow> string \<Rightarrow> string \<Rightarrow> string \<Rightarrow> ('s, 'j) io" where
  "set_draft J S now namespaceId key value operatorId =
     bindE (cs_getConfig S namespaceId key False) (\<lambda>existing.
       thenE (if existing \<noteq> None then cs_updateConfig S now namespaceId key value operatorId True
              else cs_createConfig S now namespaceId key value operatorId)
         (ret (api_success J)))"

definition ConfigHandler_handleSetConfig ::
  "'j json_lib \<Rightarrow> 's config_store \<Rightarrow> string \<Rightarrow> string \<Rightarrow> string \<Rightarrow> 'j \<Rightarrow> string \<Rightarrow> ('s, 'j) io" where
  "ConfigHandler_handleSetConfig J S now namespaceId key body operatorId =
     bindE (lift (j_value J body ''value'' [])) (\<lambda>value.
       set_draft J S now namespaceId key value operatorId)"

definition ConfigHandler_handleDeleteConfig ::
  "'j json_lib \<Rightarrow> 's config_store \<Rightarrow> string \<Rightarrow> string \<Rightarrow> string \<Rightarrow> string \<Rightarrow> ('s, 'j) io" where
  "ConfigHandler_handleDeleteConfig J S now namespaceId key operatorId =
     thenE (cs_deleteConfig S now namespaceId key operatorId True) (ret (api_success J))"


section \<open>Application and namespace handlers\<close>

definition NamespaceHandler_handleCreateApp ::
  "'j json_lib \<Rightarrow> 's config_store \<Rightarrow> string \<Rightarrow> 'j \<Rightarrow> ('s, 'j) io" where
  "NamespaceHandler_handleCreateApp J S now body =
     (if \<not> j_contains J body ''app_id'' \<or> \<not> j_contains J body ''name''
      then ret (api_error J 400 ''Missing required fields: app_id, name'')
      else bindE (lift (j_at_const J body ''app_id'')) (\<lambda>ja.
        bindE (lift (j_at_const J body ''name'')) (\<lambda>jn.
        bindE (lift (j_string J ja)) (\<lambda>appId.
        bindE (lift (j_string J jn)) (\<lambda>name.
        bindE (if j_contains J body ''description''
               then bindE (string_at_const J body ''description'') (\<lambda>d. ret (Some d))
               else ret None) (\<lambda>description.
        bindE (registerApplication S now appId name description) (\<lambda>ok.
          if \<not> ok then ret (api_error J 409 ''Application already exists'')
          else ret (j_object J [(''app_id'', ja), (''name'', jn)]))))))))"

definition app_json :: "'j json_lib \<Rightarrow> Application \<Rightarrow> 'j" where
  "app_json J app =
     (let obj = j_object J [(''app_id'', j_str J (app_app_id app)), (''name'', j_str J (app_name app))];
          obj1 = (case app_description app of None \<Rightarrow> obj
                  | Some d \<Rightarrow> j_set J obj ''description'' (j_str J d))
      in j_set J obj1 ''created_at'' (j_str J (app_created_at app)))"

definition NamespaceHandler_handleListApps :: "'j json_lib \<Rightarrow> 's config_store \<Rightarrow> ('s, 'j) io" where
  "NamespaceHandler_handleListApps J S =
     bindE (nm_listApplications S) (\<lambda>apps.
       ret (j_object J [(''applications'', j_array J (map (app_json J) apps))]))"

definition NamespaceHandler_handleGetApp ::
  "'j json_lib \<Rightarrow> 's config_store \<Rightarrow> string \<Rightarrow> ('s, 'j) io" where
  "NamespaceHandler_handleGetApp J S appId =
     bindE (nm_getApplication S appId) (\<lambda>app.
       case app of
         None \<Rightarrow> ret (api_error J 404 ''Application not found'')
       | Some a \<Rightarrow>
           (let obj = j_object J [(''app_id'', j_str J (app_app_id a)), (''name'', j_str J (app_name a)),
                  (''created_at'', j_str J (app_created_at a))]
            in ret (case app_description a of None \<Rightarrow> obj
                    | Some d \<Rightarrow> j_set J obj ''description'' (j_str J d))))"

definition NamespaceHandler_handleDeleteApp ::
  "'j json_lib \<Rightarrow> 's config_store \<Rightarrow> string \<Rightarrow> ('s, 'j) io" where
  "NamespaceHandler_handleDeleteApp J S appId =
     thenE (removeApplication S appId) (ret (api_success J))"

text \<open>
  The body of \<^verbatim>\<open>handleCreateNamespace\<close>, with the member access as a parameter: the handler class
  reads a const body, the HTTP session a local one.
\<close>

definition create_namespace ::
  "'j json_lib \<Rightarrow> 's config_store \<Rightarrow> (string \<Rightarrow> ('s, string) io) \<Rightarrow> string \<Rightarrow> 'j \<Rightarrow> ('s, 'j) io" where
  "create_namespace J S field now body =
     bindE (field ''app_id'') (\<lambda>appId.
     bindE (field ''env'') (\<lambda>env.
     bindE (lift (j_value J body ''cluster'' ''default'')) (\<lambda>cluster.
     bindE (field ''name'') (\<lambda>name.
     bindE (lift (j_value J body ''type'' ''private'')) (\<lambda>type.
     bindE (if j_contains J body ''parent_namespace_id''
            then bindE (field ''parent_namespace_id'') (\<lambda>p. ret (Some p)) else ret None) (\<lambda>parent.
     bindE (nm_createNamespace S now appId env cluster name type parent) (\<lambda>ok.
       if \<not> ok then ret (api_error J 400 ''Failed to create namespace'')
       else ret (j_object J [(''id'',
         j_str J (appId @ ''/'' @ env @ ''/'' @ cluster @ ''/'' @ name))]))))))))"

definition NamespaceHandler_handleCreateNamespace ::
  "'j json_lib \<Rightarrow> 's config_store \<Rightarrow> string \<Rightarrow> 'j \<Rightarrow> ('s, 'j) io" where
  "NamespaceHandler_handleCreateNamespace J S now body =
     create_namespace J S (string_at_const J body) now body"

definition ns_json :: "'j json_lib \<Rightarrow> Namespace \<Rightarrow> 'j" where
  "ns_json J n =
     j_set J (j_set J (j_set J (j_set J (j_set J (j_set J (j_null J)
       ''id'' (j_str J (ns_id n))) ''app_id'' (j_str J (ns_app_id n))) ''env'' (j_str J (ns_env n)))
       ''cluster'' (j_str J (ns_cluster n))) ''name'' (j_str J (ns_name n)))
       ''type'' (j_str J (ns_type n))"

definition NamespaceHandler_handleListNamespaces ::
  "'j json_lib \<Rightarrow> 's config_store \<Rightarrow> string \<Rightarrow> ('s, 'j) io" where
  "NamespaceHandler_handleListNamespaces J S appId =
     bindE (cs_listNamespaces S appId [] []) (\<lambda>found.
       ret (j_object J [(''namespaces'', j_array J (map (\<lambda>n.
         case ns_parent_namespace_id n of None \<Rightarrow> ns_json J n
         | Some p \<Rightarrow> j_set J (ns_json J n) ''parent_namespace_id'' (j_str J p)) found))]))"


section \<open>Publish, health, login and long-poll handlers\<close>

definition PublishHandler_handlePublish ::
  "'j json_lib \<Rightarrow> 's config_store \<Rightarrow> string \<Rightarrow> string \<Rightarrow> 'j \<Rightarrow> string \<Rightarrow> ('s, 'j) io" where
  "PublishHandler_handlePublish J S now namespaceId body operatorId =
     bindE (lift (j_value J body ''release_note'' [])) (\<lambda>releaseNote.
     bindE (cs_publishRelease S now namespaceId releaseNote operatorId default_Release)
       (\<lambda>(ok, release).
         if \<not> ok then ret (api_error J 500 ''Publish failed'')
         else ret (j_object J [(''release_id'', j_int J (rel_id release)),
           (''release_version'', j_int J (rel_release_version release)),
           (''release_note'', j_str J (rel_release_note release)),
           (''created_at'', j_str J (rel_created_at release))])))"

definition release_fields :: "'j json_lib \<Rightarrow> Release \<Rightarrow> (string \<times> 'j) list" where
  "release_fields J r = [(''id'', j_int J (rel_id r)),
     (''release_version'', j_int J (rel_release_version r)),
     (''release_note'', j_str J (rel_release_note r)), (''release_type'', j_str J (rel_release_type r)),
     (''status'', j_str J (rel_status r)), (''operator_id'', j_str J (rel_operator_id r)),
     (''created_at'', j_str J (rel_created_at r))]"

definition PublishHandler_handleGetReleases ::
  "'j json_lib \<Rightarrow> 's config_store \<Rightarrow> string \<Rightarrow> ('s, 'j) io" where
  "PublishHandler_handleGetReleases J S namespaceId =
     bindE (cs_getReleases S (default_ReleaseQuery\<lparr>rq_namespace_id := namespaceId\<rparr>)) (\<lambda>rels.
       ret (j_object J [(''releases'', j_array J (map (\<lambda>r. j_object J (release_fields J r)) rels))]))"

definition HealthHandler_handleHealth :: "'j json_lib \<Rightarrow> 's config_store \<Rightarrow> ('s, 'j) io" where
  "HealthHandler_handleHealth J S =
     bindE (cs_healthCheck S) (\<lambda>up.
       ret (j_object J [(''status'', j_str J ''UP''), (''uptime_seconds'', j_int J 0),
         (''db_connected'', j_bool J up)]))"

definition AuthHandler_handleLogin :: "'j json_lib \<Rightarrow> string \<Rightarrow> string \<Rightarrow> 'j" where
  "AuthHandler_handleLogin J username password = api_error J 501 ''Auth not yet configured''"

definition NotificationHandler_handleLongPoll :: "'j json_lib \<Rightarrow> string \<Rightarrow> string \<Rightarrow> int \<Rightarrow> 'j" where
  "NotificationHandler_handleLongPoll J namespaceId lastReleaseId timeout =
     j_object J [(''namespace'', j_str J namespaceId), (''changed'', j_bool J False)]"


section \<open>Laws of the JSON library\<close>

text \<open>
  Assignment through \<^verbatim>\<open>operator[]\<close> turns null into an object and adds a member; a value with default
  is the member when it is there, and reading through either \<^verbatim>\<open>operator[]\<close> agrees on present keys.
\<close>

locale json_library =
  fixes J :: "'j json_lib"
  assumes set_null: "j_set J (j_null J) k v = j_object J [(k, v)]"
    and set_object: "k \<notin> fst ` set fs \<Longrightarrow> j_set J (j_object J fs) k v = j_object J (fs @ [(k, v)])"
    and at_const: "j_contains J b k \<Longrightarrow> j_at J b k = j_at_const J b k"
    and value_present:
      "j_contains J b k \<Longrightarrow> j_value J b k d = Inr str \<longleftrightarrow> (\<exists>x. j_at J b k = Inr x \<and> j_string J x = Inr str)"
begin

lemma string_at_const_eq: "j_contains J b k \<Longrightarrow> string_at_const J b k = string_at J b k"
  by (simp add: string_at_const_def string_at_def at_const)

lemma set_fields:
  "distinct (map fst (fs @ gs)) \<Longrightarrow>
   foldl (\<lambda>o1 (k, v). j_set J o1 k v) (j_object J fs) gs = j_object J (fs @ gs)"
proof (induction gs arbitrary: fs)
  case (Cons g gs)
  from Cons.prems have "fst g \<notin> fst ` set fs" by auto
  with Cons.IH [of "fs @ [g]"] Cons.prems show ?case
    by (cases g) (simp add: set_object)
qed simp

end


section \<open>JSON values\<close>

text \<open>An instance of the laws: JSON values with ordered members; the text format is a parameter.\<close>

datatype json_value =
    JNull
  | JBool bool
  | JInt int
  | JStr string
  | JArr "json_value list"
  | JObj "(string \<times> json_value) list"

fun obj_set :: "(string \<times> json_value) list \<Rightarrow> string \<Rightarrow> json_value \<Rightarrow> (string \<times> json_value) list" where
  "obj_set [] k v = [(k, v)]"
| "obj_set ((k', v') # fs) k v = (if k' = k then (k, v) # fs else (k', v') # obj_set fs k v)"

fun jv_at :: "json_value \<Rightarrow> string \<Rightarrow> json_value result" where
  "jv_at (JObj fs) k = (case map_of fs k of None \<Rightarrow> Inr JNull | Some v \<Rightarrow> Inr v)"
| "jv_at JNull k = Inr JNull"
| "jv_at _ k = Inl JsonError"

fun jv_string :: "json_value \<Rightarrow> string result" where
  "jv_string (JStr s) = Inr s"
| "jv_string _ = Inl JsonError"

definition ref_json :: "(string \<Rightarrow> json_value result) \<Rightarrow> (json_value \<Rightarrow> string result) \<Rightarrow> json_value json_lib" where
  "ref_json parse dump = \<lparr>
     j_parse = parse, j_dump = dump, j_dump2 = dump, j_null = JNull, j_str = JStr, j_int = JInt, j_bool = JBool,
     j_object = JObj, j_array = JArr,
     j_set = (\<lambda>j k v. case j of JObj fs \<Rightarrow> JObj (obj_set fs k v) | JNull \<Rightarrow> JObj [(k, v)] | _ \<Rightarrow> j),
     j_contains = (\<lambda>j k. case j of JObj fs \<Rightarrow> k \<in> fst ` set fs | _ \<Rightarrow> False),
     j_at = jv_at, j_at_const = jv_at, j_string = jv_string,
     j_value = (\<lambda>j k d. case j of
        JObj fs \<Rightarrow> (case map_of fs k of None \<Rightarrow> Inr d | Some v \<Rightarrow> jv_string v)
      | _ \<Rightarrow> Inl JsonError),
     j_items = (\<lambda>j. case j of JObj fs \<Rightarrow> Inr fs | JNull \<Rightarrow> Inr [] | _ \<Rightarrow> Inl JsonError)\<rparr>"

lemma obj_set_new: "k \<notin> fst ` set fs \<Longrightarrow> obj_set fs k v = fs @ [(k, v)]"
  by (induction fs k v rule: obj_set.induct) auto

interpretation jv: json_library "ref_json parse dump"
  by unfold_locales
    (auto simp: ref_json_def obj_set_new weak_map_of_SomeI split: json_value.splits option.splits
      dest: map_of_eq_None_iff [THEN iffD1])

end
