(* ===== verification/Http_Server.thy ===== *)
theory Http_Server
  imports Api_Handlers
begin

text \<open>
  \<^verbatim>\<open>HttpSession\<close> (\<^verbatim>\<open>src/server/http_server.cpp\<close>): the routing of a parsed request, the handlers, and
  the response. A request is its target, verb and body, a response its status, content type and body;
  the accept, read and write steps around it are in \<^verbatim>\<open>Server_Lifecycle\<close>. Exceptions of the handlers
  are not caught by \<^verbatim>\<open>handleRequest\<close>: they are the left values of its outcome and leave
  \<^verbatim>\<open>io_context::run\<close>, which ends the server process.
\<close>


section \<open>Requests and handlers\<close>

datatype verb = GetV | PostV | PutV | DeleteV | OtherV string

record http_request =
  req_target :: string
  req_method :: verb
  req_body :: string

record http_response =
  res_status :: nat
  res_content_type :: string
  res_body :: string

definition extractPathParam :: "string \<Rightarrow> string \<Rightarrow> string \<Rightarrow> string" where
  "extractPathParam url pref suff =
     (case str_find pref url of
        None \<Rightarrow> []
      | Some found \<Rightarrow>
          (let start = found + length pref
           in if suff = [] then drop start url
              else case str_find_from suff url start of
                     None \<Rightarrow> []
                   | Some finish \<Rightarrow> str_sub url start (finish - start)))"

definition http_handleHealth :: "'j json_lib \<Rightarrow> 's config_store \<Rightarrow> ('s, 'j) io" where
  "http_handleHealth J S =
     bindE (cs_healthCheck S) (\<lambda>up.
       ret (j_object J [(''status'', j_str J ''UP''), (''uptime_seconds'', j_int J 0),
         (''db_connected'', j_bool J up)]))"

definition http_handleLogin :: "'j json_lib \<Rightarrow> string \<Rightarrow> ('s, 'j) io" where
  "http_handleLogin J body =
     bindE (lift (j_parse J body)) (\<lambda>_. ret (api_error J 501 ''Not implemented''))"

definition http_handleCreateApp ::
  "'j json_lib \<Rightarrow> 's config_store \<Rightarrow> string \<Rightarrow> string \<Rightarrow> ('s, 'j) io" where
  "http_handleCreateApp J S now text =
     bindE (lift (j_parse J text)) (\<lambda>body.
       if \<not> j_contains J body ''app_id'' \<or> \<not> j_contains J body ''name''
       then ret (api_error J 400 ''Missing required fields: app_id, name'')
       else bindE (lift (j_at J body ''app_id'')) (\<lambda>ja.
         bindE (lift (j_at J body ''name'')) (\<lambda>jn.
         bindE (lift (j_string J ja)) (\<lambda>appId.
         bindE (lift (j_string J jn)) (\<lambda>name.
         bindE (if j_contains J body ''description''
                then bindE (string_at J body ''description'') (\<lambda>d. ret (Some d))
                else ret None) (\<lambda>description.
         bindE (registerApplication S now appId name description) (\<lambda>ok.
           if \<not> ok then ret (api_error J 409 ''Application already exists'')
           else ret (j_object J [(''app_id'', ja), (''name'', jn)]))))))))"

definition http_handleListApps :: "'j json_lib \<Rightarrow> 's config_store \<Rightarrow> ('s, 'j) io" where
  "http_handleListApps J S =
     bindE (nm_listApplications S) (\<lambda>apps.
       ret (j_object J [(''applications'', j_array J (map (app_json J) apps))]))"

definition http_handleGetApp :: "'j json_lib \<Rightarrow> 's config_store \<Rightarrow> string \<Rightarrow> ('s, 'j) io" where
  "http_handleGetApp J S appId =
     bindE (nm_getApplication S appId) (\<lambda>app.
       case app of
         None \<Rightarrow> ret (api_error J 404 ''Application not found'')
       | Some a \<Rightarrow>
           (let obj = j_object J [(''app_id'', j_str J (app_app_id a)), (''name'', j_str J (app_name a)),
                  (''created_at'', j_str J (app_created_at a))]
            in ret (case app_description a of None \<Rightarrow> obj
                    | Some d \<Rightarrow> j_set J obj ''description'' (j_str J d))))"

definition http_handleDeleteApp :: "'j json_lib \<Rightarrow> 's config_store \<Rightarrow> string \<Rightarrow> ('s, 'j) io" where
  "http_handleDeleteApp J S appId = thenE (removeApplication S appId) (ret (api_success J))"

definition http_handleListNamespaces ::
  "'j json_lib \<Rightarrow> 's config_store \<Rightarrow> string \<Rightarrow> ('s, 'j) io" where
  "http_handleListNamespaces J S appId =
     thenE (nm_listApplications S)
       (bindE (cs_listNamespaces S appId [] []) (\<lambda>found.
         ret (j_object J [(''namespaces'', j_array J (map (ns_json J) found))])))"

definition http_handleCreateNamespace ::
  "'j json_lib \<Rightarrow> 's config_store \<Rightarrow> string \<Rightarrow> string \<Rightarrow> ('s, 'j) io" where
  "http_handleCreateNamespace J S now text =
     bindE (lift (j_parse J text)) (\<lambda>body. create_namespace J S (string_at J body) now body)"

definition http_handleGetConfig ::
  "'j json_lib \<Rightarrow> 's config_store \<Rightarrow> string \<Rightarrow> string \<Rightarrow> ('s, 'j) io" where
  "http_handleGetConfig J S ns key =
     bindE (cs_getConfig S ns key False) (\<lambda>config.
       case config of
         None \<Rightarrow> ret (api_error J 404 ''Config not found'')
       | Some c \<Rightarrow> ret (j_object J [(''key'', j_str J (ck_key c)), (''value'', j_str J (ck_value c)),
           (''version'', j_int J (ck_version c))]))"

definition http_handleSetConfig ::
  "'j json_lib \<Rightarrow> 's config_store \<Rightarrow> string \<Rightarrow> string \<Rightarrow> string \<Rightarrow> string \<Rightarrow> ('s, 'j) io" where
  "http_handleSetConfig J S now text ns key =
     bindE (lift (j_parse J text)) (\<lambda>body.
     bindE (string_at J body ''value'') (\<lambda>value.
       set_draft J S now ns key value ''system''))"

definition http_handleDeleteConfig ::
  "'j json_lib \<Rightarrow> 's config_store \<Rightarrow> string \<Rightarrow> string \<Rightarrow> string \<Rightarrow> ('s, 'j) io" where
  "http_handleDeleteConfig J S now ns key =
     thenE (cs_deleteConfig S now ns key ''system'' True) (ret (api_success J))"

definition http_handlePublish ::
  "'j json_lib \<Rightarrow> 's config_store \<Rightarrow> string \<Rightarrow> string \<Rightarrow> string \<Rightarrow> ('s, 'j) io" where
  "http_handlePublish J S now text ns =
     bindE (lift (j_parse J text)) (\<lambda>body.
     bindE (lift (j_value J body ''release_note'' [])) (\<lambda>releaseNote.
     bindE (cs_publishRelease S now ns releaseNote ''system'' default_Release) (\<lambda>(ok, release).
       if \<not> ok then ret (api_error J 500 ''Publish failed'')
       else ret (j_object J [(''release_id'', j_int J (rel_id release)),
         (''release_version'', j_int J (rel_release_version release)),
         (''release_note'', j_str J (rel_release_note release)),
         (''created_at'', j_str J (rel_created_at release))]))))"

definition http_release_json :: "'j json_lib \<Rightarrow> Release \<Rightarrow> 'j" where
  "http_release_json J r =
     j_set J (j_set J (j_set J (j_set J (j_set J (j_set J (j_set J (j_null J)
       ''id'' (j_int J (rel_id r)))
       ''release_version'' (j_int J (rel_release_version r)))
       ''release_note'' (j_str J (rel_release_note r)))
       ''release_type'' (j_str J (rel_release_type r)))
       ''status'' (j_str J (rel_status r)))
       ''operator_id'' (j_str J (rel_operator_id r)))
       ''created_at'' (j_str J (rel_created_at r))"

definition http_handleGetReleases :: "'j json_lib \<Rightarrow> 's config_store \<Rightarrow> string \<Rightarrow> ('s, 'j) io" where
  "http_handleGetReleases J S ns =
     bindE (cs_getReleases S (default_ReleaseQuery\<lparr>rq_namespace_id := ns\<rparr>)) (\<lambda>rels.
       ret (j_object J [(''releases'', j_array J (map (http_release_json J) rels))]))"

definition http_handleNotifications :: "'j json_lib \<Rightarrow> 'j" where
  "http_handleNotifications J = api_error J 501 ''Long-polling not implemented yet''"


section \<open>Routing\<close>

text \<open>
  The chain of \<^verbatim>\<open>else if\<close> of \<^verbatim>\<open>handleRequest\<close>; a matched path with an unmatched verb leaves the
  response body null.
\<close>

definition routeRequest ::
  "'j json_lib \<Rightarrow> 's config_store \<Rightarrow> string \<Rightarrow> http_request \<Rightarrow> ('s, nat \<times> 'j) io" where
  "routeRequest J S now rq =
     (let target = req_target rq; meth = req_method rq; text = req_body rq;
          ok = (\<lambda>m. bindE m (\<lambda>body. ret (200, body)))
      in if target = ''/health'' then ok (http_handleHealth J S)
         else if target = ''/api/v1/auth/login'' \<and> meth = PostV then ok (http_handleLogin J text)
         else if target = ''/api/v1/apps'' then
           (if meth = PostV then ok (http_handleCreateApp J S now text)
            else if meth = GetV then ok (http_handleListApps J S)
            else ret (200, j_null J))
         else if str_find ''/api/v1/apps/'' target = Some 0 \<and> str_find ''/namespaces'' target = None then
           (let appId = extractPathParam target ''/api/v1/apps/'' []
            in if meth = GetV then ok (http_handleGetApp J S appId)
               else if meth = DeleteV then ok (http_handleDeleteApp J S appId)
               else ret (200, j_null J))
         else if str_find ''/api/v1/apps/'' target = Some 0 \<and> str_find ''/namespaces'' target \<noteq> None then
           (let appId = extractPathParam target ''/api/v1/apps/'' ''/namespaces''
            in if meth = GetV then ok (http_handleListNamespaces J S appId)
               else ret (200, j_null J))
         else if target = ''/api/v1/namespaces'' \<and> meth = PostV
           then ok (http_handleCreateNamespace J S now text)
         else if str_find ''/api/v1/namespaces/'' target = Some 0 \<and> str_find ''/keys/'' target \<noteq> None then
           (let ns = extractPathParam target ''/api/v1/namespaces/'' ''/keys/'';
                key = extractPathParam target ''/keys/'' []
            in if meth = GetV then ok (http_handleGetConfig J S ns key)
               else if meth = PutV then ok (http_handleSetConfig J S now text ns key)
               else if meth = DeleteV then ok (http_handleDeleteConfig J S now ns key)
               else ret (200, j_null J))
         else if str_find ''/api/v1/namespaces/'' target = Some 0 \<and> str_find ''/publish'' target \<noteq> None then
           ok (http_handlePublish J S now text
                 (extractPathParam target ''/api/v1/namespaces/'' ''/publish''))
         else if str_find ''/api/v1/namespaces/'' target = Some 0 \<and> str_find ''/releases'' target \<noteq> None then
           ok (http_handleGetReleases J S
                 (extractPathParam target ''/api/v1/namespaces/'' ''/releases''))
         else if target = ''/api/v1/notifications'' then ret (200, http_handleNotifications J)
         else ret (404, api_error J 404 ''Not found''))"

definition sendResponse :: "'j json_lib \<Rightarrow> nat \<Rightarrow> 'j \<Rightarrow> http_response result" where
  "sendResponse J status body =
     map_sum id (\<lambda>text. \<lparr>res_status = status, res_content_type = ''application/json'',
       res_body = text\<rparr>) (j_dump J body)"

definition handleRequest ::
  "'j json_lib \<Rightarrow> 's config_store \<Rightarrow> string \<Rightarrow> http_request \<Rightarrow> ('s, http_response) io" where
  "handleRequest J S now rq =
     bindE (routeRequest J S now rq) (\<lambda>(status, body). lift (sendResponse J status body))"


section \<open>Paths\<close>

lemma str_find_zero: "str_find pat s = Some 0 \<longleftrightarrow> take (length pat) s = pat"
  by (subst str_find.simps) (auto split: list.splits)

lemma str_find_first:
  assumes "pat \<noteq> []" and "str_find pat (u @ butlast pat) = None"
  shows "str_find pat (u @ pat @ s) = Some (length u)"
  using assms(2)
proof (induction u)
  case Nil
  show ?case by (simp add: str_find_prefix)
next
  case (Cons c u)
  let ?w = "c # u @ butlast pat"
  from Cons.prems have no: "take (length pat) ?w \<noteq> pat" and rest: "str_find pat (u @ butlast pat) = None"
    by (auto simp: str_find_Cons split: if_splits)
  from assms(1) have "u @ pat @ s = (u @ butlast pat) @ [last pat] @ s" by simp
  then have "c # u @ pat @ s = ?w @ [last pat] @ s" by simp
  moreover from assms(1) have "length pat \<le> length ?w" by (cases pat rule: rev_cases) auto
  ultimately have "take (length pat) (c # u @ pat @ s) \<noteq> pat" using no by (metis take_append append_Nil2 diff_is_0_eq' take_0)
  with Cons.IH [OF rest] show ?case by (simp add: str_find_Cons del: take_Suc_Cons)
qed

lemma str_find_suffix_None: "str_find pat (u @ s) = None \<Longrightarrow> str_find pat s = None"
  by (induction u) (auto simp: str_find_Cons split: if_splits)

lemma extractPathParam_prefix:
  "extractPathParam (pref @ u) pref [] = u"
  by (simp add: extractPathParam_def str_find_prefix)

lemma extractPathParam_middle:
  assumes "str_find suff (u @ suff @ rest) = Some (length u)" and "suff \<noteq> []"
  shows "extractPathParam (pref @ u @ suff @ rest) pref suff = u"
  using assms by (simp add: extractPathParam_def str_find_prefix str_find_from_def str_sub_def)

lemma extractPathParam_tail:
  assumes "str_find sep (u @ sep @ rest) = Some (length u)"
  shows "extractPathParam (u @ sep @ rest) sep [] = rest"
  using assms by (simp add: extractPathParam_def)

definition key_path :: "string \<Rightarrow> string \<Rightarrow> string" where
  "key_path n k = ''/api/v1/namespaces/'' @ n @ ''/keys/'' @ k"

definition publish_path :: "string \<Rightarrow> string" where
  "publish_path n = ''/api/v1/namespaces/'' @ n @ ''/publish''"

text \<open>Namespace identifiers whose paths the router splits at the intended place.\<close>

definition routable :: "string \<Rightarrow> bool" where
  "routable n \<longleftrightarrow> str_find ''/keys/'' (''/api/v1/namespaces/'' @ n @ ''/keys'') = None \<and>
     str_find ''/keys/'' (publish_path n) = None \<and>
     str_find ''/publish'' (''/api/v1/namespaces/'' @ n @ ''/publis'') = None"

lemma routable_keys:
  assumes "routable n"
  shows "extractPathParam (key_path n k) ''/api/v1/namespaces/'' ''/keys/'' = n"
    and "extractPathParam (key_path n k) ''/keys/'' [] = k"
    and "str_find ''/keys/'' (key_path n k) \<noteq> None"
proof -
  let ?pre = "''/api/v1/namespaces/''" and ?sep = "''/keys/''"
  from assms have "str_find ?sep ((?pre @ n) @ butlast ?sep) = None" by (simp add: routable_def)
  from str_find_first [OF _ this, of k] have *: "str_find ?sep ((?pre @ n) @ ?sep @ k) = Some (length (?pre @ n))"
    by blast
  from assms have "str_find ?sep (n @ butlast ?sep) = None"
    using str_find_suffix_None [of ?sep ?pre "n @ ''/keys''"] by (simp add: routable_def)
  from str_find_first [OF _ this, of k] have "str_find ?sep (n @ ?sep @ k) = Some (length n)" by blast
  from extractPathParam_middle [OF this, of ?pre]
  show "extractPathParam (key_path n k) ?pre ?sep = n" by (simp add: key_path_def)
  from extractPathParam_tail [OF *] show "extractPathParam (key_path n k) ?sep [] = k"
    by (simp add: key_path_def)
  from * show "str_find ?sep (key_path n k) \<noteq> None" by (simp add: key_path_def)
qed

lemma routable_publish:
  assumes "routable n"
  shows "extractPathParam (publish_path n) ''/api/v1/namespaces/'' ''/publish'' = n"
    and "str_find ''/publish'' (publish_path n) \<noteq> None"
proof -
  let ?pre = "''/api/v1/namespaces/''" and ?sep = "''/publish''"
  from assms have no: "str_find ?sep ((?pre @ n) @ butlast ?sep) = None" by (simp add: routable_def)
  from str_find_first [OF _ no, of "[]"] show "str_find ?sep (publish_path n) \<noteq> None"
    by (simp add: publish_path_def)
  from no have "str_find ?sep (n @ butlast ?sep) = None"
    using str_find_suffix_None [of ?sep ?pre "n @ butlast ?sep"] by simp
  from str_find_first [OF _ this, of "[]"] have "str_find ?sep (n @ ?sep @ []) = Some (length n)" by blast
  from extractPathParam_middle [OF this, of ?pre]
  show "extractPathParam (publish_path n) ?pre ?sep = n" by (simp add: publish_path_def)
qed

lemma namespace_targets:
  fixes u defines "w \<equiv> ''/api/v1/namespaces/'' @ u"
  shows "w \<noteq> ''/health''" "w \<noteq> ''/api/v1/auth/login''" "w \<noteq> ''/api/v1/apps''"
    "str_find ''/api/v1/apps/'' w \<noteq> Some 0" "w \<noteq> ''/api/v1/namespaces''"
    "str_find ''/api/v1/namespaces/'' w = Some 0"
  unfolding str_find_zero by (simp_all add: w_def)

lemma route_key:
  assumes "routable n"
  shows "routeRequest J S now \<lparr>req_target = key_path n k, req_method = v, req_body = b\<rparr> =
    (case v of
       GetV \<Rightarrow> bindE (http_handleGetConfig J S n k) (\<lambda>body. ret (200, body))
     | PutV \<Rightarrow> bindE (http_handleSetConfig J S now b n k) (\<lambda>body. ret (200, body))
     | DeleteV \<Rightarrow> bindE (http_handleDeleteConfig J S now n k) (\<lambda>body. ret (200, body))
     | _ \<Rightarrow> ret (200, j_null J))"
  using namespace_targets [of "n @ ''/keys/'' @ k", folded key_path_def] routable_keys [OF assms, of k]
  by (cases v) (simp_all only: routeRequest_def Let_def http_request.simps verb.simps verb.distinct
      simp_thms if_True if_False)

lemma route_publish:
  assumes "routable n"
  shows "routeRequest J S now \<lparr>req_target = publish_path n, req_method = v, req_body = b\<rparr> =
    bindE (http_handlePublish J S now b n) (\<lambda>body. ret (200, body))"
proof -
  from assms have "str_find ''/keys/'' (publish_path n) = None" by (simp add: routable_def)
  then show ?thesis
    using namespace_targets [of "n @ ''/publish''", folded publish_path_def] routable_publish [OF assms]
    by (simp only: routeRequest_def Let_def http_request.simps simp_thms if_True if_False)
qed


lemma route_login:
  "routeRequest J S now \<lparr>req_target = ''/api/v1/auth/login'', req_method = PostV, req_body = b\<rparr> =
   bindE (http_handleLogin J b) (\<lambda>body. ret (200, body))"
  by (simp add: routeRequest_def)

lemma route_create_app:
  "routeRequest J S now \<lparr>req_target = ''/api/v1/apps'', req_method = PostV, req_body = b\<rparr> =
   bindE (http_handleCreateApp J S now b) (\<lambda>body. ret (200, body))"
  by (simp add: routeRequest_def)

lemma route_create_namespace:
  "routeRequest J S now \<lparr>req_target = ''/api/v1/namespaces'', req_method = PostV, req_body = b\<rparr> =
   bindE (http_handleCreateNamespace J S now b) (\<lambda>body. ret (200, body))"
  by (simp add: routeRequest_def str_find_zero)

lemma raise_bindE [simp]: "bindE (raise e) f = raise e"
  by (rule ext) (simp add: bindE_def raise_def)


section \<open>The session and the handler classes\<close>

lemma http_eq_handlers:
  "http_handleHealth J S = HealthHandler_handleHealth J S"
  "http_handleListApps J S = NamespaceHandler_handleListApps J S"
  "http_handleGetApp J S a = NamespaceHandler_handleGetApp J S a"
  "http_handleDeleteApp J S a = NamespaceHandler_handleDeleteApp J S a"
  "http_handleGetConfig J S n k = ConfigHandler_handleGetConfig J S n k"
  "http_handleDeleteConfig J S now n k = ConfigHandler_handleDeleteConfig J S now n k ''system''"
  by (simp_all add: http_handleHealth_def HealthHandler_handleHealth_def http_handleListApps_def
      NamespaceHandler_handleListApps_def http_handleGetApp_def NamespaceHandler_handleGetApp_def
      http_handleDeleteApp_def NamespaceHandler_handleDeleteApp_def http_handleGetConfig_def
      ConfigHandler_handleGetConfig_def http_handleDeleteConfig_def
      ConfigHandler_handleDeleteConfig_def)

lemma http_publish_eq:
  "http_handlePublish J S now b n =
   bindE (lift (j_parse J b)) (\<lambda>body. PublishHandler_handlePublish J S now n body ''system'')"
  by (simp add: http_handlePublish_def PublishHandler_handlePublish_def)

context json_library
begin

lemma http_release_json_eq: "http_release_json J r = j_object J (release_fields J r)"
  by (simp add: http_release_json_def release_fields_def set_null set_object)

lemma http_releases_eq: "http_handleGetReleases J S n = PublishHandler_handleGetReleases J S n"
  by (simp add: http_handleGetReleases_def PublishHandler_handleGetReleases_def
      http_release_json_eq cong: map_cong)

lemma create_app_eq:
  assumes "j_parse J b = Inr x"
  shows "http_handleCreateApp J S now b = NamespaceHandler_handleCreateApp J S now x"
  using assms
  by (auto simp: http_handleCreateApp_def NamespaceHandler_handleCreateApp_def at_const
      string_at_const_eq cong: if_cong)

lemma create_namespace_eq:
  assumes "j_parse J b = Inr x" and "j_contains J x ''app_id''" and "j_contains J x ''env''"
    and "j_contains J x ''name''"
  shows "http_handleCreateNamespace J S now b = NamespaceHandler_handleCreateNamespace J S now x"
  using assms
  by (simp add: http_handleCreateNamespace_def NamespaceHandler_handleCreateNamespace_def
      create_namespace_def string_at_const_eq cong: if_cong)

lemma set_config_eq:
  assumes "j_parse J b = Inr x" and "j_contains J x ''value''" and "j_value J x ''value'' [] = Inr v"
  shows "http_handleSetConfig J S now b n k = ConfigHandler_handleSetConfig J S now n k x ''system''"
proof -
  from assms obtain y where "j_at J x ''value'' = Inr y" "j_string J y = Inr v"
    by (auto simp: value_present)
  with assms(1,3) show ?thesis
    by (simp add: http_handleSetConfig_def ConfigHandler_handleSetConfig_def string_at_def)
qed

end


section \<open>Writing, publishing and reading over HTTP\<close>

context reliable_config_store
begin

lemma set_draft_run:
  assumes "inv s"
  shows "\<exists>t. set_draft J S now n k v op s = (Inr (api_success J), t) \<and> inv t \<and>
    cfgs t = (case cfgs s (n, k) of
        None \<Rightarrow> (cfgs s)((n, k) \<mapsto> fresh_config now n k v)
      | Some c \<Rightarrow> if ck_status c = ''draft'' then cfgs s
                  else (cfgs s)((n, k) \<mapsto> edited_config now v True c))"
proof -
  have "set_draft J S now n k v op = thenE (addDraftChange S now n k v op) (ret (api_success J))"
    by (simp add: set_draft_def addDraftChange_def thenE_def bindE_assoc)
  with addDraftChange_run [OF assms, of now n k v op] show ?thesis by (auto simp: thenE_def bindE_def)
qed

lemma http_put:
  assumes "inv s" and "routable n" and "j_parse J b = Inr x" and "j_at J x ''value'' = Inr y"
    and "j_string J y = Inr v"
  shows "\<exists>t. routeRequest J S now \<lparr>req_target = key_path n k, req_method = PutV, req_body = b\<rparr> s =
      (Inr (200, api_success J), t) \<and> inv t \<and>
    cfgs t = (case cfgs s (n, k) of
        None \<Rightarrow> (cfgs s)((n, k) \<mapsto> fresh_config now n k v)
      | Some c \<Rightarrow> if ck_status c = ''draft'' then cfgs s
                  else (cfgs s)((n, k) \<mapsto> edited_config now v True c))"
  using set_draft_run [OF assms(1), of J now n k v "''system''"] assms
  by (auto simp: route_key http_handleSetConfig_def string_at_def bindE_def)

lemma http_publish:
  assumes "inv s" and "routable n" and "j_parse J b = Inr x" and "j_value J x ''release_note'' [] = Inr nt"
  shows "\<exists>(r :: Release) t. routeRequest J S now \<lparr>req_target = publish_path n, req_method = PostV, req_body = b\<rparr> s =
      (Inr (200, j_object J [(''release_id'', j_int J (rel_id r)),
         (''release_version'', j_int J (rel_release_version r)),
         (''release_note'', j_str J (rel_release_note r)),
         (''created_at'', j_str J (rel_created_at r))]), t) \<and> inv t \<and> cfgs t = published n (cfgs s)"
proof -
  obtain r t where "publish S now n nt ''system'' default_Release s = (Inr (True, r), t)" "inv t"
    "cfgs t = published n (cfgs s)" using publish_run [OF assms(1)] by blast
  with assms show ?thesis
    by (intro exI [of _ r] exI [of _ t]) (simp add: route_publish http_handlePublish_def publish_def bindE_def ret_def)
qed

lemma http_get:
  assumes "inv s" and "routable n"
  shows "routeRequest J S now \<lparr>req_target = key_path n k, req_method = GetV, req_body = b\<rparr> s =
    (Inr (200, case visible False (cfgs s (n, k)) of
        None \<Rightarrow> api_error J 404 ''Config not found''
      | Some c \<Rightarrow> j_object J [(''key'', j_str J (ck_key c)), (''value'', j_str J (ck_value c)),
          (''version'', j_int J (ck_version c))]), s)"
  using assms(2)
  by (simp add: route_key http_handleGetConfig_def bindE_def getConfig_run [OF assms(1)] ret_def
      split: option.splits)

end


section \<open>Properties\<close>

text \<open>
  C29. A body that is not JSON, on any of the routes that read one (login, creating an application
  or a namespace, setting a key, publishing), leaves \<^verbatim>\<open>handleRequest\<close> as an exception: no response
  is produced and the store is as before.
\<close>

theorem malformed_body_throws:
  assumes "j_parse J b = Inl e" and "routable n"
    and "(path, v) \<in> {(''/api/v1/auth/login'', PostV), (''/api/v1/apps'', PostV),
      (''/api/v1/namespaces'', PostV), (key_path n k, PutV), (publish_path n, v)}"
  shows "handleRequest J S now \<lparr>req_target = path, req_method = v, req_body = b\<rparr> s = (Inl e, s)"
proof -
  have "routeRequest J S now \<lparr>req_target = path, req_method = v, req_body = b\<rparr> = raise e"
    using assms(3)
  proof (elim insertE emptyE Pair_inject)
    assume "path = ''/api/v1/auth/login''" "v = PostV"
    then show ?thesis by (simp add: route_login assms(1) http_handleLogin_def)
  next
    assume "path = ''/api/v1/apps''" "v = PostV"
    then show ?thesis by (simp add: route_create_app assms(1) http_handleCreateApp_def)
  next
    assume "path = ''/api/v1/namespaces''" "v = PostV"
    then show ?thesis by (simp add: route_create_namespace assms(1) http_handleCreateNamespace_def)
  next
    assume "path = key_path n k" "v = PutV"
    then show ?thesis by (simp add: route_key assms(1,2) http_handleSetConfig_def)
  next
    assume "path = publish_path n"
    then show ?thesis by (simp add: route_publish assms(1,2) http_handlePublish_def)
  qed
  then show ?thesis by (simp add: handleRequest_def bindE_def raise_def)
qed

theorem malformed_body_throws_witness:
  "handleRequest (ref_json (\<lambda>_. Inl JsonError) (\<lambda>_. Inr [])) (sqlite_store mem_orm) ''t''
     \<lparr>req_target = ''/api/v1/namespaces/ns/keys/k'', req_method = PutV, req_body = ''{''\<rparr> demo1 =
   (Inl JsonError, demo1)"
proof -
  have "routable ''ns''" by code_simp
  then show ?thesis
    using malformed_body_throws [of "ref_json (\<lambda>_. Inl JsonError) (\<lambda>_. Inr [])" "''{''" JsonError "''ns''"
        "key_path ''ns'' ''k''" PutV "''k''" "sqlite_store mem_orm" "''t''" demo1]
    by (simp add: ref_json_def key_path_def)
qed



end
