(* ===== verification/Grpc_Service.thy ===== *)
theory Grpc_Service
  imports Publish_Engine
begin

text \<open>
  The two implementations of the gRPC service: \<^verbatim>\<open>ConfigGrpcService\<close> (\<^verbatim>\<open>src/server/grpc_server.cpp\<close>,
  the one the server registers, definitions \<open>cgs_\<close>) and \<^verbatim>\<open>GrpcServiceImpl\<close>
  (\<^verbatim>\<open>src/api/grpc_service.cpp\<close>, definitions \<open>gsi_\<close>). Messages are records with the fields of
  \<^verbatim>\<open>proto/config_service.proto\<close>, an unset sub-message is \<open>None\<close>. A response is returned with the
  status. \<^verbatim>\<open>WatchConfig\<close> runs until the call is cancelled: it is a \<open>partial_function\<close> on a stream that
  tells, per iteration, whether the call is cancelled and whether a write succeeds, and that keeps
  what was written.
\<close>


section \<open>Messages\<close>

datatype grpc_status = GrpcOk | GrpcNotFound string | GrpcInternal string

record config_msg =
  cm_namespace_id :: string
  cm_key :: string
  cm_value :: string
  cm_version :: int
  cm_status :: string

record release_msg =
  rm_id :: int
  rm_namespace_id :: string
  rm_release_version :: int
  rm_release_note :: string
  rm_release_type :: string
  rm_status :: string
  rm_operator_id :: string
  rm_created_at :: string

record change_msg =
  xm_namespace_id :: string
  xm_release_id :: int
  xm_changed_keys :: "string list"
  xm_timestamp :: int

record key_request =
  kr_namespace_id :: string
  kr_key :: string
  kr_value :: string
  kr_operator_id :: string

record publish_request =
  pr_namespace_id :: string
  pr_release_note :: string
  pr_operator_id :: string

record history_request =
  hr_namespace_id :: string
  hr_page :: int
  hr_page_size :: int

record history_response =
  hs_releases :: "release_msg list"
  hs_total :: int

definition config_to_msg :: "ConfigKey \<Rightarrow> config_msg" where
  "config_to_msg c = \<lparr>cm_namespace_id = ck_namespace_id c, cm_key = ck_key c, cm_value = ck_value c,
     cm_version = ck_version c, cm_status = ck_status c\<rparr>"

definition release_to_msg :: "Release \<Rightarrow> release_msg" where
  "release_to_msg r = \<lparr>rm_id = rel_id r, rm_namespace_id = rel_namespace_id r,
     rm_release_version = rel_release_version r, rm_release_note = rel_release_note r,
     rm_release_type = rel_release_type r, rm_status = rel_status r,
     rm_operator_id = rel_operator_id r, rm_created_at = rel_created_at r\<rparr>"


section \<open>ConfigGrpcService\<close>

definition cgs_GetConfig ::
  "'s config_store \<Rightarrow> key_request \<Rightarrow> ('s, grpc_status \<times> config_msg option) io" where
  "cgs_GetConfig S req =
     bindE (cs_getConfig S (kr_namespace_id req) (kr_key req) False) (\<lambda>config.
       case config of
         None \<Rightarrow> ret (GrpcNotFound ''Config not found'', None)
       | Some c \<Rightarrow> ret (GrpcOk, Some (config_to_msg c)))"

definition cgs_SetConfig ::
  "'s config_store \<Rightarrow> string \<Rightarrow> key_request \<Rightarrow> ('s, grpc_status \<times> config_msg option) io" where
  "cgs_SetConfig S now req =
     (let opId = (if kr_operator_id req = [] then ''grpc'' else kr_operator_id req)
      in bindE (cs_getConfig S (kr_namespace_id req) (kr_key req) False) (\<lambda>existing.
         thenE (if existing \<noteq> None
                then cs_updateConfig S now (kr_namespace_id req) (kr_key req) (kr_value req) opId True
                else cs_createConfig S now (kr_namespace_id req) (kr_key req) (kr_value req) opId)
           (bindE (cs_getConfig S (kr_namespace_id req) (kr_key req) False) (\<lambda>updated.
              ret (GrpcOk, map_option config_to_msg updated)))))"

definition cgs_DeleteConfig ::
  "'s config_store \<Rightarrow> string \<Rightarrow> key_request \<Rightarrow> ('s, grpc_status \<times> bool) io" where
  "cgs_DeleteConfig S now req =
     (let opId = (if kr_operator_id req = [] then ''grpc'' else kr_operator_id req)
      in bindE (cs_deleteConfig S now (kr_namespace_id req) (kr_key req) opId True) (\<lambda>ok.
           ret (GrpcOk, ok)))"

definition cgs_PublishRelease ::
  "'s config_store \<Rightarrow> string \<Rightarrow> publish_request \<Rightarrow> ('s, grpc_status \<times> release_msg option) io" where
  "cgs_PublishRelease S now req =
     (let opId = (if pr_operator_id req = [] then ''grpc'' else pr_operator_id req)
      in bindE (cs_publishRelease S now (pr_namespace_id req) (pr_release_note req) opId default_Release)
           (\<lambda>(ok, release).
              if \<not> ok then ret (GrpcInternal ''Publish failed'', None)
              else ret (GrpcOk, Some (release_to_msg release))))"

definition cgs_GetReleaseHistory ::
  "'s config_store \<Rightarrow> history_request \<Rightarrow> ('s, grpc_status \<times> history_response) io" where
  "cgs_GetReleaseHistory S req =
     bindE (cs_getReleases S \<lparr>rq_namespace_id = hr_namespace_id req,
         rq_page = (if hr_page req > 0 then hr_page req else 1),
         rq_page_size = (if hr_page_size req > 0 then hr_page_size req else 20)\<rparr>) (\<lambda>rels.
       ret (GrpcOk, \<lparr>hs_releases = map release_to_msg rels, hs_total = wrap32 (int (length rels))\<rparr>))"


section \<open>GrpcServiceImpl\<close>

definition gsi_GetConfig ::
  "'s config_store \<Rightarrow> key_request \<Rightarrow> ('s, grpc_status \<times> config_msg option) io" where
  "gsi_GetConfig S req =
     bindE (cs_getConfig S (kr_namespace_id req) (kr_key req) False) (\<lambda>config.
       case config of
         None \<Rightarrow> ret (GrpcNotFound ''Config not found'', None)
       | Some c \<Rightarrow> ret (GrpcOk, Some (config_to_msg c)))"

definition gsi_SetConfig ::
  "'s config_store \<Rightarrow> string \<Rightarrow> key_request \<Rightarrow> ('s, grpc_status \<times> config_msg option) io" where
  "gsi_SetConfig S now req =
     (let opId = (if kr_operator_id req = [] then ''grpc'' else kr_operator_id req)
      in bindE (cs_getConfig S (kr_namespace_id req) (kr_key req) False) (\<lambda>existing.
         thenE (case existing of
                  Some _ \<Rightarrow> cs_updateConfig S now (kr_namespace_id req) (kr_key req) (kr_value req) opId True
                | None \<Rightarrow> cs_createConfig S now (kr_namespace_id req) (kr_key req) (kr_value req) opId)
           (bindE (cs_getConfig S (kr_namespace_id req) (kr_key req) False) (\<lambda>updated.
              case updated of
                Some c \<Rightarrow> ret (GrpcOk, Some (config_to_msg c))
              | None \<Rightarrow> ret (GrpcOk, None)))))"

definition gsi_DeleteConfig ::
  "'s config_store \<Rightarrow> string \<Rightarrow> key_request \<Rightarrow> ('s, grpc_status \<times> bool) io" where
  "gsi_DeleteConfig S now req =
     (let opId = (if kr_operator_id req = [] then ''grpc'' else kr_operator_id req)
      in bindE (cs_deleteConfig S now (kr_namespace_id req) (kr_key req) opId True) (\<lambda>ok.
           ret (GrpcOk, ok)))"

definition gsi_PublishRelease ::
  "'s config_store \<Rightarrow> string \<Rightarrow> publish_request \<Rightarrow> ('s, grpc_status \<times> release_msg option) io" where
  "gsi_PublishRelease S now req =
     (let opId = (if pr_operator_id req = [] then ''grpc'' else pr_operator_id req)
      in bindE (cs_publishRelease S now (pr_namespace_id req) (pr_release_note req) opId default_Release)
           (\<lambda>(ok, release).
              if \<not> ok then ret (GrpcInternal ''Publish failed'', None)
              else ret (GrpcOk, Some (release_to_msg release))))"

definition gsi_GetReleaseHistory ::
  "'s config_store \<Rightarrow> history_request \<Rightarrow> ('s, grpc_status \<times> history_response) io" where
  "gsi_GetReleaseHistory S req =
     bindE (cs_getReleases S (default_ReleaseQuery\<lparr>rq_namespace_id := hr_namespace_id req,
         rq_page := (if hr_page req > 0 then hr_page req else 1),
         rq_page_size := (if hr_page_size req > 0 then hr_page_size req else 20)\<rparr>)) (\<lambda>rels.
       ret (GrpcOk, \<lparr>hs_releases = map release_to_msg rels, hs_total = wrap32 (int (length rels))\<rparr>))"


section \<open>WatchConfig\<close>

record watch_stream =
  ws_round :: nat
  ws_cancelled :: "nat \<Rightarrow> bool"
  ws_writable :: "nat \<Rightarrow> bool"
  ws_written :: "change_msg list"

definition empty_change :: change_msg where
  "empty_change = \<lparr>xm_namespace_id = [], xm_release_id = 0, xm_changed_keys = [], xm_timestamp = 0\<rparr>"

text \<open>One \<^verbatim>\<open>Write\<close> and the sleep after it: a failed write delivers nothing.\<close>

definition stream_write :: "change_msg \<Rightarrow> watch_stream \<Rightarrow> watch_stream" where
  "stream_write m st = st\<lparr>ws_round := Suc (ws_round st),
     ws_written := (if ws_writable st (ws_round st) then ws_written st @ [m] else ws_written st)\<rparr>"

partial_function (option) cgs_WatchConfig :: "watch_stream \<Rightarrow> (grpc_status \<times> watch_stream) option" where
  "cgs_WatchConfig st =
     (if ws_cancelled st (ws_round st) then Some (GrpcOk, st)
      else if ws_writable st (ws_round st) then cgs_WatchConfig (stream_write empty_change st)
      else Some (GrpcOk, stream_write empty_change st))"

partial_function (option) gsi_WatchConfig :: "watch_stream \<Rightarrow> (grpc_status \<times> watch_stream) option" where
  "gsi_WatchConfig st =
     (if ws_cancelled st (ws_round st) then Some (GrpcOk, st)
      else gsi_WatchConfig (stream_write empty_change st))"


section \<open>The two services\<close>

lemma if_existing: "(if e \<noteq> None then a else b) = (case e of Some _ \<Rightarrow> a | None \<Rightarrow> b)"
  by (cases e) simp_all

lemma ret_updated: "ret (x, map_option f u) = (case u of Some c \<Rightarrow> ret (x, Some (f c)) | None \<Rightarrow> ret (x, None))"
  by (cases u) simp_all

lemma unary_eq:
  "cgs_GetConfig S req = gsi_GetConfig S req"
  "cgs_SetConfig S now req = gsi_SetConfig S now req"
  "cgs_DeleteConfig S now req = gsi_DeleteConfig S now req"
  "cgs_PublishRelease S now pq = gsi_PublishRelease S now pq"
  "cgs_GetReleaseHistory S hq = gsi_GetReleaseHistory S hq"
proof -
  show "cgs_SetConfig S now req = gsi_SetConfig S now req"
    by (simp only: cgs_SetConfig_def gsi_SetConfig_def if_existing ret_updated)
qed (simp_all add: cgs_GetConfig_def gsi_GetConfig_def cgs_DeleteConfig_def gsi_DeleteConfig_def
  cgs_PublishRelease_def gsi_PublishRelease_def cgs_GetReleaseHistory_def gsi_GetReleaseHistory_def
  default_ReleaseQuery_def if_distrib cong: if_cong)

text \<open>A stream cancelled in some later round: both loops return, all messages are the placeholder.\<close>

lemma stream_write_sel [simp]:
  "ws_round (stream_write m st) = Suc (ws_round st)"
  "ws_cancelled (stream_write m st) = ws_cancelled st"
  "ws_writable (stream_write m st) = ws_writable st"
  "ws_written (stream_write m st) =
     (if ws_writable st (ws_round st) then ws_written st @ [m] else ws_written st)"
  by (simp_all add: stream_write_def)

lemma gsi_watch_returns:
  assumes "ws_cancelled st (ws_round st + n)" and "\<forall>i<n. \<not> ws_cancelled st (ws_round st + i)"
  shows "\<exists>st'. gsi_WatchConfig st = Some (GrpcOk, st') \<and> ws_round st' = ws_round st + n \<and>
    ws_written st' = ws_written st @
      replicate (length (filter (ws_writable st) [ws_round st ..< ws_round st + n])) empty_change"
  using assms
proof (induction n arbitrary: st)
  case 0
  then show ?case by (simp add: gsi_WatchConfig.simps [of st])
next
  case (Suc n)
  let ?u = "stream_write empty_change st"
  from Suc.prems(2) have now: "\<not> ws_cancelled st (ws_round st)" by (metis add_0_right zero_less_Suc)
  have "ws_cancelled ?u (ws_round ?u + n)" using Suc.prems(1) by simp
  moreover have "\<forall>i<n. \<not> ws_cancelled ?u (ws_round ?u + i)" using Suc.prems(2) by auto
  ultimately obtain st' where "gsi_WatchConfig ?u = Some (GrpcOk, st')" "ws_round st' = ws_round ?u + n"
    "ws_written st' = ws_written ?u @
      replicate (length (filter (ws_writable ?u) [ws_round ?u ..< ws_round ?u + n])) empty_change"
    using Suc.IH [of ?u] by blast
  moreover have "[ws_round st ..< ws_round st + Suc n] = ws_round st # [Suc (ws_round st) ..< Suc (ws_round st) + n]"
    by (simp add: upt_conv_Cons)
  ultimately show ?case using now by (auto simp: gsi_WatchConfig.simps [of st])
qed

lemma cgs_watch_returns:
  assumes "ws_cancelled st (ws_round st + n) \<or> \<not> ws_writable st (ws_round st + n)"
  shows "\<exists>st' m. cgs_WatchConfig st = Some (GrpcOk, st') \<and> m \<le> n \<and>
    ws_written st' = ws_written st @ replicate m empty_change"
  using assms
proof (induction n arbitrary: st)
  case 0
  then show ?case by (auto simp: cgs_WatchConfig.simps [of st] intro!: exI [of _ 0])
next
  case (Suc n)
  let ?u = "stream_write empty_change st"
  show ?case
  proof (cases "\<not> ws_cancelled st (ws_round st) \<and> ws_writable st (ws_round st)")
    case True
    have "ws_cancelled ?u (ws_round ?u + n) \<or> \<not> ws_writable ?u (ws_round ?u + n)"
      using Suc.prems by simp
    from Suc.IH [OF this] obtain st' m where "cgs_WatchConfig ?u = Some (GrpcOk, st')" "m \<le> n"
      "ws_written st' = ws_written ?u @ replicate m empty_change" by blast
    with True show ?thesis
      by (intro exI [of _ st'] exI [of _ "Suc m"]) (simp add: cgs_WatchConfig.simps [of st] replicate_app_Cons_same)
  next
    case False
    then show ?thesis
      by (auto simp: cgs_WatchConfig.simps [of st] intro!: exI [of _ 0])
  qed
qed

text \<open>On a broken connection that is never reported as cancelled, \<^verbatim>\<open>GrpcServiceImpl\<close> loops.\<close>

lemma gsi_watch_cancelled:
  assumes "gsi_WatchConfig st = Some r"
  shows "\<exists>i. ws_cancelled st i"
proof (rule gsi_WatchConfig.raw_induct [where P = "\<lambda>st _. \<exists>i. ws_cancelled st i", OF _ assms])
  fix f st r
  assume IH: "\<And>st r. f st = Some r \<Longrightarrow> \<exists>i. ws_cancelled st i"
    and "(if ws_cancelled st (ws_round st) then Some (GrpcOk, st)
          else f (stream_write empty_change st)) = Some r"
  then show "\<exists>i. ws_cancelled st i"
    using IH [of "stream_write empty_change st" r] by (auto split: if_splits)
qed

lemma gsi_watch_loops: "\<forall>i. \<not> ws_cancelled st i \<Longrightarrow> gsi_WatchConfig st = None"
  using gsi_watch_cancelled [of st] by (cases "gsi_WatchConfig st") auto


section \<open>SetConfig on a reliable store\<close>

context reliable_config_store
begin

lemma SetConfig_run:
  assumes "inv s"
  shows "\<exists>t. cgs_SetConfig S now req s = (Inr (GrpcOk, None), t) \<and> inv t \<and>
    cfgs t = (case cfgs s (kr_namespace_id req, kr_key req) of
        None \<Rightarrow> (cfgs s)((kr_namespace_id req, kr_key req) \<mapsto>
                  fresh_config now (kr_namespace_id req) (kr_key req) (kr_value req))
      | Some c \<Rightarrow> if ck_status c = ''draft'' then cfgs s
                  else (cfgs s)((kr_namespace_id req, kr_key req) \<mapsto>
                    edited_config now (kr_value req) True c))"
proof -
  let ?n = "kr_namespace_id req" and ?k = "kr_key req"
  let ?op = "if kr_operator_id req = [] then ''grpc'' else kr_operator_id req"
  have eq: "cgs_SetConfig S now req = thenE (addDraftChange S now ?n ?k (kr_value req) ?op)
      (bindE (cs_getConfig S ?n ?k False) (\<lambda>u. ret (GrpcOk, map_option config_to_msg u)))"
    by (simp add: cgs_SetConfig_def addDraftChange_def thenE_def bindE_assoc Let_def)
  from addDraftChange_run [OF assms, of now ?n ?k "kr_value req" ?op] obtain b t where
    run: "addDraftChange S now ?n ?k (kr_value req) ?op s = (Inr b, t)" and inv: "inv t"
    and t: "cfgs t = (case cfgs s (?n, ?k) of
        None \<Rightarrow> (cfgs s)((?n, ?k) \<mapsto> fresh_config now ?n ?k (kr_value req))
      | Some c \<Rightarrow> if ck_status c = ''draft'' then cfgs s
                  else (cfgs s)((?n, ?k) \<mapsto> edited_config now (kr_value req) True c))" by blast
  have "visible False (cfgs t (?n, ?k)) = None"
    using t by (auto simp: visible_def split: option.splits)
  with run inv t show ?thesis
    by (intro exI [of _ t]) (simp add: eq thenE_def bindE_def getConfig_run [OF inv] ret_def)
qed

end


definition demo_request :: key_request where
  "demo_request = \<lparr>kr_namespace_id = ''ns'', kr_key = ''fresh'', kr_value = ''1'', kr_operator_id = []\<rparr>"


section \<open>Properties\<close>

text \<open>
  C31. The two gRPC implementations compute the same unary calls: \<^verbatim>\<open>GetConfig\<close>, \<^verbatim>\<open>SetConfig\<close>,
  \<^verbatim>\<open>DeleteConfig\<close>, \<^verbatim>\<open>PublishRelease\<close> and \<^verbatim>\<open>GetReleaseHistory\<close> return the same status and message
  and change the store alike, on every store and in every state, exceptions included. On a reliable
  SQLite store \<^verbatim>\<open>SetConfig\<close> of either always answers OK with an empty message, because the value it reads
  back is a draft, which its read hides; also when the key had a draft already, in which case the new
  value is lost.
\<close>

theorem unary_rpcs_agree:
  assumes "reliable_engine E" and "store_inv s"
  shows "cgs_GetConfig S req = gsi_GetConfig S req \<and> cgs_SetConfig S now req = gsi_SetConfig S now req \<and>
    cgs_DeleteConfig S now req = gsi_DeleteConfig S now req \<and>
    cgs_PublishRelease S now pq = gsi_PublishRelease S now pq \<and>
    cgs_GetReleaseHistory S hq = gsi_GetReleaseHistory S hq \<and>
    (\<exists>t. gsi_SetConfig (sqlite_store E) now req s = (Inr (GrpcOk, None), t) \<and> store_inv t \<and>
      cfg_map t = (case cfg_map s (kr_namespace_id req, kr_key req) of
          None \<Rightarrow> (cfg_map s)((kr_namespace_id req, kr_key req) \<mapsto>
                    fresh_config now (kr_namespace_id req) (kr_key req) (kr_value req))
        | Some c \<Rightarrow> if ck_status c = ''draft'' then cfg_map s
                    else (cfg_map s)((kr_namespace_id req, kr_key req) \<mapsto>
                      edited_config now (kr_value req) True c)))"
proof -
  note set = reliable_config_store.SetConfig_run [OF reliable_engine.store_contract [OF assms(1)] assms(2), of now req]
  show ?thesis using set by (simp only: unary_eq simp_thms)
qed

theorem unary_rpcs_agree_witness:
  "cgs_DeleteConfig (sqlite_store mem_orm) ''t9'' demo_request = gsi_DeleteConfig (sqlite_store mem_orm) ''t9'' demo_request \<and>
   (\<exists>t. gsi_SetConfig (sqlite_store mem_orm) ''t9'' demo_request demo1 = (Inr (GrpcOk, None), t))"
  using unary_rpcs_agree [OF mem.reliable_engine_axioms demo1_inv, of "sqlite_store mem_orm" demo_request "''t9''"]
  by blast

text \<open>
  C32. The watch loops. When the call is cancelled for the first time \<open>n\<close> rounds from now, \<^verbatim>\<open>WatchConfig\<close>
  returns OK in both implementations; \<^verbatim>\<open>GrpcServiceImpl\<close> does so after exactly \<open>n\<close> rounds, having sent one
  message per round whose write succeeded, \<^verbatim>\<open>ConfigGrpcService\<close> after at most \<open>n\<close> messages; and every
  message sent is empty, whatever happened to the namespace. On a connection that breaks and is never
  reported as cancelled, \<^verbatim>\<open>ConfigGrpcService\<close> leaves its loop at the failed write, while
  \<^verbatim>\<open>GrpcServiceImpl\<close>, which does not look at the result of a write, never returns.
\<close>

theorem watch_outcomes:
  "(ws_cancelled st (ws_round st + n) \<and> (\<forall>i<n. \<not> ws_cancelled st (ws_round st + i)) \<longrightarrow>
     (\<exists>st'. gsi_WatchConfig st = Some (GrpcOk, st') \<and> ws_round st' = ws_round st + n \<and>
        ws_written st' = ws_written st @
          replicate (length (filter (ws_writable st) [ws_round st ..< ws_round st + n])) empty_change) \<and>
     (\<exists>st' m. cgs_WatchConfig st = Some (GrpcOk, st') \<and> m \<le> n \<and>
        ws_written st' = ws_written st @ replicate m empty_change)) \<and>
   (\<not> ws_writable st (ws_round st + n) \<and> (\<forall>i. \<not> ws_cancelled st i) \<longrightarrow>
     (\<exists>st'. cgs_WatchConfig st = Some (GrpcOk, st')) \<and> gsi_WatchConfig st = None)"
proof (intro conjI impI; elim conjE)
  assume c: "ws_cancelled st (ws_round st + n)" "\<forall>i<n. \<not> ws_cancelled st (ws_round st + i)"
  then show "\<exists>st'. gsi_WatchConfig st = Some (GrpcOk, st') \<and> ws_round st' = ws_round st + n \<and>
      ws_written st' = ws_written st @
        replicate (length (filter (ws_writable st) [ws_round st ..< ws_round st + n])) empty_change"
    by (rule gsi_watch_returns)
  from c(1) show "\<exists>st' m. cgs_WatchConfig st = Some (GrpcOk, st') \<and> m \<le> n \<and>
      ws_written st' = ws_written st @ replicate m empty_change"
    by (intro cgs_watch_returns) simp
next
  assume "\<not> ws_writable st (ws_round st + n)"
  then show "\<exists>st'. cgs_WatchConfig st = Some (GrpcOk, st')" using cgs_watch_returns [of st n] by blast
next
  assume "\<forall>i. \<not> ws_cancelled st i"
  then show "gsi_WatchConfig st = None" by (rule gsi_watch_loops)
qed

definition demo_stream :: watch_stream where
  "demo_stream = \<lparr>ws_round = 0, ws_cancelled = (\<lambda>i. i = 3), ws_writable = (\<lambda>i. i \<noteq> 1), ws_written = []\<rparr>"

theorem watch_outcomes_witness:
  "(\<exists>st'. gsi_WatchConfig demo_stream = Some (GrpcOk, st') \<and> ws_written st' = [empty_change, empty_change]) \<and>
   gsi_WatchConfig (demo_stream\<lparr>ws_cancelled := \<lambda>_. False\<rparr>) = None"
proof
  show "\<exists>st'. gsi_WatchConfig demo_stream = Some (GrpcOk, st') \<and> ws_written st' = [empty_change, empty_change]"
    using watch_outcomes [of demo_stream 3] by (auto simp: demo_stream_def numeral_3_eq_3)
  show "gsi_WatchConfig (demo_stream\<lparr>ws_cancelled := \<lambda>_. False\<rparr>) = None"
    using watch_outcomes [of "demo_stream\<lparr>ws_cancelled := \<lambda>_. False\<rparr>" 1] by (simp add: demo_stream_def)
qed

end
