(* ===== verification/Store_View.thy ===== *)
theory Store_View
  imports Http_Server Grpc_Service Auth
begin

text \<open>
  The components take a store as an argument and pass its state along, where the code reaches one shared
  object through pointers. This theory relates the two: a part of a larger state (locale \<open>state_part\<close>),
  computations on the whole that act on the part only (\<open>acts\<close>), and two stores, one on the whole and one on
  the part, whose operations are related in this way (locale \<open>store_part\<close>). Every operation of the
  components that is written against a store is then related too.
\<close>

named_theorems acts_intros \<open>rules for computations that act on a part of the state\<close>


section \<open>A part of the state\<close>

definition acts ::
  "('h \<Rightarrow> bool) \<Rightarrow> ('h \<Rightarrow> 's) \<Rightarrow> ('s \<Rightarrow> 'h \<Rightarrow> 'h) \<Rightarrow> ('h, 'a) io \<Rightarrow> ('s, 'a) io \<Rightarrow> bool" where
  "acts ok get put m' m \<longleftrightarrow> (\<forall>h. ok h \<longrightarrow> m' h = map_prod id (\<lambda>s. put s h) (m (get h)))"

lemma actsD: "acts ok get put m' m \<Longrightarrow> ok h \<Longrightarrow> m (get h) = (r, s) \<Longrightarrow> m' h = (r, put s h)"
  by (simp add: acts_def)

locale state_part =
  fixes ok :: "'h \<Rightarrow> bool" and get :: "'h \<Rightarrow> 's" and put :: "'s \<Rightarrow> 'h \<Rightarrow> 'h"
  assumes get_put: "ok h \<Longrightarrow> get (put s h) = s"
    and put_get: "ok h \<Longrightarrow> put (get h) h = h"
    and put_put: "ok h \<Longrightarrow> put s (put t h) = put s h"
    and ok_put: "ok h \<Longrightarrow> ok (put s h)"
begin

lemma actsI:
  assumes "\<And>h r s. ok h \<Longrightarrow> m (get h) = (r, s) \<Longrightarrow> m' h = (r, put s h)"
  shows "acts ok get put m' m"
proof -
  have "m' h = map_prod id (\<lambda>s. put s h) (m (get h))" if "ok h" for h
    by (cases "m (get h)") (simp add: assms [OF that])
  then show ?thesis by (simp add: acts_def)
qed

lemma acts_lift [acts_intros]: "acts ok get put (lift r) (lift r)"
  by (rule actsI) (auto simp: put_get)

lemma acts_ret [acts_intros]: "acts ok get put (ret x) (ret x)"
  by (rule actsI) (auto simp: put_get)

lemma acts_attemptE [acts_intros]:
  "acts ok get put m' m \<Longrightarrow> acts ok get put (attemptE m') (attemptE m)"
  by (rule actsI) (auto dest: actsD)

lemma acts_bindE [acts_intros]:
  assumes "acts ok get put m' m" and "\<And>x. acts ok get put (f' x) (f x)"
  shows "acts ok get put (bindE m' f') (bindE m f)"
proof (rule actsI)
  fix h r s assume h: "ok h" and run: "bindE m f (get h) = (r, s)"
  obtain q u where m: "m (get h) = (q, u)" by fastforce
  note m' = actsD [OF assms(1) h m]
  show "bindE m' f' h = (r, put s h)"
  proof (cases q)
    case (Inr x)
    with run m have "f x (get (put u h)) = (r, s)" by (simp add: bindE_def get_put [OF h])
    from actsD [OF assms(2) ok_put [OF h] this] Inr m' show ?thesis by (simp add: bindE_def put_put [OF h])
  qed (use run m m' in \<open>simp add: bindE_def\<close>)
qed

lemma acts_catchE [acts_intros]:
  assumes "acts ok get put m' m" and "acts ok get put k' k"
  shows "acts ok get put (catchE m' k') (catchE m k)"
proof (rule actsI)
  fix h r s assume h: "ok h" and run: "catchE m k (get h) = (r, s)"
  obtain q u where m: "m (get h) = (q, u)" by fastforce
  note m' = actsD [OF assms(1) h m]
  show "catchE m' k' h = (r, put s h)"
  proof (cases q)
    case (Inl e)
    with run m have "k (get (put u h)) = (r, s)" by (simp add: catchE_def get_put [OF h])
    from actsD [OF assms(2) ok_put [OF h] this] Inl m' show ?thesis by (simp add: catchE_def put_put [OF h])
  qed (use run m m' in \<open>auto simp: catchE_def\<close>)
qed

lemma acts_thenE [acts_intros]:
  "acts ok get put m' m \<Longrightarrow> acts ok get put k' k \<Longrightarrow> acts ok get put (thenE m' k') (thenE m k)"
  unfolding thenE_def by (rule acts_bindE)

end

lemma acts_if [acts_intros]:
  "acts ok get put m' m \<Longrightarrow> acts ok get put k' k \<Longrightarrow>
   acts ok get put (if b then m' else k') (if b then m else k)"
  by simp

lemma acts_option [acts_intros]:
  "acts ok get put m' m \<Longrightarrow> (\<And>x. acts ok get put (f' x) (f x)) \<Longrightarrow>
   acts ok get put (case v of None \<Rightarrow> m' | Some x \<Rightarrow> f' x) (case v of None \<Rightarrow> m | Some x \<Rightarrow> f x)"
  by (cases v) simp_all

lemma acts_sum [acts_intros]:
  "(\<And>e. acts ok get put (f' e) (f e)) \<Longrightarrow> (\<And>x. acts ok get put (g' x) (g x)) \<Longrightarrow>
   acts ok get put (case v of Inl e \<Rightarrow> f' e | Inr x \<Rightarrow> g' x) (case v of Inl e \<Rightarrow> f e | Inr x \<Rightarrow> g x)"
  by (cases v) simp_all

lemma acts_prod [acts_intros]:
  "(\<And>a b. acts ok get put (f' a b) (f a b)) \<Longrightarrow>
   acts ok get put (case v of (a, b) \<Rightarrow> f' a b) (case v of (a, b) \<Rightarrow> f a b)"
  by (cases v) simp


section \<open>A store on a part of the state\<close>

locale store_part = state_part ok get put
  for ok :: "'h \<Rightarrow> bool" and get :: "'h \<Rightarrow> 's" and put :: "'s \<Rightarrow> 'h \<Rightarrow> 'h" +
  fixes T :: "'h config_store" and S :: "'s config_store"
  assumes healthCheck: "acts ok get put (cs_healthCheck T) (cs_healthCheck S)"
    and createApplication: "acts ok get put (cs_createApplication T app) (cs_createApplication S app)"
    and getApplication: "acts ok get put (cs_getApplication T a) (cs_getApplication S a)"
    and listApplications: "acts ok get put (cs_listApplications T) (cs_listApplications S)"
    and deleteApplication: "acts ok get put (cs_deleteApplication T a) (cs_deleteApplication S a)"
    and createNamespace: "acts ok get put (cs_createNamespace T ns) (cs_createNamespace S ns)"
    and getNamespace: "acts ok get put (cs_getNamespace T a) (cs_getNamespace S a)"
    and listNamespaces: "acts ok get put (cs_listNamespaces T a e c) (cs_listNamespaces S a e c)"
    and deleteNamespace: "acts ok get put (cs_deleteNamespace T a) (cs_deleteNamespace S a)"
    and createConfig: "acts ok get put (cs_createConfig T now n k v op) (cs_createConfig S now n k v op)"
    and updateConfig: "acts ok get put (cs_updateConfig T now n k v op d) (cs_updateConfig S now n k v op d)"
    and deleteConfig: "acts ok get put (cs_deleteConfig T now n k op d) (cs_deleteConfig S now n k op d)"
    and getConfig: "acts ok get put (cs_getConfig T n k d) (cs_getConfig S n k d)"
    and listConfigs: "acts ok get put (cs_listConfigs T n d) (cs_listConfigs S n d)"
    and createRelease: "acts ok get put (cs_createRelease T now rel) (cs_createRelease S now rel)"
    and getReleases: "acts ok get put (cs_getReleases T rq) (cs_getReleases S rq)"
    and getRelease: "acts ok get put (cs_getRelease T i) (cs_getRelease S i)"
    and retireRelease: "acts ok get put (cs_retireRelease T i) (cs_retireRelease S i)"
    and publishRelease:
      "acts ok get put (cs_publishRelease T now n v op rel) (cs_publishRelease S now n v op rel)"
    and createApproval: "acts ok get put (cs_createApproval T now apr) (cs_createApproval S now apr)"
    and updateApprovalStatus:
      "acts ok get put (cs_updateApprovalStatus T now i a v) (cs_updateApprovalStatus S now i a v)"
    and getPendingApprovals: "acts ok get put (cs_getPendingApprovals T n) (cs_getPendingApprovals S n)"
    and createUser: "acts ok get put (cs_createUser T usr) (cs_createUser S usr)"
    and getUserByUsername: "acts ok get put (cs_getUserByUsername T n) (cs_getUserByUsername S n)"
    and beginTransaction: "acts ok get put (cs_beginTransaction T) (cs_beginTransaction S)"
    and commitTransaction: "acts ok get put (cs_commitTransaction T) (cs_commitTransaction S)"
    and rollbackTransaction: "acts ok get put (cs_rollbackTransaction T) (cs_rollbackTransaction S)"
begin

lemmas operations [acts_intros] = healthCheck createApplication getApplication listApplications
  deleteApplication createNamespace getNamespace listNamespaces deleteNamespace createConfig updateConfig
  deleteConfig getConfig listConfigs createRelease getReleases getRelease retireRelease publishRelease
  createApproval updateApprovalStatus getPendingApprovals createUser getUserByUsername beginTransaction
  commitTransaction rollbackTransaction

text \<open>\<^verbatim>\<open>NamespaceManager\<close> and \<^verbatim>\<open>UserManager\<close>.\<close>

lemma manager [acts_intros]:
  "acts ok get put (registerApplication T now a n d) (registerApplication S now a n d)"
  "acts ok get put (removeApplication T a) (removeApplication S a)"
  "acts ok get put (nm_listApplications T) (nm_listApplications S)"
  "acts ok get put (nm_getApplication T a) (nm_getApplication S a)"
  "acts ok get put (createCluster T now a e c) (createCluster S now a e c)"
  "acts ok get put (listClusters T a e) (listClusters S a e)"
  "acts ok get put (nm_createNamespace T now a e c n t p) (nm_createNamespace S now a e c n t p)"
  "acts ok get put (nm_deleteNamespace T a) (nm_deleteNamespace S a)"
  "acts ok get put (nm_getNamespace T a) (nm_getNamespace S a)"
  "acts ok get put (nm_listNamespaces T a e c) (nm_listNamespaces S a e c)"
  unfolding registerApplication_def removeApplication_def nm_listApplications_def nm_getApplication_def
    createCluster_def listClusters_def nm_createNamespace_def nm_deleteNamespace_def nm_getNamespace_def
    nm_listNamespaces_def Let_def
  by (intro acts_intros)+

lemma users [acts_intros]:
  "acts ok get put (um_createUser T sha now n p r) (um_createUser S sha now n p r)"
  "acts ok get put (authenticate T sha n p) (authenticate S sha n p)"
  unfolding um_createUser_def authenticate_def by (intro acts_intros)+

text \<open>\<^verbatim>\<open>PublishEngine\<close>.\<close>

lemma engine [acts_intros]:
  "acts ok get put (getDraftChanges T n) (getDraftChanges S n)"
  "acts ok get put (addDraftChange T now n k v op) (addDraftChange S now n k v op)"
  "acts ok get put (removeDraftChange T now n k op) (removeDraftChange S now n k op)"
  "acts ok get put (publish T now n v op rel) (publish S now n v op rel)"
  "acts ok get put (submitForApproval T now n op) (submitForApproval S now n op)"
  "acts ok get put (approve T now i op v) (approve S now i op v)"
  "acts ok get put (reject T now i op v) (reject S now i op v)"
  "acts ok get put (pe_getPendingApprovals T n) (pe_getPendingApprovals S n)"
  "acts ok get put (publishGrayscale T dump now n v op pc wl rel) (publishGrayscale S dump now n v op pc wl rel)"
  "acts ok get put (fullRollout T now n op i) (fullRollout S now n op i)"
  "acts ok get put (getReleaseHistory T n pg sz) (getReleaseHistory S n pg sz)"
  unfolding getDraftChanges_def addDraftChange_def removeDraftChange_def publish_def submitForApproval_def
    approve_def reject_def pe_getPendingApprovals_def publishGrayscale_def fullRollout_def
    getReleaseHistory_def Let_def
  by (intro acts_intros)+

text \<open>\<^verbatim>\<open>HttpSession\<close> and \<^verbatim>\<open>ConfigGrpcService\<close>.\<close>

lemma route [acts_intros]:
  "acts ok get put (routeRequest J T now rq) (routeRequest J S now rq)"
  unfolding routeRequest_def http_handleHealth_def http_handleLogin_def http_handleCreateApp_def
    http_handleListApps_def http_handleGetApp_def http_handleDeleteApp_def http_handleListNamespaces_def
    http_handleCreateNamespace_def create_namespace_def http_handleGetConfig_def http_handleSetConfig_def
    set_draft_def http_handleDeleteConfig_def http_handlePublish_def http_handleGetReleases_def
    string_at_def Let_def
  by (intro acts_intros)

lemma request [acts_intros]:
  "acts ok get put (handleRequest J T now rq) (handleRequest J S now rq)"
  unfolding handleRequest_def by (intro acts_intros)

lemma services [acts_intros]:
  "acts ok get put (cgs_GetConfig T kr) (cgs_GetConfig S kr)"
  "acts ok get put (cgs_SetConfig T now kr) (cgs_SetConfig S now kr)"
  "acts ok get put (cgs_DeleteConfig T now kr) (cgs_DeleteConfig S now kr)"
  "acts ok get put (cgs_PublishRelease T now pr) (cgs_PublishRelease S now pr)"
  "acts ok get put (cgs_GetReleaseHistory T hr) (cgs_GetReleaseHistory S hr)"
  unfolding cgs_GetConfig_def cgs_SetConfig_def cgs_DeleteConfig_def cgs_PublishRelease_def
    cgs_GetReleaseHistory_def Let_def
  by (intro acts_intros)+

lemma other_services [acts_intros]:
  "acts ok get put (gsi_GetConfig T kr) (gsi_GetConfig S kr)"
  "acts ok get put (gsi_SetConfig T now kr) (gsi_SetConfig S now kr)"
  "acts ok get put (gsi_DeleteConfig T now kr) (gsi_DeleteConfig S now kr)"
  "acts ok get put (gsi_PublishRelease T now pr) (gsi_PublishRelease S now pr)"
  "acts ok get put (gsi_GetReleaseHistory T hr) (gsi_GetReleaseHistory S hr)"
  unfolding gsi_GetConfig_def gsi_SetConfig_def gsi_DeleteConfig_def gsi_PublishRelease_def
    gsi_GetReleaseHistory_def Let_def
  by (intro acts_intros)+

text \<open>The handler classes of \<^verbatim>\<open>src/api\<close>.\<close>

lemma handlers [acts_intros]:
  "acts ok get put (ConfigHandler_handleGetConfig J T n k) (ConfigHandler_handleGetConfig J S n k)"
  "acts ok get put (ConfigHandler_handleSetConfig J T now n k b op) (ConfigHandler_handleSetConfig J S now n k b op)"
  "acts ok get put (ConfigHandler_handleDeleteConfig J T now n k op) (ConfigHandler_handleDeleteConfig J S now n k op)"
  "acts ok get put (NamespaceHandler_handleCreateApp J T now b) (NamespaceHandler_handleCreateApp J S now b)"
  "acts ok get put (NamespaceHandler_handleListApps J T) (NamespaceHandler_handleListApps J S)"
  "acts ok get put (NamespaceHandler_handleGetApp J T a) (NamespaceHandler_handleGetApp J S a)"
  "acts ok get put (NamespaceHandler_handleDeleteApp J T a) (NamespaceHandler_handleDeleteApp J S a)"
  "acts ok get put (NamespaceHandler_handleCreateNamespace J T now b) (NamespaceHandler_handleCreateNamespace J S now b)"
  "acts ok get put (NamespaceHandler_handleListNamespaces J T a) (NamespaceHandler_handleListNamespaces J S a)"
  "acts ok get put (PublishHandler_handlePublish J T now n b op) (PublishHandler_handlePublish J S now n b op)"
  "acts ok get put (PublishHandler_handleGetReleases J T n) (PublishHandler_handleGetReleases J S n)"
  "acts ok get put (HealthHandler_handleHealth J T) (HealthHandler_handleHealth J S)"
  unfolding ConfigHandler_handleGetConfig_def ConfigHandler_handleSetConfig_def set_draft_def
    ConfigHandler_handleDeleteConfig_def NamespaceHandler_handleCreateApp_def NamespaceHandler_handleListApps_def
    NamespaceHandler_handleGetApp_def NamespaceHandler_handleDeleteApp_def NamespaceHandler_handleCreateNamespace_def
    create_namespace_def NamespaceHandler_handleListNamespaces_def PublishHandler_handlePublish_def
    PublishHandler_handleGetReleases_def HealthHandler_handleHealth_def string_at_const_def Let_def
  by (intro acts_intros)+

end

end
