(* ===== verification/Request_Programs.thy ===== *)
theory Request_Programs
  imports Http_Server
begin

text \<open>
  The request handlers of \<^verbatim>\<open>src/server/http_server.cpp\<close> as the threads of the I/O pool run them. Every call
  of the store is atomic, because its member functions hold the store's mutex, and between two calls of a
  handler other threads may run theirs. A program is a handler with the points between its calls: it is
  over, or it makes one call and goes on with what remains.
\<close>


section \<open>Programs\<close>

datatype ('s, 'a) prog = Done "'a result" | Atomic "'s \<Rightarrow> ('s, 'a) prog \<times> 's"

lemma prog_induct [case_names Done Atomic]:
  assumes "\<And>r. P (Done r)" and "\<And>g. (\<And>s. P (fst (g s))) \<Longrightarrow> P (Atomic g)"
  shows "P p"
proof (induction p)
  case (Atomic g)
  have "P (fst (g s))" for s by (rule Atomic.IH [of "g s"]) (simp_all add: prod_set_defs fsts.simps)
  then show ?case by (rule assms(2))
qed (rule assms(1))

text \<open>One store call, and the sequence of two programs.\<close>

definition call :: "('s, 'a) io \<Rightarrow> ('s, 'a) prog" where
  "call m = Atomic (\<lambda>s. case m s of (r, t) \<Rightarrow> (Done r, t))"

primrec bindP :: "('s, 'a) prog \<Rightarrow> ('a \<Rightarrow> ('s, 'b) prog) \<Rightarrow> ('s, 'b) prog" where
  "bindP (Done r) f = (case r of Inl e \<Rightarrow> Done (Inl e) | Inr x \<Rightarrow> f x)"
| "bindP (Atomic g) f = Atomic (\<lambda>s. map_prod (\<lambda>p. bindP p f) id (g s))"

text \<open>A program that runs alone, without other threads.\<close>

primrec run_prog :: "('s, 'a) prog \<Rightarrow> ('s, 'a) io" where
  "run_prog (Done r) = (\<lambda>s. (r, s))"
| "run_prog (Atomic g) = (\<lambda>s. case map_prod run_prog id (g s) of (k, t) \<Rightarrow> k t)"

lemma run_call [simp]: "run_prog (call m) = m"
  by (rule ext) (simp add: call_def split: prod.splits)

lemma run_bindP [simp]: "run_prog (bindP p f) = bindE (run_prog p) (\<lambda>x. run_prog (f x))"
proof (induction p rule: prog_induct)
  case (Done r)
  show ?case by (rule ext) (simp add: bindE_def split: sum.split)
next
  case (Atomic g)
  show ?case
  proof
    fix s
    obtain p t where g: "g s = (p, t)" by fastforce
    with Atomic [of s] show "run_prog (bindP (Atomic g) f) s = bindE (run_prog (Atomic g)) (\<lambda>x. run_prog (f x)) s"
      by (simp add: bindE_def)
  qed
qed

lemma run_Done: "run_prog (Done r) = lift r"
  by (rule ext) (simp add: lift_def)

text \<open>At most \<open>n\<close> calls; every call keeps a relation between the states before and after.\<close>

inductive within :: "nat \<Rightarrow> ('s, 'a) prog \<Rightarrow> bool" where
  within_done: "within n (Done r)"
| within_call: "(\<And>s. within n (fst (g s))) \<Longrightarrow> within (Suc n) (Atomic g)"

inductive calls_keep :: "('s \<Rightarrow> 's \<Rightarrow> bool) \<Rightarrow> ('s, 'a) prog \<Rightarrow> bool" for P :: "'s \<Rightarrow> 's \<Rightarrow> bool" where
  keep_done: "calls_keep P (Done r)"
| keep_call: "(\<And>s. P s (snd (g s)) \<and> calls_keep P (fst (g s))) \<Longrightarrow> calls_keep P (Atomic g)"

inductive_simps within_simps [simp]: "within n (Done r)" "within 0 (Atomic g)" "within (Suc n) (Atomic g)"
inductive_simps calls_keep_simps [simp]: "calls_keep P (Done r)" "calls_keep P (Atomic g)"

lemma within_mono: "within m p \<Longrightarrow> m \<le> n \<Longrightarrow> within n p"
proof (induction arbitrary: n rule: within.induct)
  case (within_call m g)
  then show ?case by (cases n) auto
qed simp

lemma within_bindP: "within m p \<Longrightarrow> (\<And>x. within n (f x)) \<Longrightarrow> within (m + n) (bindP p f)"
proof (induction rule: within.induct)
  case (within_done m r)
  then show ?case by (cases r) (auto intro: within_mono [where m = n])
qed simp

lemma within_calling: "within (Suc n) (call m)"
  by (auto simp: call_def split: prod.split)

lemma calls_keep_bindP: "calls_keep P p \<Longrightarrow> (\<And>x. calls_keep P (f x)) \<Longrightarrow> calls_keep P (bindP p f)"
proof (induction rule: calls_keep.induct)
  case (keep_done r)
  then show ?case by (cases r) auto
qed simp

lemma calls_keep_call: "keeps P m \<Longrightarrow> calls_keep P (call m)"
  by (auto simp: call_def keeps_def split: prod.split)

lemma calls_keep_if: "calls_keep P p \<Longrightarrow> calls_keep P q \<Longrightarrow> calls_keep P (if b then p else q)"
  by simp

text \<open>What may be left of a program after some of its calls, made in any states.\<close>

inductive remains :: "('s, 'a) prog \<Rightarrow> ('s, 'a) prog \<Rightarrow> bool" for p :: "('s, 'a) prog" where
  remains_self: "remains p p"
| remains_call: "remains p (Atomic g) \<Longrightarrow> remains p (fst (g s))"

lemma remains_keep: "remains p q \<Longrightarrow> calls_keep P p \<Longrightarrow> calls_keep P q"
  by (induction rule: remains.induct) simp_all

lemma remains_within: "remains p q \<Longrightarrow> within n p \<Longrightarrow> within n q"
proof (induction rule: remains.induct)
  case (remains_call g s)
  then show ?case by (cases n) (auto intro: within_mono)
qed


section \<open>Handlers with more than one store call\<close>

text \<open>\<^verbatim>\<open>NamespaceManager::registerApplication\<close> and \<^verbatim>\<open>createNamespace\<close>: a lookup, then the insertion.\<close>

definition p_registerApplication ::
  "'s config_store \<Rightarrow> string \<Rightarrow> string \<Rightarrow> string \<Rightarrow> string option \<Rightarrow> ('s, bool) prog" where
  "p_registerApplication S now appId name description =
     bindP (call (cs_getApplication S appId)) (\<lambda>existing.
       if existing \<noteq> None then Done (Inr False)
       else call (cs_createApplication S \<lparr>app_app_id = appId, app_name = name,
              app_description = description, app_created_at = now\<rparr>))"

definition p_createNamespace ::
  "'s config_store \<Rightarrow> string \<Rightarrow> string \<Rightarrow> string \<Rightarrow> string \<Rightarrow> string \<Rightarrow> string \<Rightarrow> string option \<Rightarrow>
   ('s, bool) prog" where
  "p_createNamespace S now appId env cluster name type parentNamespaceId =
     bindP (call (cs_getApplication S appId)) (\<lambda>app.
       if app = None then Done (Inr False)
       else call (cs_createNamespace S \<lparr>ns_id = makeNamespaceId appId env cluster name,
              ns_app_id = appId, ns_env = env, ns_cluster = cluster, ns_name = name,
              ns_type = type, ns_parent_namespace_id = parentNamespaceId,
              ns_approval_enabled = Some False, ns_created_at = now\<rparr>))"

definition p_set_draft ::
  "'j json_lib \<Rightarrow> 's config_store \<Rightarrow> string \<Rightarrow> string \<Rightarrow> string \<Rightarrow> string \<Rightarrow> string \<Rightarrow> ('s, 'j) prog" where
  "p_set_draft J S now namespaceId key value operatorId =
     bindP (call (cs_getConfig S namespaceId key False)) (\<lambda>existing.
       bindP (if existing \<noteq> None then call (cs_updateConfig S now namespaceId key value operatorId True)
              else call (cs_createConfig S now namespaceId key value operatorId))
         (\<lambda>_. Done (Inr (api_success J))))"

text \<open>Reading a string member of the request body.\<close>

definition member_string :: "'j json_lib \<Rightarrow> 'j \<Rightarrow> string \<Rightarrow> string result" where
  "member_string J body k = bindR (j_at J body k) (j_string J)"

definition p_handleCreateApp ::
  "'j json_lib \<Rightarrow> 's config_store \<Rightarrow> string \<Rightarrow> string \<Rightarrow> ('s, 'j) prog" where
  "p_handleCreateApp J S now text =
     bindP (Done (j_parse J text)) (\<lambda>body.
       if \<not> j_contains J body ''app_id'' \<or> \<not> j_contains J body ''name''
       then Done (Inr (api_error J 400 ''Missing required fields: app_id, name''))
       else bindP (Done (j_at J body ''app_id'')) (\<lambda>ja.
         bindP (Done (j_at J body ''name'')) (\<lambda>jn.
         bindP (Done (j_string J ja)) (\<lambda>appId.
         bindP (Done (j_string J jn)) (\<lambda>name.
         bindP (if j_contains J body ''description''
                then bindP (Done (member_string J body ''description'')) (\<lambda>d. Done (Inr (Some d)))
                else Done (Inr None)) (\<lambda>description.
         bindP (p_registerApplication S now appId name description) (\<lambda>ok.
           if \<not> ok then Done (Inr (api_error J 409 ''Application already exists''))
           else Done (Inr (j_object J [(''app_id'', ja), (''name'', jn)])))))))))"

definition p_handleListNamespaces :: "'j json_lib \<Rightarrow> 's config_store \<Rightarrow> string \<Rightarrow> ('s, 'j) prog" where
  "p_handleListNamespaces J S appId =
     bindP (call (nm_listApplications S)) (\<lambda>_.
       bindP (call (cs_listNamespaces S appId [] [])) (\<lambda>found.
         Done (Inr (j_object J [(''namespaces'', j_array J (map (ns_json J) found))]))))"

definition p_handleCreateNamespace ::
  "'j json_lib \<Rightarrow> 's config_store \<Rightarrow> string \<Rightarrow> string \<Rightarrow> ('s, 'j) prog" where
  "p_handleCreateNamespace J S now text =
     bindP (Done (j_parse J text)) (\<lambda>body.
     bindP (Done (member_string J body ''app_id'')) (\<lambda>appId.
     bindP (Done (member_string J body ''env'')) (\<lambda>env.
     bindP (Done (j_value J body ''cluster'' ''default'')) (\<lambda>cluster.
     bindP (Done (member_string J body ''name'')) (\<lambda>name.
     bindP (Done (j_value J body ''type'' ''private'')) (\<lambda>type.
     bindP (if j_contains J body ''parent_namespace_id''
            then bindP (Done (member_string J body ''parent_namespace_id'')) (\<lambda>p. Done (Inr (Some p)))
            else Done (Inr None)) (\<lambda>parent.
     bindP (p_createNamespace S now appId env cluster name type parent) (\<lambda>ok.
       if \<not> ok then Done (Inr (api_error J 400 ''Failed to create namespace''))
       else Done (Inr (j_object J [(''id'',
         j_str J (appId @ ''/'' @ env @ ''/'' @ cluster @ ''/'' @ name))]))))))))))"

definition p_handleSetConfig ::
  "'j json_lib \<Rightarrow> 's config_store \<Rightarrow> string \<Rightarrow> string \<Rightarrow> string \<Rightarrow> string \<Rightarrow> ('s, 'j) prog" where
  "p_handleSetConfig J S now text ns key =
     bindP (Done (j_parse J text)) (\<lambda>body.
     bindP (Done (member_string J body ''value'')) (\<lambda>value.
       p_set_draft J S now ns key value ''system''))"

lemma run_member [simp]: "lift (member_string J body k) = string_at J body k"
  by (cases "j_at J body k") (auto simp: member_string_def string_at_def lift_def raise_def fun_eq_iff bindE_def)

lemma run_if [simp]: "run_prog (if b then p else q) = (if b then run_prog p else run_prog q)"
  by simp

lemmas p_managers = p_registerApplication_def p_createNamespace_def p_set_draft_def
lemmas p_handlers = p_handleCreateApp_def p_handleListNamespaces_def p_handleCreateNamespace_def p_handleSetConfig_def

lemma lift_ret [simp]: "lift (Inr x) = ret x"
  by (rule ext) (simp add: lift_def ret_def)

lemma run_managers:
  "run_prog (p_registerApplication S now a n d) = registerApplication S now a n d"
  "run_prog (p_createNamespace S now a env cl n ty par) = nm_createNamespace S now a env cl n ty par"
  "run_prog (p_set_draft J S now n' k v op) = set_draft J S now n' k v op"
  by (simp_all add: p_managers registerApplication_def nm_createNamespace_def set_draft_def thenE_def run_Done
      if_distrib [of run_prog] del: run_prog.simps bindP.simps cong: if_cong)

lemma run_handlers:
  "run_prog (p_handleCreateApp J S now b) = http_handleCreateApp J S now b"
  "run_prog (p_handleListNamespaces J S a) = http_handleListNamespaces J S a"
  "run_prog (p_handleCreateNamespace J S now b) = http_handleCreateNamespace J S now b"
  "run_prog (p_handleSetConfig J S now b n k) = http_handleSetConfig J S now b n k"
  by (simp_all add: p_handlers http_handleCreateApp_def http_handleListNamespaces_def http_handleCreateNamespace_def
      http_handleSetConfig_def create_namespace_def run_managers thenE_def run_Done if_distrib [of run_prog] del: run_prog.simps bindP.simps cong: if_cong)


section \<open>Requests\<close>

text \<open>
  \<^verbatim>\<open>handleRequest\<close>: the four routes whose handlers make two store calls, in the order of the code; every other
  route makes at most one, so that its handler is one call with the computation around it.
\<close>

definition p_routeRequest ::
  "'j json_lib \<Rightarrow> 's config_store \<Rightarrow> string \<Rightarrow> http_request \<Rightarrow> ('s, nat \<times> 'j) prog" where
  "p_routeRequest J S now rq =
     (let target = req_target rq; meth = req_method rq; text = req_body rq;
          ok = (\<lambda>p. bindP p (\<lambda>body. Done (Inr (200, body))))
      in if target = ''/api/v1/apps'' \<and> meth = PostV then ok (p_handleCreateApp J S now text)
         else if str_find ''/api/v1/apps/'' target = Some 0 \<and> str_find ''/namespaces'' target \<noteq> None \<and> meth = GetV
           then ok (p_handleListNamespaces J S (extractPathParam target ''/api/v1/apps/'' ''/namespaces''))
         else if target = ''/api/v1/namespaces'' \<and> meth = PostV then ok (p_handleCreateNamespace J S now text)
         else if str_find ''/api/v1/namespaces/'' target = Some 0 \<and> str_find ''/keys/'' target \<noteq> None \<and> meth = PutV
           then ok (p_handleSetConfig J S now text
             (extractPathParam target ''/api/v1/namespaces/'' ''/keys/'') (extractPathParam target ''/keys/'' []))
         else call (routeRequest J S now rq))"

definition p_handleRequest ::
  "'j json_lib \<Rightarrow> 's config_store \<Rightarrow> string \<Rightarrow> http_request \<Rightarrow> ('s, http_response) prog" where
  "p_handleRequest J S now rq =
     bindP (p_routeRequest J S now rq) (\<lambda>(status, body). Done (sendResponse J status body))"

lemma prefix_targets:
  "str_find ''/api/v1/apps/'' target = Some 0 \<Longrightarrow> target \<noteq> ''/health'' \<and> target \<noteq> ''/api/v1/auth/login'' \<and> target \<noteq> ''/api/v1/apps''"
  "str_find ''/api/v1/namespaces/'' target = Some 0 \<Longrightarrow> target \<noteq> ''/health'' \<and> target \<noteq> ''/api/v1/auth/login'' \<and>
     target \<noteq> ''/api/v1/apps'' \<and> target \<noteq> ''/api/v1/namespaces'' \<and> str_find ''/api/v1/apps/'' target \<noteq> Some 0"
proof -
  show "target \<noteq> ''/health'' \<and> target \<noteq> ''/api/v1/auth/login'' \<and> target \<noteq> ''/api/v1/apps''"
    if "str_find ''/api/v1/apps/'' target = Some 0" using that by (auto simp: str_find_zero)
  assume "str_find ''/api/v1/namespaces/'' target = Some 0"
  then obtain u where "target = ''/api/v1/namespaces/'' @ u"
    by (metis str_find_zero append_take_drop_id)
  with namespace_targets [of u] show "target \<noteq> ''/health'' \<and> target \<noteq> ''/api/v1/auth/login'' \<and>
     target \<noteq> ''/api/v1/apps'' \<and> target \<noteq> ''/api/v1/namespaces'' \<and> str_find ''/api/v1/apps/'' target \<noteq> Some 0" by simp
qed

lemma run_route: "run_prog (p_routeRequest J S now rq) = routeRequest J S now rq"
proof -
  let ?t = "req_target rq" and ?m = "req_method rq"
  let ?create = "?t = ''/api/v1/apps'' \<and> ?m = PostV"
    and ?list = "str_find ''/api/v1/apps/'' ?t = Some 0 \<and> str_find ''/namespaces'' ?t \<noteq> None \<and> ?m = GetV"
    and ?space = "?t = ''/api/v1/namespaces'' \<and> ?m = PostV"
    and ?set = "str_find ''/api/v1/namespaces/'' ?t = Some 0 \<and> str_find ''/keys/'' ?t \<noteq> None \<and> ?m = PutV"
  have rest: "p_routeRequest J S now rq = call (routeRequest J S now rq)"
    if "\<not> ?create" "\<not> ?list" "\<not> ?space" "\<not> ?set"
    unfolding p_routeRequest_def Let_def using that by (simp only: if_False)
  consider ?create | ?list | ?space | ?set | "p_routeRequest J S now rq = call (routeRequest J S now rq)"
    using rest by argo
  then show ?thesis
  proof cases
    case 1
    then show ?thesis
      by (simp add: p_routeRequest_def routeRequest_def Let_def run_handlers run_Done del: run_prog.simps bindP.simps not_None_eq)
  next
    case 2
    from prefix_targets(1) [OF conjunct1 [OF 2]] 2 show ?thesis
      by (simp add: p_routeRequest_def routeRequest_def Let_def run_handlers run_Done del: run_prog.simps bindP.simps not_None_eq)
  next
    case 3
    then show ?thesis
      by (simp add: p_routeRequest_def routeRequest_def Let_def run_handlers run_Done str_find_zero del: run_prog.simps bindP.simps not_None_eq)
  next
    case 4
    from prefix_targets(2) [OF conjunct1 [OF 4]] 4 show ?thesis
      by (simp add: p_routeRequest_def routeRequest_def Let_def run_handlers run_Done del: run_prog.simps bindP.simps not_None_eq)
  qed simp
qed

text \<open>A request alone on its threads is the sequential handler.\<close>

lemma run_request: "run_prog (p_handleRequest J S now rq) = handleRequest J S now rq"
  by (simp add: p_handleRequest_def handleRequest_def run_route run_Done split_def del: run_prog.simps bindP.simps)

lemma within_head: "within 0 p \<Longrightarrow> (\<And>x. within n (f x)) \<Longrightarrow> within n (bindP p f)"
  using within_bindP [of 0 p n f] by simp

lemma within_first: "(\<And>x. within n (f x)) \<Longrightarrow> within n (bindP (Done r) f)"
  by (rule within_head) simp

lemma within_optional:
  "(\<And>x. within n (f x)) \<Longrightarrow> within n (bindP (if b then bindP (Done r) (\<lambda>y. Done (h y)) else Done r') f)"
  by (rule within_head) (simp split: sum.split)

lemma within_tail: "within n p \<Longrightarrow> (\<And>x. within 0 (f x)) \<Longrightarrow> within n (bindP p f)"
  using within_bindP [of n p 0 f] by simp

lemma within_then: "(\<And>x. within n (f x)) \<Longrightarrow> within (Suc n) (bindP (call m) f)"
  using within_bindP [OF within_calling [of 0 m], of n f] by simp

lemma within_single: "within 2 (call m)"
  using within_calling [of 1 m] by (simp add: numeral_2_eq_2)

lemma within_if: "within n p \<Longrightarrow> within n q \<Longrightarrow> within n (if b then p else q)"
  by simp

lemma within_managers:
  "within 2 (p_registerApplication S now a n d)" "within 2 (p_createNamespace S now a env cl n ty par)"
  "within 2 (p_set_draft J S now n' k v op)"
  by (auto simp: p_managers numeral_2_eq_2 intro!: within_then within_calling)

lemma within_answer:
  "within 2 (bindP (p_registerApplication S now a n d) (\<lambda>ok. if \<not> ok then Done x else Done y))"
  "within 2 (bindP (p_createNamespace S now a env cl n ty par) (\<lambda>ok. if \<not> ok then Done x else Done y))"
  by (rule within_tail; simp add: within_managers)+

lemma within_handlers:
  "within 2 (p_handleCreateApp J S now b)" "within 2 (p_handleListNamespaces J S a)"
  "within 2 (p_handleCreateNamespace J S now b)" "within 2 (p_handleSetConfig J S now b n k)"
proof -
  show "within 2 (p_handleCreateApp J S now b)" "within 2 (p_handleCreateNamespace J S now b)"
    unfolding p_handlers by (intro within_if within_done within_first within_optional within_answer)+
  show "within 2 (p_handleSetConfig J S now b n k)"
    unfolding p_handlers by (intro within_head within_managers) simp_all
  show "within 2 (p_handleListNamespaces J S a)"
    unfolding p_handlers numeral_2_eq_2 by (intro within_then) simp
qed

text \<open>Every request makes at most two store calls.\<close>

lemma within_request: "within 2 (p_handleRequest J S now rq)"
proof -
  have "within 2 (p_routeRequest J S now rq)"
    unfolding p_routeRequest_def Let_def
    by (intro within_if within_tail within_handlers within_single within_done)
  then show ?thesis unfolding p_handleRequest_def by (rule within_tail) (simp split: prod.split)
qed

end
