(* ===== verification/Server_Lifecycle.thy ===== *)
theory Server_Lifecycle
  imports Request_Programs Grpc_Service
begin

text \<open>
  The life of the servers around the request handlers: \<^verbatim>\<open>HttpServer\<close> (\<^verbatim>\<open>start\<close>, \<^verbatim>\<open>stop\<close>, \<^verbatim>\<open>doAccept\<close>) and the
  asynchronous steps of \<^verbatim>\<open>HttpSession\<close> (\<^verbatim>\<open>run\<close>, \<^verbatim>\<open>readRequest\<close>, \<^verbatim>\<open>sendResponse\<close>) of \<^verbatim>\<open>src/server/http_server.cpp\<close>
  as a step relation, and \<^verbatim>\<open>GrpcServer::start\<close> and \<^verbatim>\<open>stop\<close> of \<^verbatim>\<open>src/server/grpc_server.cpp\<close>. The network and
  the scheduler are the nondeterminism of the steps: which operation completes next, with what, and which
  of the request handlers that run on the pool's threads makes its next store call. \<^verbatim>\<open>io_context::run\<close>
  returns when no asynchronous operation is outstanding; an exception of a completion handler leaves it.
\<close>


section \<open>The HTTP server\<close>

text \<open>
  A session waits for its request, is handled by a thread with a part of the handler still to run, waits
  for its response to be written, or is over.
\<close>

datatype 's session = Reading | Handling "('s, http_response) prog" | Writing http_response | Closed | Dropped

record 's http_server =
  hs_store :: 's
  hs_acceptor_open :: bool
  hs_accepting :: nat
  hs_sessions :: "'s session list"
  hs_crashed :: bool

definition new_server :: "'s \<Rightarrow> 's http_server" where
  "new_server s = \<lparr>hs_store = s, hs_acceptor_open = True, hs_accepting = 0, hs_sessions = [],
     hs_crashed = False\<rparr>"

text \<open>\<^verbatim>\<open>async_accept\<close> starts one more operation; its handler is \<open>on_accept\<close>.\<close>

definition doAccept :: "'s http_server \<Rightarrow> 's http_server" where
  "doAccept h = h\<lparr>hs_accepting := Suc (hs_accepting h)\<rparr>"

definition server_start :: "'s http_server \<Rightarrow> 's http_server" where
  "server_start h = doAccept h"

definition server_stop :: "'s http_server \<Rightarrow> 's http_server" where
  "server_stop h = h\<lparr>hs_acceptor_open := False\<rparr>"

text \<open>The destructor deletes the acceptor, which closes it; nobody runs the handler of the pending accept.\<close>

definition delete_HttpServer :: "'s http_server \<Rightarrow> 's http_server" where
  "delete_HttpServer h = h\<lparr>hs_acceptor_open := False\<rparr>"

definition session_run :: "'s http_server \<Rightarrow> 's http_server" where
  "session_run h = h\<lparr>hs_sessions := hs_sessions h @ [Reading]\<rparr>"

definition on_accept :: "bool \<Rightarrow> 's http_server \<Rightarrow> 's http_server" where
  "on_accept ec h =
     (let h1 = h\<lparr>hs_accepting := hs_accepting h - 1\<rparr>
      in doAccept (if \<not> ec then session_run h1 else h1))"

definition set_session :: "nat \<Rightarrow> 's session \<Rightarrow> 's http_server \<Rightarrow> 's http_server" where
  "set_session i x h = h\<lparr>hs_sessions := (hs_sessions h)[i := x]\<rparr>"

text \<open>The handler of \<^verbatim>\<open>async_read\<close>: an error drops the session, with a request \<^verbatim>\<open>handleRequest\<close> begins.\<close>

definition on_read ::
  "'j json_lib \<Rightarrow> 's config_store \<Rightarrow> string \<Rightarrow> nat \<Rightarrow> http_request option \<Rightarrow> 's http_server \<Rightarrow> 's http_server" where
  "on_read J S now i got h =
     (case got of
        None \<Rightarrow> set_session i Dropped h
      | Some rq \<Rightarrow> set_session i (Handling (p_handleRequest J S now rq)) h)"

text \<open>The handler of a session makes its next store call.\<close>

definition on_call :: "nat \<Rightarrow> ('s \<Rightarrow> ('s, http_response) prog \<times> 's) \<Rightarrow> 's http_server \<Rightarrow> 's http_server" where
  "on_call i g h = (case g (hs_store h) of (p, t) \<Rightarrow> set_session i (Handling p) (h\<lparr>hs_store := t\<rparr>))"

text \<open>The handler is over: \<^verbatim>\<open>async_write\<close> starts, or its exception leaves \<^verbatim>\<open>io_context::run\<close>.\<close>

definition on_handled :: "nat \<Rightarrow> http_response result \<Rightarrow> 's http_server \<Rightarrow> 's http_server" where
  "on_handled i r h =
     (case r of Inl e \<Rightarrow> h\<lparr>hs_crashed := True\<rparr> | Inr resp \<Rightarrow> set_session i (Writing resp) h)"

definition on_write :: "nat \<Rightarrow> 's http_server \<Rightarrow> 's http_server" where
  "on_write i h = set_session i Closed h"

text \<open>A thread that runs a request handler takes no other completion.\<close>

definition handled :: "'s session \<Rightarrow> bool" where
  "handled x = (case x of Handling _ \<Rightarrow> True | _ \<Rightarrow> False)"

definition busy :: "'s http_server \<Rightarrow> nat" where
  "busy h = length (filter handled (hs_sessions h))"

text \<open>
  A step of the server with \<open>N\<close> threads in \<^verbatim>\<open>io_context::run\<close>. A completed operation needs a free thread; the
  handlers of the other sessions go on in any order.
\<close>

inductive http_step :: "'j json_lib \<Rightarrow> 's config_store \<Rightarrow> nat \<Rightarrow> 's http_server \<Rightarrow> 's http_server \<Rightarrow> bool"
  for J :: "'j json_lib" and S :: "'s config_store" and N :: nat where
  accepted: "\<not> hs_crashed h \<Longrightarrow> busy h < N \<Longrightarrow> 0 < hs_accepting h \<Longrightarrow> hs_acceptor_open h \<Longrightarrow>
    http_step J S N h (on_accept False h)"
| accept_failed: "\<not> hs_crashed h \<Longrightarrow> busy h < N \<Longrightarrow> 0 < hs_accepting h \<Longrightarrow> http_step J S N h (on_accept True h)"
| read_done: "\<not> hs_crashed h \<Longrightarrow> busy h < N \<Longrightarrow> i < length (hs_sessions h) \<Longrightarrow> hs_sessions h ! i = Reading \<Longrightarrow>
    http_step J S N h (on_read J S now i got h)"
| store_call: "\<not> hs_crashed h \<Longrightarrow> i < length (hs_sessions h) \<Longrightarrow> hs_sessions h ! i = Handling (Atomic g) \<Longrightarrow>
    http_step J S N h (on_call i g h)"
| request_over: "\<not> hs_crashed h \<Longrightarrow> i < length (hs_sessions h) \<Longrightarrow> hs_sessions h ! i = Handling (Done r) \<Longrightarrow>
    http_step J S N h (on_handled i r h)"
| write_done: "\<not> hs_crashed h \<Longrightarrow> busy h < N \<Longrightarrow> i < length (hs_sessions h) \<Longrightarrow> hs_sessions h ! i = Writing resp \<Longrightarrow>
    http_step J S N h (on_write i h)"
| stopped: "\<not> hs_crashed h \<Longrightarrow> http_step J S N h (server_stop h)"

inductive http_run :: "'j json_lib \<Rightarrow> 's config_store \<Rightarrow> nat \<Rightarrow> 's \<Rightarrow> 's http_server \<Rightarrow> bool"
  for J :: "'j json_lib" and S :: "'s config_store" and N :: nat and s0 :: 's where
  run_start: "http_run J S N s0 (server_start (new_server s0))"
| run_step: "http_run J S N s0 h \<Longrightarrow> http_step J S N h h' \<Longrightarrow> http_run J S N s0 h'"

definition in_flight :: "'s session \<Rightarrow> bool" where
  "in_flight x = (case x of Closed \<Rightarrow> False | Dropped \<Rightarrow> False | _ \<Rightarrow> True)"

definition outstanding :: "'s http_server \<Rightarrow> nat" where
  "outstanding h = hs_accepting h + length (filter in_flight (hs_sessions h))"

definition run_returns :: "'s http_server \<Rightarrow> bool" where
  "run_returns h \<longleftrightarrow> \<not> hs_crashed h \<and> outstanding h = 0"


section \<open>The gRPC server\<close>

text \<open>
  The objects of \<^verbatim>\<open>GrpcServer::start\<close> by identity: \<open>go_live\<close> are the service objects that exist, the
  running server holds its address and the pointer it was given. \<open>bound\<close> says whether
  \<^verbatim>\<open>BuildAndStart\<close> could listen on an address; it returns a null pointer otherwise.
\<close>

record grpc_objects =
  go_next :: nat
  go_live :: "nat set"
  go_server :: "(string \<times> nat) option"
  go_running :: bool

definition grpc_start :: "(string \<Rightarrow> bool) \<Rightarrow> string \<Rightarrow> int \<Rightarrow> grpc_objects \<Rightarrow> grpc_objects" where
  "grpc_start bound host portnum g =
     (let serverAddress = host @ '':'' @ to_string portnum;
          service = go_next g;
          g1 = g\<lparr>go_next := Suc service, go_live := insert service (go_live g)\<rparr>;
          g2 = (if bound serverAddress then g1\<lparr>go_server := Some (serverAddress, service), go_running := True\<rparr>
                else g1\<lparr>go_server := None, go_running := False\<rparr>)
      in g2\<lparr>go_live := go_live g2 - {service}\<rparr>)"

definition grpc_stop :: "grpc_objects \<Rightarrow> grpc_objects" where
  "grpc_stop g = (case go_server g of Some _ \<Rightarrow> g\<lparr>go_running := False\<rparr> | None \<Rightarrow> g)"

text \<open>The destructor stops the server once more.\<close>

definition delete_GrpcServer :: "grpc_objects \<Rightarrow> grpc_objects" where
  "delete_GrpcServer g = grpc_stop g"

text \<open>The local \<^verbatim>\<open>unique_ptr\<close> owns the service: when \<^verbatim>\<open>start\<close> returns, the server refers to no live object.\<close>

lemma grpc_start_dangles:
  "go_running (grpc_start bound host portnum g) \<Longrightarrow>
   \<exists>service. go_server (grpc_start bound host portnum g) = Some (host @ '':'' @ to_string portnum, service) \<and>
     service \<notin> go_live (grpc_start bound host portnum g)"
  by (auto simp: grpc_start_def Let_def split: if_splits)

lemma grpc_stop_stops: "go_server g = None \<Longrightarrow> \<not> go_running g \<Longrightarrow> \<not> go_running (grpc_stop g)"
  "go_server g = Some x \<Longrightarrow> \<not> go_running (grpc_stop g)"
  by (simp_all add: grpc_stop_def)


section \<open>Keeping the store invariant\<close>

definition kept :: "storage \<Rightarrow> storage \<Rightarrow> bool" where
  "kept s t \<longleftrightarrow> (store_inv s \<longrightarrow> store_inv t)"

interpretation kept: io_preorder kept
  by unfold_locales (auto simp: kept_def)

lemma keeps_lift: "keeps kept (lift r)"
  by (rule keepsI) (simp add: kept_def)

lemma keeps_raise: "keeps kept (raise e)"
  by (rule keepsI) (simp add: kept_def)

lemma keeps_if: "keeps P m \<Longrightarrow> keeps P k \<Longrightarrow> keeps P (if b then m else k)"
  by simp

lemma keeps_option:
  "keeps P m \<Longrightarrow> (\<And>x. keeps P (f x)) \<Longrightarrow> keeps P (case v of None \<Rightarrow> m | Some x \<Rightarrow> f x)"
  by (cases v) simp_all

lemma keeps_prod: "(\<And>x y. keeps P (f x y)) \<Longrightarrow> keeps P (case v of (x, y) \<Rightarrow> f x y)"
  by (cases v) simp

lemma keeps_list:
  "keeps P m \<Longrightarrow> (\<And>x xs. keeps P (f x xs)) \<Longrightarrow> keeps P (case v of [] \<Rightarrow> m | x # xs \<Rightarrow> f x xs)"
  by (cases v) simp_all

lemma keeps_let: "keeps P (f v) \<Longrightarrow> keeps P (let x = v in f x)"
  by (simp add: Let_def)

lemma keeps_reads: "(\<And>s r t. m s = (r, t) \<Longrightarrow> t = s) \<Longrightarrow> keeps kept m"
  by (rule keepsI) (auto simp: kept_def)

lemmas keeps_handler = kept.keeps_rules keeps_lift keeps_raise keeps_if keeps_option keeps_prod keeps_let

text \<open>A selection that returns or throws leaves the database as it is.\<close>

context orm_table
begin

lemma keeps_get_all: "keeps kept (tbl_get_all T p)"
proof (rule keepsI)
  fix s r t assume "tbl_get_all T p s = (r, t)"
  then show "kept s t" by (cases r) (auto simp: kept_def dest: get_all_ok get_all_throws)
qed

lemma keeps_get_desc_text: "keeps kept (tbl_get_all_desc_text T p k' w)"
proof (rule keepsI)
  fix s r t assume "tbl_get_all_desc_text T p k' w s = (r, t)"
  then show "kept s t" by (cases r) (auto simp: kept_def dest: get_desc_text_ok get_desc_text_throws)
qed

end

context reliable_engine
begin

lemma keeps_returning:
  assumes "\<And>s. store_inv s \<Longrightarrow> \<exists>x t. m s = (Inr x, t)"
    and "\<And>s x t. store_inv s \<Longrightarrow> m s = (Inr x, t) \<Longrightarrow> store_inv t"
  shows "keeps kept m"
proof (rule keepsI, unfold kept_def, rule impI)
  fix s r t assume m: "m s = (r, t)" and inv: "store_inv s"
  from assms(1) [OF inv] obtain x u where "m s = (Inr x, u)" by blast
  with assms(2) [OF inv] m show "store_inv t" by auto
qed

lemma keeps_configs:
  "keeps kept (createConfig E now n k v op)" "keeps kept (updateConfig E now n k v op d)"
  "keeps kept (deleteConfig E now n k op d)" "keeps kept (publishRelease E now n nt op out)"
proof -
  show "keeps kept (createConfig E now n k v op)"
    using createConfig_total createConfig_inv by (intro keeps_returning) blast+
  show "keeps kept (updateConfig E now n k v op d)"
    using updateConfig_total updateConfig_inv by (intro keeps_returning) blast+
  show "keeps kept (deleteConfig E now n k op d)"
    using deleteConfig_total deleteConfig_inv by (intro keeps_returning) blast+
  show "keeps kept (publishRelease E now n nt op out)"
    using publishRelease_total publishRelease_inv by (intro keeps_returning) blast+
qed

lemma keeps_spaces:
  "keeps kept (createApplication E app)" "keeps kept (deleteApplication E a)" "keeps kept (createNamespace E ns)"
proof -
  show "keeps kept (createApplication E app)"
    using createApplication_effect [of app] createApplication_inv by (intro keeps_returning) (metis surj_pair)+
  show "keeps kept (createNamespace E ns)"
    using createNamespace_effect [of ns] createNamespace_inv by (intro keeps_returning) (metis surj_pair)+
  show "keeps kept (deleteApplication E a)"
  proof (rule keepsI, unfold kept_def, rule impI)
    fix s r t assume m: "deleteApplication E a s = (r, t)" and inv: "store_inv s"
    show "store_inv t"
    proof (cases r)
      case (Inl e)
      with m have "t = s" by (auto simp: deleteApplication_def thenE_Inl dest: app.remove_all_throws)
      with inv show ?thesis by simp
    next
      case (Inr b)
      with m deleteApplication_inv [OF inv] show ?thesis by simp
    qed
  qed
qed

lemma keeps_store_reads:
  "keeps kept (getConfig E n k d)" "keeps kept (getApplication E a)" "keeps kept (listApplications E)"
  "keeps kept (listNamespaces E a env cl)" "keeps kept (getReleases E q)"
  unfolding getConfig_def getApplication_def listApplications_def listNamespaces_def getReleases_def Let_def
  by (intro keeps_handler keeps_list app.keeps_get_all ns.keeps_get_all cfg.keeps_get_all rel.keeps_get_desc_text)+

lemmas keeps_store = keeps_configs keeps_spaces keeps_store_reads

text \<open>Every request keeps the invariant, provided the allocator query of \<^verbatim>\<open>healthCheck\<close> does.\<close>

lemma keeps_manager:
  "keeps kept (registerApplication (sqlite_store E) now a name desc)"
  "keeps kept (removeApplication (sqlite_store E) a)" "keeps kept (nm_listApplications (sqlite_store E))"
  "keeps kept (nm_getApplication (sqlite_store E) a)"
  "keeps kept (nm_createNamespace (sqlite_store E) now a env cl name ty par)"
  unfolding registerApplication_def removeApplication_def nm_listApplications_def nm_getApplication_def
    nm_createNamespace_def sqlite_store_sel
  by (intro keeps_handler keeps_store)+

lemma keeps_strings: "keeps kept (string_at J body k)"
  unfolding string_at_def by (intro keeps_handler)

lemma keeps_set_draft: "keeps kept (set_draft J (sqlite_store E) now n k v op)"
  unfolding set_draft_def sqlite_store_sel by (intro keeps_handler keeps_store)

lemma keeps_create_namespace:
  "keeps kept (create_namespace J (sqlite_store E) (string_at J body) now body)"
  unfolding create_namespace_def by (intro keeps_handler keeps_strings keeps_manager)

lemma keeps_route:
  assumes "keeps kept (orm_get_allocator E)"
  shows "keeps kept (routeRequest J (sqlite_store E) now rq)"
  unfolding routeRequest_def Let_def http_handleHealth_def http_handleLogin_def http_handleCreateApp_def
    http_handleListApps_def http_handleGetApp_def http_handleDeleteApp_def http_handleListNamespaces_def
    http_handleCreateNamespace_def http_handleGetConfig_def http_handleSetConfig_def
    http_handleDeleteConfig_def http_handlePublish_def http_handleGetReleases_def sqlite_store_sel
    healthCheck_def
  by (intro keeps_handler keeps_store keeps_manager keeps_strings keeps_set_draft keeps_create_namespace assms)

text \<open>The same for every store call of the handlers that other threads may interrupt.\<close>

lemmas calls_keep_handler = calls_keep_bindP calls_keep_if calls_keep_call keep_done

lemma calls_keep_managers:
  "calls_keep kept (p_registerApplication (sqlite_store E) now a n d)"
  "calls_keep kept (p_createNamespace (sqlite_store E) now a env cl n ty par)"
  "calls_keep kept (p_set_draft J (sqlite_store E) now n' k v op)"
  unfolding p_managers sqlite_store_sel by (intro calls_keep_handler keeps_store)+

lemma calls_keep_request:
  assumes "keeps kept (orm_get_allocator E)"
  shows "calls_keep kept (p_handleRequest J (sqlite_store E) now rq)"
proof -
  have list: "keeps kept (cs_listNamespaces (sqlite_store E) a env cl)" for a env cl
    unfolding sqlite_store_sel by (rule keeps_store)
  have "calls_keep kept (p_routeRequest J (sqlite_store E) now rq)"
    unfolding p_routeRequest_def Let_def p_handlers
    by (intro calls_keep_handler calls_keep_managers keeps_route keeps_manager list assms)
  then show ?thesis unfolding p_handleRequest_def
    by (rule calls_keep_bindP) (simp split: prod.split)
qed

end


section \<open>Runs of the HTTP server\<close>

lemma on_accept_True: "0 < hs_accepting h \<Longrightarrow> on_accept True h = h"
  by (simp add: on_accept_def doAccept_def)

lemma on_accept_False:
  "0 < hs_accepting h \<Longrightarrow> on_accept False h = h\<lparr>hs_sessions := hs_sessions h @ [Reading]\<rparr>"
  by (simp add: on_accept_def doAccept_def session_run_def)

lemma set_session_sel [simp]:
  "hs_store (set_session i x h) = hs_store h" "hs_accepting (set_session i x h) = hs_accepting h"
  "hs_sessions (set_session i x h) = (hs_sessions h)[i := x]" "hs_crashed (set_session i x h) = hs_crashed h"
  by (simp_all add: set_session_def)

lemmas session_steps = on_read_def on_call_def on_handled_def on_write_def server_stop_def

text \<open>
  The invariant of the sessions: one accept is outstanding, no more handlers run than there are threads,
  and what a thread has still to run is the rest of the handler of some request.
\<close>

definition rest_of_request :: "'j json_lib \<Rightarrow> 's config_store \<Rightarrow> 's session \<Rightarrow> bool" where
  "rest_of_request J S x =
     (case x of Handling p \<Rightarrow> \<exists>now rq. remains (p_handleRequest J S now rq) p | _ \<Rightarrow> True)"

definition sessions_inv :: "'j json_lib \<Rightarrow> 's config_store \<Rightarrow> nat \<Rightarrow> 's http_server \<Rightarrow> bool" where
  "sessions_inv J S N h \<longleftrightarrow>
     hs_accepting h = 1 \<and> busy h \<le> N \<and> (\<forall>x \<in> set (hs_sessions h). rest_of_request J S x)"

lemma busy_set_session:
  assumes "i < length (hs_sessions h)" and "handled x \<Longrightarrow> handled (hs_sessions h ! i) \<or> busy h < N" and "busy h \<le> N"
  shows "busy (set_session i x h) \<le> N"
  using length_filter_update [OF assms(1), of handled x] assms(2,3) by (auto simp: busy_def split: if_splits)

lemma sessions_inv_set:
  assumes "sessions_inv J S N h" and "i < length (hs_sessions h)" and "rest_of_request J S x"
    and "handled x \<Longrightarrow> handled (hs_sessions h ! i) \<or> busy h < N"
  shows "sessions_inv J S N (set_session i x h)"
  using assms busy_set_session [of i h x N] set_update_subset_insert [of "hs_sessions h" i x]
  by (auto simp: sessions_inv_def)

lemma sessions_inv_step: "http_step J S N h h' \<Longrightarrow> sessions_inv J S N h \<Longrightarrow> sessions_inv J S N h'"
proof (induction rule: http_step.induct)
  case (read_done h i now got)
  have "rest_of_request J S (Handling (p_handleRequest J S now rq))" "rest_of_request J S Dropped" for rq
    using remains_self [of "p_handleRequest J S now rq"] by (auto simp: rest_of_request_def)
  with read_done show ?case by (auto simp: on_read_def handled_def intro!: sessions_inv_set split: option.split)
next
  case (store_call h i g)
  obtain p t where g: "g (hs_store h) = (p, t)" by fastforce
  from store_call have "rest_of_request J S (Handling (Atomic g))"
    using nth_mem [of i "hs_sessions h"] by (auto simp: sessions_inv_def)
  then have "rest_of_request J S (Handling p)"
    using remains_call [of _ g "hs_store h"] g by (auto simp: rest_of_request_def)
  moreover have "sessions_inv J S N (h\<lparr>hs_store := t\<rparr>)"
    using store_call by (simp add: sessions_inv_def busy_def)
  ultimately show ?case using store_call
    by (auto simp: on_call_def g handled_def intro!: sessions_inv_set)
next
  case (request_over h i r)
  then have "sessions_inv J S N (h\<lparr>hs_crashed := True\<rparr>)" by (simp add: sessions_inv_def busy_def)
  moreover have "rest_of_request J S (Writing resp)" "\<not> handled (Writing resp)" for resp
    by (simp_all add: rest_of_request_def handled_def)
  ultimately show ?case
    using request_over by (auto simp: on_handled_def intro!: sessions_inv_set split: sum.split)
next
  case (write_done h i resp)
  then show ?case by (auto simp: on_write_def rest_of_request_def handled_def intro!: sessions_inv_set)
qed (auto simp: on_accept_True on_accept_False sessions_inv_def busy_def handled_def rest_of_request_def server_stop_def)

lemma run_sessions: "http_run J S N s0 h \<Longrightarrow> sessions_inv J S N h"
proof (induction rule: http_run.induct)
  case run_start
  show ?case by (simp add: sessions_inv_def busy_def server_start_def doAccept_def new_server_def)
qed (rule sessions_inv_step)

lemma run_accepting: "http_run J S N s0 h \<Longrightarrow> hs_accepting h = 1"
  by (drule run_sessions) (simp add: sessions_inv_def)

text \<open>A crash is the exception of a handler that some thread was running.\<close>

lemma run_crash:
  "http_run J S N s0 h \<Longrightarrow> hs_crashed h \<Longrightarrow>
   \<exists>g e. http_run J S N s0 g \<and> \<not> hs_crashed g \<and> Handling (Done (Inl e)) \<in> set (hs_sessions g) \<and> hs_store h = hs_store g"
proof (induction rule: http_run.induct)
  case run_start
  then show ?case by (simp add: server_start_def doAccept_def new_server_def)
next
  case (run_step h h')
  from run_step.hyps(2) show ?case
  proof (cases rule: http_step.cases)
    case (request_over i r)
    with run_step.prems obtain e where "r = Inl e" "hs_store h' = hs_store h" by (auto simp: on_handled_def split: sum.splits)
    with request_over run_step.hyps(1) show ?thesis using nth_mem [of i "hs_sessions h"] by auto
  qed (use run_step run_accepting [OF run_step.hyps(1)] in
      \<open>auto simp: on_accept_True on_accept_False session_steps split: option.splits prod.splits\<close>)
qed

lemma run_keeps:
  assumes "http_run J S N s0 h" and "\<And>now rq. calls_keep P (p_handleRequest J S now rq)" and "io_preorder P"
  shows "P s0 (hs_store h)"
  using assms(1)
proof (induction rule: http_run.induct)
  case run_start
  show ?case by (simp add: server_start_def doAccept_def new_server_def io_preorder.refl [OF assms(3)])
next
  case (run_step h h')
  note refl = io_preorder.refl [OF assms(3)]
  from run_step.hyps(2) have "P (hs_store h) (hs_store h')"
  proof (cases rule: http_step.cases)
    case (store_call i g)
    with run_sessions [OF run_step.hyps(1)] have "rest_of_request J S (Handling (Atomic g))"
      using nth_mem [of i "hs_sessions h"] by (auto simp: sessions_inv_def)
    then obtain now rq where "remains (p_handleRequest J S now rq) (Atomic g)" by (auto simp: rest_of_request_def)
    with assms(2) have "calls_keep P (Atomic g)" by (blast intro: remains_keep)
    with store_call show ?thesis by (auto simp: on_call_def split: prod.split dest: spec [of _ "hs_store h"])
  qed (use run_accepting [OF run_step.hyps(1)] refl in
      \<open>auto simp: on_accept_True on_accept_False session_steps split: option.splits sum.splits\<close>)
  with run_step.IH show ?case by (rule io_preorder.trans [OF assms(3)])
qed

text \<open>The server is never stuck: an accept can complete, or every thread runs a handler that can go on.\<close>

lemma run_progress:
  assumes "http_run J S N s0 h" and "\<not> hs_crashed h" and "0 < N"
  shows "\<exists>h'. http_step J S N h h'"
proof (cases "busy h < N")
  case True
  with assms run_accepting [OF assms(1)] accept_failed [of h N J S] show ?thesis by auto
next
  case False
  with assms(3) have "filter handled (hs_sessions h) \<noteq> []" by (auto simp: busy_def)
  then obtain x where "x \<in> set (hs_sessions h)" and "handled x" by (auto simp: filter_empty_conv)
  then obtain i p where "i < length (hs_sessions h)" and "hs_sessions h ! i = Handling p"
    by (auto simp: in_set_conv_nth handled_def split: session.splits)
  with assms(2) show ?thesis by (cases p) (blast intro: store_call request_over)+
qed

text \<open>
  Over any run of the HTTP server on a reliable engine the store invariant holds, one accept is
  outstanding, and a crash is an exception that a request handler let through.
\<close>

lemma http_server_runs:
  assumes "reliable_engine E" and "\<forall>s r t. orm_get_allocator E s = (r, t) \<longrightarrow> t = s"
    and "store_inv s0" and "http_run J (sqlite_store E) N s0 h"
  shows "store_inv (hs_store h) \<and> sessions_inv J (sqlite_store E) N h \<and> \<not> run_returns h"
proof -
  have "keeps kept (orm_get_allocator E)" using assms(2) by (auto intro: keeps_reads)
  from run_keeps [OF assms(4) reliable_engine.calls_keep_request [OF assms(1) this] kept.io_preorder_axioms] assms(3)
  have "store_inv (hs_store h)" by (simp add: kept_def)
  with run_sessions [OF assms(4)] run_accepting [OF assms(4)] show ?thesis
    by (simp add: run_returns_def outstanding_def)
qed

end
