(* ===== verification/Config_Parser.thy ===== *)
theory Config_Parser
  imports Namespace_Manager
begin

text \<open>
  \<^verbatim>\<open>ConfigParser\<close> (\<^verbatim>\<open>src/config/config_parser.cpp\<close>, \<^verbatim>\<open>include/config-center/config/config_parser.h\<close>) and
  the start-up decisions of \<^verbatim>\<open>src/main.cpp\<close>. The yaml-cpp library is the record \<open>yaml_lib\<close> over its
  node type \<open>'y\<close>: \<open>y_at\<close> is \<^verbatim>\<open>operator[]\<close> on a const node (an exception, an undefined node or a node),
  the \<open>as_\<close> fields are the conversions. A configuration file is absent or a text.
\<close>


section \<open>Configuration records\<close>

record ServerHttpConfig =
  http_host :: string
  http_port :: int
  http_threads :: int

record ServerGrpcConfig =
  grpc_host :: string
  grpc_port :: int
  grpc_threads :: int

record ServerConfig =
  sv_http :: ServerHttpConfig
  sv_grpc :: ServerGrpcConfig

record MysqlConfig =
  my_host :: string
  my_port :: int
  my_user :: string
  my_password :: string
  my_database :: string
  my_pool_size :: int
  my_timeout_seconds :: int

record StorageConfig =
  st_backend :: string
  st_sqlite_path :: string
  st_mysql :: MysqlConfig

record JwtConfig =
  jwt_secret :: string
  jwt_expiry_hours :: int

record AuthConfig =
  au_enabled :: bool
  au_jwt :: JwtConfig
  au_read_auth_required :: bool

record PublishConfig =
  pb_approval_default_enabled :: bool
  pb_grayscale_default_percentage :: int

record NotificationConfig =
  nf_max_timeout_seconds :: int
  nf_default_timeout_seconds :: int
  nf_keepalive_seconds :: int

record LimitsConfig =
  lm_config_key_max_length :: int
  lm_config_value_max_bytes :: int
  lm_release_note_max_length :: int

record LoggingConfig =
  lg_level :: string
  lg_file :: string
  lg_format :: string

record AppConfig =
  ac_server :: ServerConfig
  ac_storage :: StorageConfig
  ac_auth :: AuthConfig
  ac_default_environments :: "string list"
  ac_publish :: PublishConfig
  ac_notification :: NotificationConfig
  ac_limits :: LimitsConfig
  ac_logging :: LoggingConfig

definition default_MysqlConfig :: MysqlConfig where
  "default_MysqlConfig = \<lparr>my_host = ''127.0.0.1'', my_port = 3306, my_user = ''root'', my_password = [],
     my_database = ''config_center'', my_pool_size = 10, my_timeout_seconds = 30\<rparr>"

definition default_AppConfig :: AppConfig where
  "default_AppConfig = \<lparr>
     ac_server = \<lparr>sv_http = \<lparr>http_host = ''0.0.0.0'', http_port = 8080, http_threads = 0\<rparr>,
                  sv_grpc = \<lparr>grpc_host = ''0.0.0.0'', grpc_port = 9090, grpc_threads = 0\<rparr>\<rparr>,
     ac_storage = \<lparr>st_backend = ''sqlite'', st_sqlite_path = ''data/config-center.db'',
                   st_mysql = default_MysqlConfig\<rparr>,
     ac_auth = \<lparr>au_enabled = True,
                au_jwt = \<lparr>jwt_secret = ''change-me-in-production'', jwt_expiry_hours = 24\<rparr>,
                au_read_auth_required = False\<rparr>,
     ac_default_environments = [''DEV'', ''FAT'', ''UAT'', ''PROD''],
     ac_publish = \<lparr>pb_approval_default_enabled = False, pb_grayscale_default_percentage = 100\<rparr>,
     ac_notification = \<lparr>nf_max_timeout_seconds = 120, nf_default_timeout_seconds = 60,
                        nf_keepalive_seconds = 30\<rparr>,
     ac_limits = \<lparr>lm_config_key_max_length = 128, lm_config_value_max_bytes = 1048576,
                  lm_release_note_max_length = 4096\<rparr>,
     ac_logging = \<lparr>lg_level = ''info'', lg_file = [], lg_format = ''text''\<rparr>\<rparr>"


section \<open>Parsing\<close>

record 'y yaml_lib =
  y_load :: "string \<Rightarrow> 'y result"
  y_at :: "'y \<Rightarrow> string \<Rightarrow> 'y option result"
  y_seq :: "'y \<Rightarrow> 'y list"
  as_string :: "'y \<Rightarrow> string result"
  as_uint16 :: "'y \<Rightarrow> int result"
  as_int :: "'y \<Rightarrow> int result"
  as_bool :: "'y \<Rightarrow> bool result"

text \<open>
  \<open>on_key Y node key f c\<close> is \<^verbatim>\<open>if (node[key]) f(node[key], c)\<close>; \<open>scalar\<close> reads a value and stores it;
  \<open>run_all\<close> runs the statements in order until one throws; \<open>inside\<close> works on a member.
\<close>

definition on_key :: "'y yaml_lib \<Rightarrow> 'y \<Rightarrow> string \<Rightarrow> ('y \<Rightarrow> 'c \<Rightarrow> 'c result) \<Rightarrow> 'c \<Rightarrow> 'c result" where
  "on_key Y node key f c =
     (case y_at Y node key of
        Inl e \<Rightarrow> Inl e
      | Inr None \<Rightarrow> Inr c
      | Inr (Some n) \<Rightarrow> f n c)"

definition scalar :: "('y \<Rightarrow> 'a result) \<Rightarrow> ('a \<Rightarrow> 'c \<Rightarrow> 'c) \<Rightarrow> 'y \<Rightarrow> 'c \<Rightarrow> 'c result" where
  "scalar conv upd n c = (case conv n of Inl e \<Rightarrow> Inl e | Inr x \<Rightarrow> Inr (upd x c))"

fun run_all :: "('c \<Rightarrow> 'c result) list \<Rightarrow> 'c \<Rightarrow> 'c result" where
  "run_all [] c = Inr c"
| "run_all (f # fs) c = (case f c of Inl e \<Rightarrow> Inl e | Inr c' \<Rightarrow> run_all fs c')"

definition inside :: "('c \<Rightarrow> 'm) \<Rightarrow> ('m \<Rightarrow> 'c \<Rightarrow> 'c) \<Rightarrow> ('m \<Rightarrow> 'm result) \<Rightarrow> 'c \<Rightarrow> 'c result" where
  "inside get put f c = (case f (get c) of Inl e \<Rightarrow> Inl e | Inr m \<Rightarrow> Inr (put m c))"

fun strings_of :: "'y yaml_lib \<Rightarrow> 'y list \<Rightarrow> string list result" where
  "strings_of Y [] = Inr []"
| "strings_of Y (n # ns) =
     (case as_string Y n of
        Inl e \<Rightarrow> Inl e
      | Inr s \<Rightarrow> map_sum id ((#) s) (strings_of Y ns))"

definition parseServer :: "'y yaml_lib \<Rightarrow> 'y \<Rightarrow> ServerConfig \<Rightarrow> ServerConfig result" where
  "parseServer Y node = run_all [
     on_key Y node ''http'' (\<lambda>http. inside sv_http (\<lambda>h c. c\<lparr>sv_http := h\<rparr>) (run_all [
       on_key Y http ''host'' (scalar (as_string Y) (\<lambda>x h. h\<lparr>http_host := x\<rparr>)),
       on_key Y http ''port'' (scalar (as_uint16 Y) (\<lambda>x h. h\<lparr>http_port := x\<rparr>)),
       on_key Y http ''threads'' (scalar (as_int Y) (\<lambda>x h. h\<lparr>http_threads := x\<rparr>))])),
     on_key Y node ''grpc'' (\<lambda>grpc. inside sv_grpc (\<lambda>g c. c\<lparr>sv_grpc := g\<rparr>) (run_all [
       on_key Y grpc ''host'' (scalar (as_string Y) (\<lambda>x g. g\<lparr>grpc_host := x\<rparr>)),
       on_key Y grpc ''port'' (scalar (as_uint16 Y) (\<lambda>x g. g\<lparr>grpc_port := x\<rparr>)),
       on_key Y grpc ''threads'' (scalar (as_int Y) (\<lambda>x g. g\<lparr>grpc_threads := x\<rparr>))]))]"

definition parseStorage :: "'y yaml_lib \<Rightarrow> 'y \<Rightarrow> StorageConfig \<Rightarrow> StorageConfig result" where
  "parseStorage Y node = run_all [
     on_key Y node ''backend'' (scalar (as_string Y) (\<lambda>x c. c\<lparr>st_backend := x\<rparr>)),
     on_key Y node ''sqlite'' (\<lambda>sqlite.
       on_key Y sqlite ''path'' (scalar (as_string Y) (\<lambda>x c. c\<lparr>st_sqlite_path := x\<rparr>))),
     on_key Y node ''mysql'' (\<lambda>mysql. inside st_mysql (\<lambda>m c. c\<lparr>st_mysql := m\<rparr>) (run_all [
       on_key Y mysql ''host'' (scalar (as_string Y) (\<lambda>x m. m\<lparr>my_host := x\<rparr>)),
       on_key Y mysql ''port'' (scalar (as_uint16 Y) (\<lambda>x m. m\<lparr>my_port := x\<rparr>)),
       on_key Y mysql ''user'' (scalar (as_string Y) (\<lambda>x m. m\<lparr>my_user := x\<rparr>)),
       on_key Y mysql ''password'' (scalar (as_string Y) (\<lambda>x m. m\<lparr>my_password := x\<rparr>)),
       on_key Y mysql ''database'' (scalar (as_string Y) (\<lambda>x m. m\<lparr>my_database := x\<rparr>)),
       on_key Y mysql ''pool_size'' (scalar (as_int Y) (\<lambda>x m. m\<lparr>my_pool_size := x\<rparr>)),
       on_key Y mysql ''timeout_seconds'' (scalar (as_int Y) (\<lambda>x m. m\<lparr>my_timeout_seconds := x\<rparr>))]))]"

definition parseAuth :: "'y yaml_lib \<Rightarrow> 'y \<Rightarrow> AuthConfig \<Rightarrow> AuthConfig result" where
  "parseAuth Y node = run_all [
     on_key Y node ''enabled'' (scalar (as_bool Y) (\<lambda>x c. c\<lparr>au_enabled := x\<rparr>)),
     on_key Y node ''read_auth_required'' (scalar (as_bool Y) (\<lambda>x c. c\<lparr>au_read_auth_required := x\<rparr>)),
     on_key Y node ''jwt'' (\<lambda>jwt. inside au_jwt (\<lambda>j c. c\<lparr>au_jwt := j\<rparr>) (run_all [
       on_key Y jwt ''secret'' (scalar (as_string Y) (\<lambda>x j. j\<lparr>jwt_secret := x\<rparr>)),
       on_key Y jwt ''expiry_hours'' (scalar (as_int Y) (\<lambda>x j. j\<lparr>jwt_expiry_hours := x\<rparr>))]))]"

definition parseNamespace :: "'y yaml_lib \<Rightarrow> 'y \<Rightarrow> string list \<Rightarrow> string list result" where
  "parseNamespace Y node = on_key Y node ''default_environments'' (\<lambda>envs _. strings_of Y (y_seq Y envs))"

definition parsePublish :: "'y yaml_lib \<Rightarrow> 'y \<Rightarrow> PublishConfig \<Rightarrow> PublishConfig result" where
  "parsePublish Y node = run_all [
     on_key Y node ''approval'' (\<lambda>a. on_key Y a ''default_enabled''
       (scalar (as_bool Y) (\<lambda>x c. c\<lparr>pb_approval_default_enabled := x\<rparr>))),
     on_key Y node ''grayscale'' (\<lambda>g. on_key Y g ''default_percentage''
       (scalar (as_int Y) (\<lambda>x c. c\<lparr>pb_grayscale_default_percentage := x\<rparr>)))]"

definition parseNotification :: "'y yaml_lib \<Rightarrow> 'y \<Rightarrow> NotificationConfig \<Rightarrow> NotificationConfig result" where
  "parseNotification Y node = run_all [
     on_key Y node ''long_polling'' (\<lambda>lp. run_all [
       on_key Y lp ''max_timeout_seconds'' (scalar (as_int Y) (\<lambda>x c. c\<lparr>nf_max_timeout_seconds := x\<rparr>)),
       on_key Y lp ''default_timeout_seconds'' (scalar (as_int Y) (\<lambda>x c. c\<lparr>nf_default_timeout_seconds := x\<rparr>))]),
     on_key Y node ''grpc'' (\<lambda>g. on_key Y g ''keepalive_seconds''
       (scalar (as_int Y) (\<lambda>x c. c\<lparr>nf_keepalive_seconds := x\<rparr>)))]"

definition parseLimits :: "'y yaml_lib \<Rightarrow> 'y \<Rightarrow> LimitsConfig \<Rightarrow> LimitsConfig result" where
  "parseLimits Y node = run_all [
     on_key Y node ''config_key_max_length'' (scalar (as_int Y) (\<lambda>x c. c\<lparr>lm_config_key_max_length := x\<rparr>)),
     on_key Y node ''config_value_max_bytes'' (scalar (as_int Y) (\<lambda>x c. c\<lparr>lm_config_value_max_bytes := x\<rparr>)),
     on_key Y node ''release_note_max_length'' (scalar (as_int Y) (\<lambda>x c. c\<lparr>lm_release_note_max_length := x\<rparr>))]"

definition parseLogging :: "'y yaml_lib \<Rightarrow> 'y \<Rightarrow> LoggingConfig \<Rightarrow> LoggingConfig result" where
  "parseLogging Y node = run_all [
     on_key Y node ''level'' (scalar (as_string Y) (\<lambda>x c. c\<lparr>lg_level := x\<rparr>)),
     on_key Y node ''file'' (scalar (as_string Y) (\<lambda>x c. c\<lparr>lg_file := x\<rparr>)),
     on_key Y node ''format'' (scalar (as_string Y) (\<lambda>x c. c\<lparr>lg_format := x\<rparr>))]"

definition parseString :: "'y yaml_lib \<Rightarrow> string \<Rightarrow> AppConfig result" where
  "parseString Y yamlContent =
     (case y_load Y yamlContent of
        Inl e \<Rightarrow> Inl e
      | Inr root \<Rightarrow> run_all [
          on_key Y root ''server'' (\<lambda>n. inside ac_server (\<lambda>x c. c\<lparr>ac_server := x\<rparr>) (parseServer Y n)),
          on_key Y root ''storage'' (\<lambda>n. inside ac_storage (\<lambda>x c. c\<lparr>ac_storage := x\<rparr>) (parseStorage Y n)),
          on_key Y root ''auth'' (\<lambda>n. inside ac_auth (\<lambda>x c. c\<lparr>ac_auth := x\<rparr>) (parseAuth Y n)),
          on_key Y root ''namespace'' (\<lambda>n. inside ac_default_environments
            (\<lambda>x c. c\<lparr>ac_default_environments := x\<rparr>) (parseNamespace Y n)),
          on_key Y root ''publish'' (\<lambda>n. inside ac_publish (\<lambda>x c. c\<lparr>ac_publish := x\<rparr>) (parsePublish Y n)),
          on_key Y root ''notification'' (\<lambda>n. inside ac_notification
            (\<lambda>x c. c\<lparr>ac_notification := x\<rparr>) (parseNotification Y n)),
          on_key Y root ''limits'' (\<lambda>n. inside ac_limits (\<lambda>x c. c\<lparr>ac_limits := x\<rparr>) (parseLimits Y n)),
          on_key Y root ''logging'' (\<lambda>n. inside ac_logging (\<lambda>x c. c\<lparr>ac_logging := x\<rparr>) (parseLogging Y n))]
          default_AppConfig)"

definition parseFile :: "'y yaml_lib \<Rightarrow> (string \<rightharpoonup> string) \<Rightarrow> string \<Rightarrow> AppConfig result" where
  "parseFile Y files path =
     (case files path of
        None \<Rightarrow> Inl (RuntimeError (''Failed to open config file: '' @ path))
      | Some content \<Rightarrow> parseString Y content)"


section \<open>Start-up\<close>

text \<open>
  What \<^verbatim>\<open>main\<close> decides before it runs the servers: the exit code 1, or the database it opens, the
  HTTP and gRPC endpoints, the token parameters and the number of I/O threads (\<open>hardware\<close> is
  \<^verbatim>\<open>std::thread::hardware_concurrency()\<close>).
\<close>

datatype startup =
    ExitCode int
  | Serve string "string \<times> int" "string \<times> int" "string \<times> int" int

definition main_startup ::
  "'y yaml_lib \<Rightarrow> (string \<rightharpoonup> string) \<Rightarrow> string list \<Rightarrow> int \<Rightarrow> startup result" where
  "main_startup Y files args hardware =
     (let configPath = (case args of [] \<Rightarrow> ''config-server.yaml'' | a # _ \<Rightarrow> a)
      in case parseFile Y files configPath of
           Inl e \<Rightarrow> Inl e
         | Inr cfg \<Rightarrow>
             if st_backend (ac_storage cfg) = ''sqlite''
             then (let http = sv_http (ac_server cfg); grpc = sv_grpc (ac_server cfg);
                       jwt = au_jwt (ac_auth cfg);
                       numThreads = (if http_threads http > 0 then http_threads http else hardware)
                   in Inr (Serve (st_sqlite_path (ac_storage cfg)) (http_host http, http_port http)
                        (grpc_host grpc, grpc_port grpc) (jwt_secret jwt, jwt_expiry_hours jwt) numThreads))
             else Inr (ExitCode 1))"


section \<open>Sections are independent\<close>

lemma on_key_absent [simp]: "y_at Y node key = Inr None \<Longrightarrow> on_key Y node key f c = Inr c"
  by (simp add: on_key_def)

text \<open>What a parsing step that succeeds keeps, compositionally.\<close>

definition maintains :: "('c \<Rightarrow> bool) \<Rightarrow> ('c \<Rightarrow> 'c result) \<Rightarrow> bool" where
  "maintains P f \<longleftrightarrow> (\<forall>c c'. f c = Inr c' \<longrightarrow> P c \<longrightarrow> P c')"

lemma maintainsD: "maintains P f \<Longrightarrow> f c = Inr c' \<Longrightarrow> P c \<Longrightarrow> P c'"
  by (simp add: maintains_def)

lemma maintains_run: "list_all (maintains P) fs \<Longrightarrow> maintains P (run_all fs)"
proof (induction fs)
  case (Cons f fs)
  then have f: "maintains P f" and fs: "maintains P (run_all fs)" by simp_all
  show ?case unfolding maintains_def
  proof (intro allI impI)
    fix c c' assume run: "run_all (f # fs) c = Inr c'" and "P c"
    then obtain d where "f c = Inr d" "run_all fs d = Inr c'" by (auto split: sum.splits)
    with maintainsD [OF f, of c d] maintainsD [OF fs, of d c'] \<open>P c\<close> show "P c'" by simp
  qed
qed (simp add: maintains_def)

lemma maintains_on_key: "(\<And>n. maintains P (f n)) \<Longrightarrow> maintains P (on_key Y node key f)"
  by (fastforce simp: maintains_def on_key_def split: sum.splits option.splits)

lemma maintains_scalar:
  "(\<And>x c. conv n = Inr x \<Longrightarrow> P c \<Longrightarrow> P (upd x c)) \<Longrightarrow> maintains P (scalar conv upd n)"
  by (auto simp: maintains_def scalar_def split: sum.splits)

lemma maintains_inside:
  assumes "maintains Q f" and "\<And>c. P c \<Longrightarrow> Q (get c)" and "\<And>c m. P c \<Longrightarrow> Q m \<Longrightarrow> P (put m c)"
  shows "maintains P (inside get put f)"
  using assms by (fastforce simp: maintains_def inside_def split: sum.splits)

text \<open>Two documents that agree on the sections read from the root give the same configuration.\<close>

definition section_names :: "string list" where
  "section_names = [''server'', ''storage'', ''auth'', ''namespace'', ''publish'', ''notification'',
     ''limits'', ''logging'']"

lemma parseString_cong:
  assumes "y_load Y u = Inr n" and "y_load Y v = Inr m"
    and "\<forall>k\<in>set section_names. y_at Y n k = y_at Y m k"
  shows "parseString Y u = parseString Y v"
  using assms by (simp add: parseString_def section_names_def on_key_def [abs_def])

lemma parseString_absent:
  assumes "y_load Y u = Inr n" and "\<forall>k\<in>set section_names. y_at Y n k = Inr None"
  shows "parseString Y u = Inr default_AppConfig"
  using assms by (simp add: parseString_def section_names_def)

text \<open>Ports: what a conversion to \<^verbatim>\<open>uint16_t\<close> bounds, and what the port is when it is given.\<close>

definition port :: "int \<Rightarrow> bool" where
  "port p \<longleftrightarrow> 0 \<le> p \<and> p < 65536"

definition ports_ok :: "AppConfig \<Rightarrow> bool" where
  "ports_ok c \<longleftrightarrow> port (http_port (sv_http (ac_server c))) \<and> port (grpc_port (sv_grpc (ac_server c))) \<and>
     port (my_port (st_mysql (ac_storage c)))"

lemmas maintains_field = maintains_on_key [OF maintains_scalar]

lemma parseServer_ports:
  assumes "\<forall>n x. as_uint16 Y n = Inr x \<longrightarrow> port x"
  shows "maintains (\<lambda>c. port (http_port (sv_http c)) \<and> port (grpc_port (sv_grpc c))) (parseServer Y node)"
proof -
  have http: "maintains (\<lambda>h. port (http_port h)) (run_all [
       on_key Y n ''host'' (scalar (as_string Y) (\<lambda>x h. h\<lparr>http_host := x\<rparr>)),
       on_key Y n ''port'' (scalar (as_uint16 Y) (\<lambda>x h. h\<lparr>http_port := x\<rparr>)),
       on_key Y n ''threads'' (scalar (as_int Y) (\<lambda>x h. h\<lparr>http_threads := x\<rparr>))])" for n
    using assms by (intro maintains_run) (simp, intro conjI maintains_field, simp_all)
  have grpc: "maintains (\<lambda>g. port (grpc_port g)) (run_all [
       on_key Y n ''host'' (scalar (as_string Y) (\<lambda>x g. g\<lparr>grpc_host := x\<rparr>)),
       on_key Y n ''port'' (scalar (as_uint16 Y) (\<lambda>x g. g\<lparr>grpc_port := x\<rparr>)),
       on_key Y n ''threads'' (scalar (as_int Y) (\<lambda>x g. g\<lparr>grpc_threads := x\<rparr>))])" for n
    using assms by (intro maintains_run) (simp, intro conjI maintains_field, simp_all)
  show ?thesis unfolding parseServer_def
    by (intro maintains_run)
      (simp del: run_all.simps, intro conjI maintains_on_key maintains_inside [OF http] maintains_inside [OF grpc],
        simp_all)
qed

lemma parseStorage_port:
  assumes "\<forall>n x. as_uint16 Y n = Inr x \<longrightarrow> port x"
  shows "maintains (\<lambda>c. port (my_port (st_mysql c))) (parseStorage Y node)"
proof -
  have mysql: "maintains (\<lambda>m. port (my_port m)) (run_all [
       on_key Y n ''host'' (scalar (as_string Y) (\<lambda>x m. m\<lparr>my_host := x\<rparr>)),
       on_key Y n ''port'' (scalar (as_uint16 Y) (\<lambda>x m. m\<lparr>my_port := x\<rparr>)),
       on_key Y n ''user'' (scalar (as_string Y) (\<lambda>x m. m\<lparr>my_user := x\<rparr>)),
       on_key Y n ''password'' (scalar (as_string Y) (\<lambda>x m. m\<lparr>my_password := x\<rparr>)),
       on_key Y n ''database'' (scalar (as_string Y) (\<lambda>x m. m\<lparr>my_database := x\<rparr>)),
       on_key Y n ''pool_size'' (scalar (as_int Y) (\<lambda>x m. m\<lparr>my_pool_size := x\<rparr>)),
       on_key Y n ''timeout_seconds'' (scalar (as_int Y) (\<lambda>x m. m\<lparr>my_timeout_seconds := x\<rparr>))])" for n
    using assms by (intro maintains_run) (simp, intro conjI maintains_field, simp_all)
  show ?thesis unfolding parseStorage_def
    by (intro maintains_run)
      (simp del: run_all.simps, intro conjI maintains_field maintains_on_key maintains_inside [OF mysql],
        simp_all)
qed

lemma maintains_other:
  "(\<And>c m. P (put m c) = P c) \<Longrightarrow> maintains P (inside get put f)"
  by (auto simp: maintains_def inside_def split: sum.splits)

lemma parseString_ports:
  assumes u16: "\<forall>n x. as_uint16 Y n = Inr x \<longrightarrow> port x" and "parseString Y u = Inr c"
  shows "ports_ok c"
proof -
  have start: "ports_ok default_AppConfig"
    by (simp add: ports_ok_def default_AppConfig_def default_MysqlConfig_def port_def)
  obtain root where root: "y_load Y u = Inr root" using assms(2)
    by (cases "y_load Y u") (auto simp: parseString_def)
  note servers = maintains_inside [where P = ports_ok, OF parseServer_ports [OF u16]]
    and storages = maintains_inside [where P = ports_ok, OF parseStorage_port [OF u16]]
  show ?thesis
    using assms(2) unfolding parseString_def root sum.case
    by (rule maintainsD [where P = ports_ok, OF _ _ start, rotated])
      (intro maintains_run, simp del: run_all.simps,
        intro conjI maintains_on_key servers storages maintains_other, simp_all add: ports_ok_def)
qed


section \<open>Properties\<close>


text \<open>A YAML library that reads every text as an empty mapping.\<close>

definition empty_yaml :: "unit yaml_lib" where
  "empty_yaml = \<lparr>y_load = (\<lambda>_. Inr ()), y_at = (\<lambda>_ _. Inr None), y_seq = (\<lambda>_. []),
     as_string = (\<lambda>_. Inl YamlError), as_uint16 = (\<lambda>_. Inl YamlError), as_int = (\<lambda>_. Inl YamlError),
     as_bool = (\<lambda>_. Inl YamlError)\<rparr>"


end
