(* ===== verification/Server_Main.thy ===== *)
theory Server_Main
  imports Server_Lifecycle Config_Parser
begin

text \<open>
  The server process of \<^verbatim>\<open>src/main.cpp\<close> from its arguments to its end: the decisions of \<open>main_startup\<close>, the
  opening of the store, the HTTP server with its pool of threads in \<^verbatim>\<open>io_context::run\<close>, the gRPC server,
  and the joins. An exception that leaves a thread or \<^verbatim>\<open>main\<close> ends the process by \<^verbatim>\<open>std::terminate\<close>.
\<close>


section \<open>The process\<close>

text \<open>
  The main thread waits in \<^verbatim>\<open>join\<close>, has returned from \<^verbatim>\<open>main\<close>, the process was terminated, or a call
  reached an object that no longer exists, after which C++ promises nothing.
\<close>

datatype phase = Joining | Exited int | Aborted | Use_After_Free

record server_process =
  sp_http :: "storage http_server"
  sp_grpc :: grpc_objects
  sp_threads :: nat
  sp_phase :: phase

definition no_grpc :: grpc_objects where
  "no_grpc = \<lparr>go_next = 0, go_live = {}, go_server = None, go_running = False\<rparr>"

text \<open>
  \<^verbatim>\<open>main\<close> up to the joins. \<open>dbs\<close> is the content of the database file at a path, \<open>bound\<close> the addresses the
  system lets the process listen on: the constructor of the acceptor throws for the others. The result
  is an exception, an exit code, or the running process.
\<close>

definition main_boot ::
  "'y yaml_lib \<Rightarrow> orm \<Rightarrow> (string \<Rightarrow> storage) \<Rightarrow> (string \<Rightarrow> bool) \<Rightarrow> (string \<rightharpoonup> string) \<Rightarrow> string list \<Rightarrow> int \<Rightarrow>
   (int + server_process) result" where
  "main_boot Y E dbs bound files args hardware =
     (case main_startup Y files args hardware of
        Inl e \<Rightarrow> Inl e
      | Inr (ExitCode i) \<Rightarrow> Inr (Inl i)
      | Inr (Serve path (host, portnum) (ghost, gport) _ numThreads) \<Rightarrow>
          (case initialize E (dbs path) of
             (Inl e, _) \<Rightarrow> Inl e
           | (Inr _, s) \<Rightarrow>
               if \<not> bound (host @ '':'' @ to_string portnum) then Inl (RuntimeError ''bind'')
               else Inr (Inr \<lparr>sp_http = server_start (new_server s),
                      sp_grpc = grpc_start bound ghost gport no_grpc,
                      sp_threads = nat numThreads, sp_phase = Joining\<rparr>)))"

text \<open>After the joins the gRPC server is stopped; leaving \<^verbatim>\<open>main\<close> destroys both servers.\<close>

definition main_end :: "server_process \<Rightarrow> server_process" where
  "main_end p = p\<lparr>sp_grpc := delete_GrpcServer (grpc_stop (sp_grpc p)),
     sp_http := delete_HttpServer (sp_http p), sp_phase := Exited 0\<rparr>"

text \<open>
  A step: a thread runs the handler of a completed operation or the next store call of the request it
  handles, a thread returns because nothing is outstanding, a remote call reaches the registered service, or the last join is over.
\<close>

inductive main_step :: "'j json_lib \<Rightarrow> orm \<Rightarrow> server_process \<Rightarrow> server_process \<Rightarrow> bool"
  for J :: "'j json_lib" and E :: orm where
  io_handler: "sp_phase p = Joining \<Longrightarrow> 0 < sp_threads p \<Longrightarrow> http_step J (sqlite_store E) (sp_threads p) (sp_http p) h \<Longrightarrow>
    main_step J E p (p\<lparr>sp_http := h, sp_phase := if hs_crashed h then Aborted else Joining\<rparr>)"
| thread_returns: "sp_phase p = Joining \<Longrightarrow> 0 < sp_threads p \<Longrightarrow> run_returns (sp_http p) \<Longrightarrow>
    main_step J E p (p\<lparr>sp_threads := sp_threads p - 1\<rparr>)"
| rpc_dangling: "sp_phase p = Joining \<Longrightarrow> go_running (sp_grpc p) \<Longrightarrow> go_server (sp_grpc p) = Some (addr, service) \<Longrightarrow>
    service \<notin> go_live (sp_grpc p) \<Longrightarrow> main_step J E p (p\<lparr>sp_phase := Use_After_Free\<rparr>)"
| joined: "sp_phase p = Joining \<Longrightarrow> sp_threads p = 0 \<Longrightarrow> main_step J E p (main_end p)"


section \<open>Invariant of the process\<close>

definition process_inv :: "'j json_lib \<Rightarrow> orm \<Rightarrow> storage \<Rightarrow> server_process \<Rightarrow> server_process \<Rightarrow> bool" where
  "process_inv J E s p0 p \<longleftrightarrow> sp_threads p = sp_threads p0 \<and>
     (\<exists>h. http_run J (sqlite_store E) (sp_threads p0) s h \<and>
        sp_http p = (case sp_phase p of Exited _ \<Rightarrow> delete_HttpServer h | _ \<Rightarrow> h)) \<and>
     (case sp_phase p of
        Joining \<Rightarrow> \<not> hs_crashed (sp_http p) \<and> sp_grpc p = sp_grpc p0
      | Exited i \<Rightarrow> i = 0 \<and> sp_threads p0 = 0 \<and> sp_grpc p = delete_GrpcServer (grpc_stop (sp_grpc p0))
      | Aborted \<Rightarrow> hs_crashed (sp_http p) \<and> 0 < sp_threads p0
      | Use_After_Free \<Rightarrow> go_running (sp_grpc p0))"

lemma process_inv_step: "process_inv J E s p0 p \<Longrightarrow> main_step J E p q \<Longrightarrow> process_inv J E s p0 q"
proof (erule main_step.cases)
  fix p' h
  assume "process_inv J E s p0 p" "p = p'" "q = p'\<lparr>sp_http := h, sp_phase := if hs_crashed h then Aborted else Joining\<rparr>"
    "sp_phase p' = Joining" "0 < sp_threads p'" and h: "http_step J (sqlite_store E) (sp_threads p') (sp_http p') h"
  with run_step [OF _ h] show ?thesis by (simp add: process_inv_def)
next
  fix p'
  assume "process_inv J E s p0 p" "p = p'" "sp_phase p' = Joining" "run_returns (sp_http p')"
  with run_accepting [of J "sqlite_store E" "sp_threads p0" s "sp_http p'"] show ?thesis
    by (simp add: process_inv_def run_returns_def outstanding_def)
qed (auto simp: process_inv_def main_end_def)

lemma process_inv_run: "(main_step J E)\<^sup>*\<^sup>* p q \<Longrightarrow> process_inv J E s p0 p \<Longrightarrow> process_inv J E s p0 q"
  by (induction rule: rtranclp_induct) (auto intro: process_inv_step)

text \<open>What a successful start gives.\<close>

lemma main_boot_process:
  assumes "main_boot Y E dbs bound files args hardware = Inr (Inr p)"
  obtains path s u where "initialize E (dbs path) = (Inr u, s)" and "process_inv J E s p p"
    and "sp_phase p = Joining"
proof -
  have "process_inv J E s p p" if "sp_http p = server_start (new_server s)" "sp_phase p = Joining" for s
    using that run_start [of J "sqlite_store E" "sp_threads p" s]
    by (simp add: process_inv_def server_start_def doAccept_def new_server_def)
  moreover from assms have "\<exists>path s u. initialize E (dbs path) = (Inr u, s) \<and>
      sp_http p = server_start (new_server s) \<and> sp_phase p = Joining"
    by (auto simp: main_boot_def split: sum.splits startup.splits prod.splits if_splits) blast
  ultimately show thesis using that by blast
qed

lemma process_progress:
  assumes "process_inv J E s p0 p" and "sp_phase p = Joining" and "0 < sp_threads p0"
  shows "\<exists>q. main_step J E p q"
proof -
  from assms have threads: "0 < sp_threads p" and "\<not> hs_crashed (sp_http p)"
    and "http_run J (sqlite_store E) (sp_threads p) s (sp_http p)" by (simp_all add: process_inv_def)
  from run_progress [OF this(3,2) threads]
  obtain h where "http_step J (sqlite_store E) (sp_threads p) (sp_http p) h" ..
  from io_handler [OF assms(2) threads this] show ?thesis ..
qed


section \<open>Properties\<close>


text \<open>
  The example: an empty configuration file on a machine with eight cores, the empty store, and two
  connections whose requests are both being handled.
\<close>

definition demo_lib :: "json_value json_lib" where
  "demo_lib = ref_json (\<lambda>_. Inl JsonError) (\<lambda>_. Inr ''{}'')"

definition demo_process :: server_process where
  "demo_process = \<lparr>sp_http = server_start (new_server init_storage),
     sp_grpc = grpc_start (\<lambda>_. True) ''0.0.0.0'' 9090 no_grpc, sp_threads = 8, sp_phase = Joining\<rparr>"

definition demo_request :: "nat \<Rightarrow> storage http_server \<Rightarrow> storage http_server" where
  "demo_request i h = on_read demo_lib (sqlite_store mem_orm) ''t1'' i
     (Some \<lparr>req_target = ''/health'', req_method = GetV, req_body = []\<rparr>) h"

definition demo_served :: server_process where
  "demo_served = demo_process\<lparr>sp_http := demo_request 1 (demo_request 0
     (on_accept False (on_accept False (server_start (new_server init_storage)))))\<rparr>"

lemma demo_starts:
  "main_boot empty_yaml mem_orm (\<lambda>_. init_storage) (\<lambda>_. True) [''c.yaml'' \<mapsto> ''{}''] [''c.yaml''] 8 =
   Inr (Inr demo_process)"
proof -
  have "main_startup empty_yaml [''c.yaml'' \<mapsto> ''{}''] [''c.yaml''] 8 =
      Inr (Serve ''data/config-center.db'' (''0.0.0.0'', 8080) (''0.0.0.0'', 9090) (''change-me-in-production'', 24) 8)"
    using parseString_absent [of empty_yaml "''{}''" "()"]
    by (simp add: empty_yaml_def main_startup_def parseFile_def default_AppConfig_def)
  then show ?thesis
    by (simp add: main_boot_def demo_process_def initialize_def mem_orm_def thenE_def bindE_def ret_def)
qed

lemma io_step:
  "http_step demo_lib (sqlite_store mem_orm) 8 h h' \<Longrightarrow> \<not> hs_crashed h' \<Longrightarrow>
   main_step demo_lib mem_orm (demo_process\<lparr>sp_http := h\<rparr>) (demo_process\<lparr>sp_http := h'\<rparr>)"
  using io_handler [of "demo_process\<lparr>sp_http := h\<rparr>" demo_lib mem_orm h'] by (simp add: demo_process_def)

lemma four_steps: "r a b \<Longrightarrow> r b c \<Longrightarrow> r c d \<Longrightarrow> r d e \<Longrightarrow> r\<^sup>*\<^sup>* a e"
  by simp

lemma demo_serves: "(main_step demo_lib mem_orm)\<^sup>*\<^sup>* demo_process demo_served"
proof -
  let ?step = "http_step demo_lib (sqlite_store mem_orm) 8"
  define h0 where "h0 = server_start (new_server init_storage)"
  define h1 where "h1 = on_accept False h0"
  define h2 where "h2 = on_accept False h1"
  define h3 where "h3 = demo_request 0 h2"
  define h4 where "h4 = demo_request 1 h3"
  note defs = h0_def h1_def h2_def h3_def h4_def demo_request_def server_start_def new_server_def doAccept_def
    on_accept_def session_run_def busy_def handled_def on_read_def
  have crash: "\<not> hs_crashed h1" "\<not> hs_crashed h2" "\<not> hs_crashed h3" "\<not> hs_crashed h4" by (simp_all add: defs)
  have h01: "?step h0 h1" unfolding h1_def by (rule accepted) (simp_all add: defs)
  have h12: "?step h1 h2" unfolding h2_def by (rule accepted) (simp_all add: defs)
  have h23: "?step h2 h3" unfolding h3_def demo_request_def by (rule read_done) (simp_all add: defs)
  have h34: "?step h3 h4" unfolding h4_def demo_request_def by (rule read_done) (simp_all add: defs)
  have "(main_step demo_lib mem_orm)\<^sup>*\<^sup>* (demo_process\<lparr>sp_http := h0\<rparr>) (demo_process\<lparr>sp_http := h4\<rparr>)"
    by (rule four_steps [where r = "main_step demo_lib mem_orm", OF io_step [OF h01 crash(1)]
      io_step [OF h12 crash(2)] io_step [OF h23 crash(3)] io_step [OF h34 crash(4)]])
  moreover have "demo_process\<lparr>sp_http := h0\<rparr> = demo_process" by (simp add: demo_process_def h0_def)
  moreover have "demo_process\<lparr>sp_http := h4\<rparr> = demo_served"
    by (simp add: demo_served_def h0_def h1_def h2_def h3_def h4_def)
  ultimately show ?thesis by simp
qed


end
