(* ===== verification/Server_Objects.thy ===== *)
theory Server_Objects
  imports Store_View Server_Main Notification_Channel
begin

text \<open>
  The objects of the server and the pointers between them (\<^verbatim>\<open>src/main.cpp\<close>, the class definitions under
  \<^verbatim>\<open>include/config-center\<close>). \<^verbatim>\<open>main\<close> puts the store, the managers, the channel and the servers behind
  \<^verbatim>\<open>shared_ptr\<close>: here they are objects of a heap, their members are records, and a member function follows
  the pointers of its object to the store it works on. The locals of \<^verbatim>\<open>main\<close> keep every object alive until
  it returns. What the rest of the development does with one store that is passed along is shown to be what
  the objects do.
\<close>


section \<open>Objects\<close>

type_synonym ptr = nat

record JwtManager =
  jm_secret :: string
  jm_expiryHours :: int

record UserManager =
  uo_store :: ptr

record AuthMiddleware =
  am_jwt :: ptr

record NamespaceManager =
  no_store :: ptr
  no_customEnvironments :: "string list"

record PublishEngine =
  po_store :: ptr

record ApiContext =
  ctx_store :: ptr
  ctx_namespaceManager :: ptr
  ctx_publishEngine :: ptr
  ctx_notificationChannel :: ptr
  ctx_auth :: ptr
  ctx_jwt :: ptr

record HttpServer =
  ho_host :: string
  ho_port :: int
  ho_context :: ApiContext

record GrpcServer =
  gr_host :: string
  gr_port :: int
  gr_context :: ApiContext

datatype shared_object =
    StoreObject storage
  | NamespaceManagerObject NamespaceManager
  | PublishEngineObject PublishEngine
  | ChannelObject "unit channel"
  | JwtManagerObject JwtManager
  | AuthMiddlewareObject AuthMiddleware
  | HttpServerObject HttpServer
  | GrpcServerObject GrpcServer

record heap =
  hp_next :: ptr
  hp_objects :: "ptr \<rightharpoonup> shared_object"

definition empty_heap :: heap where
  "empty_heap = \<lparr>hp_next = 0, hp_objects = Map.empty\<rparr>"

definition put_object :: "ptr \<Rightarrow> shared_object \<Rightarrow> heap \<Rightarrow> heap" where
  "put_object p x h = h\<lparr>hp_objects := (hp_objects h)(p \<mapsto> x)\<rparr>"

text \<open>\<^verbatim>\<open>std::make_shared\<close>, and \<^verbatim>\<open>operator->\<close>, which has no defined result without an object of the class.\<close>

definition make_shared :: "shared_object \<Rightarrow> (heap, ptr) io" where
  "make_shared x h = (Inr (hp_next h), put_object (hp_next h) x (h\<lparr>hp_next := Suc (hp_next h)\<rparr>))"

definition deref :: "ptr \<Rightarrow> (heap, shared_object) io" where
  "deref p h = (case hp_objects h p of None \<Rightarrow> (Inl Undefined, h) | Some x \<Rightarrow> (Inr x, h))"

definition on_store :: "ptr \<Rightarrow> (storage, 'a) io \<Rightarrow> (heap, 'a) io" where
  "on_store p m h =
     (case hp_objects h p of
        Some (StoreObject s) \<Rightarrow> (case m s of (r, t) \<Rightarrow> (r, put_object p (StoreObject t) h))
      | _ \<Rightarrow> (Inl Undefined, h))"


section \<open>Constructors\<close>

definition new_JwtManager :: "string \<Rightarrow> int \<Rightarrow> JwtManager" where
  "new_JwtManager secret expiryHours = \<lparr>jm_secret = secret, jm_expiryHours = expiryHours\<rparr>"

definition new_UserManager :: "ptr \<Rightarrow> UserManager" where
  "new_UserManager store = \<lparr>uo_store = store\<rparr>"

definition new_AuthMiddleware :: "ptr \<Rightarrow> AuthMiddleware" where
  "new_AuthMiddleware jwt = \<lparr>am_jwt = jwt\<rparr>"

definition new_NamespaceManager :: "ptr \<Rightarrow> NamespaceManager" where
  "new_NamespaceManager store = \<lparr>no_store = store, no_customEnvironments = []\<rparr>"

definition new_PublishEngine :: "ptr \<Rightarrow> PublishEngine" where
  "new_PublishEngine store = \<lparr>po_store = store\<rparr>"

text \<open>The constructor of \<^verbatim>\<open>HttpServer\<close> opens the acceptor, which throws on an address it cannot have.\<close>

definition new_HttpServer :: "(string \<Rightarrow> bool) \<Rightarrow> string \<Rightarrow> int \<Rightarrow> ApiContext \<Rightarrow> HttpServer result" where
  "new_HttpServer bound host portnum context =
     (if \<not> bound (host @ '':'' @ to_string portnum) then Inl (RuntimeError ''bind'')
      else Inr \<lparr>ho_host = host, ho_port = portnum, ho_context = context\<rparr>)"

definition new_GrpcServer :: "string \<Rightarrow> int \<Rightarrow> ApiContext \<Rightarrow> GrpcServer" where
  "new_GrpcServer host portnum context = \<lparr>gr_host = host, gr_port = portnum, gr_context = context\<rparr>"

text \<open>What \<^verbatim>\<open>main\<close> builds from the configuration, once the backend is known to be SQLite.\<close>

record main_vars =
  mv_apiContext :: ApiContext
  mv_httpServer :: ptr
  mv_grpcServer :: ptr

definition main_objects ::
  "orm \<Rightarrow> (string \<Rightarrow> bool) \<Rightarrow> (string \<Rightarrow> storage) \<Rightarrow> AppConfig \<Rightarrow> (heap, main_vars) io" where
  "main_objects E bound dbs cfg =
     bindE (make_shared (StoreObject (dbs (st_sqlite_path (ac_storage cfg))))) (\<lambda>store.
     thenE (on_store store (initialize E))
    (bindE (make_shared (NamespaceManagerObject (new_NamespaceManager store))) (\<lambda>namespaceManager.
     bindE (make_shared (PublishEngineObject (new_PublishEngine store))) (\<lambda>publishEngine.
     bindE (make_shared (ChannelObject empty_channel)) (\<lambda>notificationChannel.
     bindE (make_shared (JwtManagerObject (new_JwtManager (jwt_secret (au_jwt (ac_auth cfg)))
         (jwt_expiry_hours (au_jwt (ac_auth cfg)))))) (\<lambda>jwtManager.
     bindE (make_shared (AuthMiddlewareObject (new_AuthMiddleware jwtManager))) (\<lambda>authMiddleware.
     let apiContext = \<lparr>ctx_store = store, ctx_namespaceManager = namespaceManager,
           ctx_publishEngine = publishEngine, ctx_notificationChannel = notificationChannel,
           ctx_auth = authMiddleware, ctx_jwt = jwtManager\<rparr>;
         http = sv_http (ac_server cfg); grpc = sv_grpc (ac_server cfg)
     in bindE (lift (new_HttpServer bound (http_host http) (http_port http) apiContext)) (\<lambda>server.
        bindE (make_shared (HttpServerObject server)) (\<lambda>httpServer.
        bindE (make_shared (GrpcServerObject (new_GrpcServer (grpc_host grpc) (grpc_port grpc) apiContext)))
         (\<lambda>grpcServer.
        ret \<lparr>mv_apiContext = apiContext, mv_httpServer = httpServer, mv_grpcServer = grpcServer\<rparr>))))))))))"


section \<open>Member functions through pointers\<close>

text \<open>The virtual functions of the store behind a \<^verbatim>\<open>shared_ptr<ConfigStore>\<close>.\<close>

definition store_at :: "orm \<Rightarrow> ptr \<Rightarrow> heap config_store" where
  "store_at E p = \<lparr>
     cs_healthCheck = on_store p (healthCheck E),
     cs_createApplication = (\<lambda>app. on_store p (createApplication E app)),
     cs_getApplication = (\<lambda>a. on_store p (getApplication E a)),
     cs_listApplications = on_store p (listApplications E),
     cs_deleteApplication = (\<lambda>a. on_store p (deleteApplication E a)),
     cs_createNamespace = (\<lambda>ns. on_store p (createNamespace E ns)),
     cs_getNamespace = (\<lambda>n. on_store p (getNamespace E n)),
     cs_listNamespaces = (\<lambda>a e c. on_store p (listNamespaces E a e c)),
     cs_deleteNamespace = (\<lambda>n. on_store p (deleteNamespace E n)),
     cs_createConfig = (\<lambda>now n k v op. on_store p (createConfig E now n k v op)),
     cs_updateConfig = (\<lambda>now n k v op d. on_store p (updateConfig E now n k v op d)),
     cs_deleteConfig = (\<lambda>now n k op d. on_store p (deleteConfig E now n k op d)),
     cs_getConfig = (\<lambda>n k d. on_store p (getConfig E n k d)),
     cs_listConfigs = (\<lambda>n d. on_store p (listConfigs E n d)),
     cs_getConfigVersions = (\<lambda>n k. on_store p (getConfigVersions E n k)),
     cs_getConfigVersion = (\<lambda>n k i. on_store p (getConfigVersion E n k i)),
     cs_rollbackConfig = (\<lambda>now n k i op. on_store p (rollbackConfig E now n k i op)),
     cs_getChangeHistory = (\<lambda>q. on_store p (getChangeHistory E q)),
     cs_createRelease = (\<lambda>_ r. on_store p (createRelease E r)),
     cs_getReleases = (\<lambda>q. on_store p (getReleases E q)),
     cs_getRelease = (\<lambda>i. on_store p (getRelease E i)),
     cs_retireRelease = (\<lambda>i. on_store p (retireRelease E i)),
     cs_publishRelease = (\<lambda>now n nt op r. on_store p (publishRelease E now n nt op r)),
     cs_createApproval = (\<lambda>_ a. on_store p (createApproval E a)),
     cs_updateApprovalStatus = (\<lambda>now i st nt. on_store p (updateApprovalStatus E now i st nt)),
     cs_getPendingApprovals = (\<lambda>n. on_store p (getPendingApprovals E n)),
     cs_createUser = (\<lambda>u. on_store p (createUser E u)),
     cs_getUserByUsername = (\<lambda>n. on_store p (getUserByUsername E n)),
     cs_listUsers = on_store p (listUsers E),
     cs_beginTransaction = on_store p (beginTransaction E),
     cs_commitTransaction = on_store p (commitTransaction E),
     cs_rollbackTransaction = on_store p (rollbackTransaction E)\<rparr>"

definition manager_of :: "ApiContext \<Rightarrow> (heap, NamespaceManager) io" where
  "manager_of context = bindE (deref (ctx_namespaceManager context)) (\<lambda>x.
     case x of NamespaceManagerObject m \<Rightarrow> ret m | _ \<Rightarrow> raise Undefined)"

definition engine_of :: "ApiContext \<Rightarrow> (heap, PublishEngine) io" where
  "engine_of context = bindE (deref (ctx_publishEngine context)) (\<lambda>x.
     case x of PublishEngineObject e \<Rightarrow> ret e | _ \<Rightarrow> raise Undefined)"

definition jwt_at :: "ptr \<Rightarrow> (heap, JwtManager) io" where
  "jwt_at p = bindE (deref p) (\<lambda>x. case x of JwtManagerObject j \<Rightarrow> ret j | _ \<Rightarrow> raise Undefined)"

definition middleware_of :: "ApiContext \<Rightarrow> (heap, AuthMiddleware) io" where
  "middleware_of context = bindE (deref (ctx_auth context)) (\<lambda>x.
     case x of AuthMiddlewareObject a \<Rightarrow> ret a | _ \<Rightarrow> raise Undefined)"

text \<open>
  The store as the handlers of \<^verbatim>\<open>HttpSession\<close> reach it: applications and the creation of namespaces through
  \<^verbatim>\<open>context_.namespaceManager\<close>, whose member \<^verbatim>\<open>store_\<close> is used then, the rest through \<^verbatim>\<open>context_.store\<close>.
\<close>

definition via_manager :: "ApiContext \<Rightarrow> (storage, 'a) io \<Rightarrow> (heap, 'a) io" where
  "via_manager context f = bindE (manager_of context) (\<lambda>m. on_store (no_store m) f)"

definition session_store :: "orm \<Rightarrow> ApiContext \<Rightarrow> heap config_store" where
  "session_store E context = (store_at E (ctx_store context))\<lparr>
     cs_createApplication := (\<lambda>app. via_manager context (createApplication E app)),
     cs_getApplication := (\<lambda>a. via_manager context (getApplication E a)),
     cs_listApplications := via_manager context (listApplications E),
     cs_deleteApplication := (\<lambda>a. via_manager context (deleteApplication E a)),
     cs_createNamespace := (\<lambda>ns. via_manager context (createNamespace E ns))\<rparr>"


section \<open>Calls on the objects\<close>

text \<open>
  The public member functions of the classes, one constructor each (\<^verbatim>\<open>resolveConfig\<close>, which may not return,
  the static functions and the waiting of the channel have theories of their own). The first argument of
  a call that reads the clock is its time. Handlers, gRPC services and user managers are made from a copy of
  the context, as their constructors take it.
\<close>

datatype manager_call =
    RegisterApplication string string string "string option"
  | RemoveApplication string
  | ListApplications
  | GetApplication string
  | CreateCluster string string string string
  | ListClusters string string
  | CreateNamespace string string string string string string "string option"
  | DeleteNamespace string
  | GetNamespace string
  | ListNamespaces string string string

datatype engine_call =
    GetDraftChanges string
  | AddDraftChange string string string string string
  | RemoveDraftChange string string string string
  | PublishNamespace string string string string Release
  | SubmitForApproval string string string
  | Approve string int string string
  | Reject string int string string
  | PendingApprovals string
  | PublishGrayscale string string string string int "string list" Release
  | FullRollout string string string int
  | ReleaseHistory string int int

datatype rpc_call =
    RpcGetConfig key_request
  | RpcSetConfig string key_request
  | RpcDeleteConfig string key_request
  | RpcPublishRelease string publish_request
  | RpcGetReleaseHistory history_request

datatype 'j config_handler_call =
    HandleGetConfig string string
  | HandleSetConfig string string string 'j string
  | HandleDeleteConfig string string string string

datatype 'j namespace_handler_call =
    HandleCreateApp string 'j
  | HandleListApps
  | HandleGetApp string
  | HandleDeleteApp string
  | HandleCreateNamespace string 'j
  | HandleListNamespaces string

datatype 'j publish_handler_call =
    HandlePublish string string 'j string
  | HandleGetReleases string

datatype 'j server_call =
    Http string http_request
  | Rpc rpc_call
  | Rpc_Impl rpc_call
  | ConfigHandler "'j config_handler_call"
  | NamespaceHandler "'j namespace_handler_call"
  | PublishHandler "'j publish_handler_call"
  | HealthHandler
  | AuthHandler string string
  | NotificationHandler string string int
  | Manager manager_call
  | ListEnvironments
  | AddCustomEnvironment string
  | Engine engine_call
  | CreateUser string string string string
  | Authenticate string string
  | PublishNotification Notification
  | MissedNotifications string int
  | GenerateToken int string string
  | IsExpired int string
  | ValidateRequest int string string string

datatype 'j reply =
    Answer bool
  | Json 'j
  | Names "string list"
  | Apps "Application list"
  | App "Application option"
  | Space "Namespace option"
  | Spaces "Namespace list"
  | Drafts "ConfigKey list"
  | Released "bool \<times> Release"
  | Submitted "bool \<times> Approval"
  | Approvals "Approval list"
  | Releases "Release list"
  | HttpResponse http_response
  | ConfigReply "grpc_status \<times> config_msg option"
  | DeleteReply "grpc_status \<times> bool"
  | ReleaseReply "grpc_status \<times> release_msg option"
  | HistoryReply "grpc_status \<times> history_response"
  | Notifications "Notification list"
  | Token string
  | Identity "bool \<times> string \<times> string"
  | Nothing

definition replying :: "('a \<Rightarrow> 'j reply) \<Rightarrow> ('s, 'a) io \<Rightarrow> ('s, 'j reply) io" where
  "replying f m = bindE m (\<lambda>x. ret (f x))"

text \<open>The libraries the server is linked with.\<close>

record ('j, 'd) libraries =
  lib_json :: "'j json_lib"
  lib_jwt :: "'d jwt_lib"
  lib_sha256 :: "string \<Rightarrow> nat list"
  lib_dump :: "string list \<Rightarrow> string result"
  lib_orm :: orm

fun manager_run :: "'s config_store \<Rightarrow> manager_call \<Rightarrow> ('s, 'j reply) io" where
  "manager_run S (RegisterApplication now a n d) = replying Answer (registerApplication S now a n d)"
| "manager_run S (RemoveApplication a) = replying Answer (removeApplication S a)"
| "manager_run S ListApplications = replying Apps (nm_listApplications S)"
| "manager_run S (GetApplication a) = replying App (nm_getApplication S a)"
| "manager_run S (CreateCluster now a e c) = replying Answer (createCluster S now a e c)"
| "manager_run S (ListClusters a e) = replying Names (listClusters S a e)"
| "manager_run S (CreateNamespace now a e c n t p) = replying Answer (nm_createNamespace S now a e c n t p)"
| "manager_run S (DeleteNamespace n) = replying Answer (nm_deleteNamespace S n)"
| "manager_run S (GetNamespace n) = replying Space (nm_getNamespace S n)"
| "manager_run S (ListNamespaces a e c) = replying Spaces (nm_listNamespaces S a e c)"

fun engine_run :: "'s config_store \<Rightarrow> (string list \<Rightarrow> string result) \<Rightarrow> engine_call \<Rightarrow> ('s, 'j reply) io" where
  "engine_run S dump (GetDraftChanges n) = replying Drafts (getDraftChanges S n)"
| "engine_run S dump (AddDraftChange now n k v op) = replying Answer (addDraftChange S now n k v op)"
| "engine_run S dump (RemoveDraftChange now n k op) = replying Answer (removeDraftChange S now n k op)"
| "engine_run S dump (PublishNamespace now n nt op r) = replying Released (publish S now n nt op r)"
| "engine_run S dump (SubmitForApproval now n op) = replying Submitted (submitForApproval S now n op)"
| "engine_run S dump (Approve now i op nt) = replying Answer (approve S now i op nt)"
| "engine_run S dump (Reject now i op nt) = replying Answer (reject S now i op nt)"
| "engine_run S dump (PendingApprovals n) = replying Approvals (pe_getPendingApprovals S n)"
| "engine_run S dump (PublishGrayscale now n nt op pc wl r) =
     replying Released (publishGrayscale S dump now n nt op pc wl r)"
| "engine_run S dump (FullRollout now n op i) = replying Answer (fullRollout S now n op i)"
| "engine_run S dump (ReleaseHistory n pg sz) = replying Releases (getReleaseHistory S n pg sz)"

fun rpc_run :: "'s config_store \<Rightarrow> rpc_call \<Rightarrow> ('s, 'j reply) io" where
  "rpc_run S (RpcGetConfig q) = replying ConfigReply (cgs_GetConfig S q)"
| "rpc_run S (RpcSetConfig now q) = replying ConfigReply (cgs_SetConfig S now q)"
| "rpc_run S (RpcDeleteConfig now q) = replying DeleteReply (cgs_DeleteConfig S now q)"
| "rpc_run S (RpcPublishRelease now q) = replying ReleaseReply (cgs_PublishRelease S now q)"
| "rpc_run S (RpcGetReleaseHistory q) = replying HistoryReply (cgs_GetReleaseHistory S q)"

fun impl_run :: "'s config_store \<Rightarrow> rpc_call \<Rightarrow> ('s, 'j reply) io" where
  "impl_run S (RpcGetConfig q) = replying ConfigReply (gsi_GetConfig S q)"
| "impl_run S (RpcSetConfig now q) = replying ConfigReply (gsi_SetConfig S now q)"
| "impl_run S (RpcDeleteConfig now q) = replying DeleteReply (gsi_DeleteConfig S now q)"
| "impl_run S (RpcPublishRelease now q) = replying ReleaseReply (gsi_PublishRelease S now q)"
| "impl_run S (RpcGetReleaseHistory q) = replying HistoryReply (gsi_GetReleaseHistory S q)"

fun config_handler_run :: "'j json_lib \<Rightarrow> 's config_store \<Rightarrow> 'j config_handler_call \<Rightarrow> ('s, 'j) io" where
  "config_handler_run J S (HandleGetConfig n k) = ConfigHandler_handleGetConfig J S n k"
| "config_handler_run J S (HandleSetConfig now n k b op) = ConfigHandler_handleSetConfig J S now n k b op"
| "config_handler_run J S (HandleDeleteConfig now n k op) = ConfigHandler_handleDeleteConfig J S now n k op"

fun namespace_handler_run :: "'j json_lib \<Rightarrow> 's config_store \<Rightarrow> 'j namespace_handler_call \<Rightarrow> ('s, 'j) io" where
  "namespace_handler_run J S (HandleCreateApp now b) = NamespaceHandler_handleCreateApp J S now b"
| "namespace_handler_run J S HandleListApps = NamespaceHandler_handleListApps J S"
| "namespace_handler_run J S (HandleGetApp a) = NamespaceHandler_handleGetApp J S a"
| "namespace_handler_run J S (HandleDeleteApp a) = NamespaceHandler_handleDeleteApp J S a"
| "namespace_handler_run J S (HandleCreateNamespace now b) = NamespaceHandler_handleCreateNamespace J S now b"
| "namespace_handler_run J S (HandleListNamespaces a) = NamespaceHandler_handleListNamespaces J S a"

fun publish_handler_run :: "'j json_lib \<Rightarrow> 's config_store \<Rightarrow> 'j publish_handler_call \<Rightarrow> ('s, 'j) io" where
  "publish_handler_run J S (HandlePublish now n b op) = PublishHandler_handlePublish J S now n b op"
| "publish_handler_run J S (HandleGetReleases n) = PublishHandler_handleGetReleases J S n"

text \<open>
  The contexts of the sessions and services: \<^verbatim>\<open>doAccept\<close> gives a new \<^verbatim>\<open>HttpSession\<close> a copy of the server's
  context, \<^verbatim>\<open>GrpcServer::start\<close> the \<^verbatim>\<open>ConfigGrpcService\<close>.
\<close>

definition session_context :: "ptr \<Rightarrow> (heap, ApiContext) io" where
  "session_context p = bindE (deref p) (\<lambda>x.
     case x of HttpServerObject s \<Rightarrow> ret (ho_context s) | _ \<Rightarrow> raise Undefined)"

definition service_context :: "ptr \<Rightarrow> (heap, ApiContext) io" where
  "service_context p = bindE (deref p) (\<lambda>x.
     case x of GrpcServerObject s \<Rightarrow> ret (gr_context s) | _ \<Rightarrow> raise Undefined)"

definition on_channel :: "ptr \<Rightarrow> (unit channel \<times> unit, 'a) io \<Rightarrow> (heap, 'a) io" where
  "on_channel p m h =
     (case hp_objects h p of
        Some (ChannelObject ch) \<Rightarrow> (case m (ch, ()) of (r, (c, _)) \<Rightarrow> (r, put_object p (ChannelObject c) h))
      | _ \<Rightarrow> (Inl Undefined, h))"

text \<open>\<^verbatim>\<open>addCustomEnvironment\<close> changes the manager it is called on.\<close>

definition add_environment :: "ptr \<Rightarrow> string \<Rightarrow> (heap, bool) io" where
  "add_environment p env h =
     (case hp_objects h p of
        Some (NamespaceManagerObject m) \<Rightarrow>
          (case addCustomEnvironment env (no_customEnvironments m) of
             (b, envs) \<Rightarrow> (Inr b, put_object p (NamespaceManagerObject (m\<lparr>no_customEnvironments := envs\<rparr>)) h))
      | _ \<Rightarrow> (Inl Undefined, h))"

fun object_call :: "('j, 'd) libraries \<Rightarrow> main_vars \<Rightarrow> 'j server_call \<Rightarrow> (heap, 'j reply) io" where
  "object_call X v (Http now rq) = bindE (session_context (mv_httpServer v)) (\<lambda>context.
     replying HttpResponse (handleRequest (lib_json X) (session_store (lib_orm X) context) now rq))"
| "object_call X v (Rpc c) = bindE (service_context (mv_grpcServer v)) (\<lambda>context.
     rpc_run (store_at (lib_orm X) (ctx_store context)) c)"
| "object_call X v (Rpc_Impl c) = impl_run (store_at (lib_orm X) (ctx_store (mv_apiContext v))) c"
| "object_call X v (ConfigHandler c) = replying Json
     (config_handler_run (lib_json X) (session_store (lib_orm X) (mv_apiContext v)) c)"
| "object_call X v (NamespaceHandler c) = replying Json
     (namespace_handler_run (lib_json X) (session_store (lib_orm X) (mv_apiContext v)) c)"
| "object_call X v (PublishHandler c) = replying Json
     (publish_handler_run (lib_json X) (session_store (lib_orm X) (mv_apiContext v)) c)"
| "object_call X v HealthHandler = replying Json
     (HealthHandler_handleHealth (lib_json X) (session_store (lib_orm X) (mv_apiContext v)))"
| "object_call X v (AuthHandler u p) = ret (Json (AuthHandler_handleLogin (lib_json X) u p))"
| "object_call X v (NotificationHandler n l t) = ret (Json (NotificationHandler_handleLongPoll (lib_json X) n l t))"
| "object_call X v (Manager c) = bindE (manager_of (mv_apiContext v)) (\<lambda>m.
     manager_run (store_at (lib_orm X) (no_store m)) c)"
| "object_call X v ListEnvironments = bindE (manager_of (mv_apiContext v)) (\<lambda>m.
     ret (Names (listEnvironments (no_customEnvironments m))))"
| "object_call X v (AddCustomEnvironment env) =
     replying Answer (add_environment (ctx_namespaceManager (mv_apiContext v)) env)"
| "object_call X v (Engine c) = bindE (engine_of (mv_apiContext v)) (\<lambda>e.
     engine_run (store_at (lib_orm X) (po_store e)) (lib_dump X) c)"
| "object_call X v (CreateUser now n p r) =
     (let um = new_UserManager (ctx_store (mv_apiContext v))
      in replying Answer (um_createUser (store_at (lib_orm X) (uo_store um)) (lib_sha256 X) now n p r))"
| "object_call X v (Authenticate n p) =
     (let um = new_UserManager (ctx_store (mv_apiContext v))
      in replying Answer (authenticate (store_at (lib_orm X) (uo_store um)) (lib_sha256 X) n p))"
| "object_call X v (PublishNotification n) =
     replying (\<lambda>_. Nothing) (on_channel (ctx_notificationChannel (mv_apiContext v)) (channel_publish n))"
| "object_call X v (MissedNotifications n i) =
     replying Notifications (on_channel (ctx_notificationChannel (mv_apiContext v))
       (\<lambda>(ch, w). (Inr (getMissedNotifications n i ch), (ch, w))))"
| "object_call X v (GenerateToken t u r) = bindE (jwt_at (ctx_jwt (mv_apiContext v))) (\<lambda>j.
     replying Token (lift (generateToken (lib_jwt X) (jm_secret j) (jm_expiryHours j) t u r)))"
| "object_call X v (IsExpired t tok) = bindE (jwt_at (ctx_jwt (mv_apiContext v))) (\<lambda>j.
     ret (Answer (isExpired (lib_jwt X) t tok)))"
| "object_call X v (ValidateRequest t hdr u r) = bindE (middleware_of (mv_apiContext v)) (\<lambda>a.
     bindE (jwt_at (am_jwt a)) (\<lambda>j. ret (Identity (validateRequest (lib_jwt X) (jm_secret j) t hdr u r))))"

text \<open>A sequence of calls, with an outcome each; a call that throws leaves the state it threw in.\<close>

fun run_calls :: "('c \<Rightarrow> ('s, 'a) io) \<Rightarrow> 'c list \<Rightarrow> 's \<Rightarrow> 'a result list \<times> 's" where
  "run_calls f [] s = ([], s)"
| "run_calls f (c # cs) s = (case f c s of (r, t) \<Rightarrow> map_prod ((#) r) id (run_calls f cs t))"


context store_part
begin

lemma acts_replying: "acts ok get put m' m \<Longrightarrow> acts ok get put (replying f m') (replying f m)"
  unfolding replying_def by (intro acts_intros)

lemma calls:
  "acts ok get put (manager_run T mc) (manager_run S mc)"
  "acts ok get put (engine_run T dump ec) (engine_run S dump ec)"
  "acts ok get put (rpc_run T rc) (rpc_run S rc)"
  "acts ok get put (impl_run T rc) (impl_run S rc)"
  "acts ok get put (config_handler_run J T cc) (config_handler_run J S cc)"
  "acts ok get put (namespace_handler_run J T nc) (namespace_handler_run J S nc)"
  "acts ok get put (publish_handler_run J T pc) (publish_handler_run J S pc)"
proof -
  show "acts ok get put (manager_run T mc) (manager_run S mc)"
    by (cases mc) (simp_all add: acts_replying manager)
  show "acts ok get put (engine_run T dump ec) (engine_run S dump ec)"
    by (cases ec) (simp_all add: acts_replying engine)
  show "acts ok get put (rpc_run T rc) (rpc_run S rc)" "acts ok get put (impl_run T rc) (impl_run S rc)"
    by (cases rc; simp add: acts_replying services other_services)+
  show "acts ok get put (config_handler_run J T cc) (config_handler_run J S cc)"
    by (cases cc) (simp_all add: handlers)
  show "acts ok get put (namespace_handler_run J T nc) (namespace_handler_run J S nc)"
    by (cases nc) (simp_all add: handlers)
  show "acts ok get put (publish_handler_run J T pc) (publish_handler_run J S pc)"
    by (cases pc) (simp_all add: handlers)
qed

end


section \<open>One state\<close>

text \<open>What there is to know of the objects: the store, the environments and the notifications.\<close>

record flat_state =
  fl_store :: storage
  fl_environments :: "string list"
  fl_channel :: "unit channel"

definition on_flat_store :: "(storage, 'a) io \<Rightarrow> (flat_state, 'a) io" where
  "on_flat_store m f = (case m (fl_store f) of (r, s) \<Rightarrow> (r, f\<lparr>fl_store := s\<rparr>))"

definition on_flat_channel :: "(unit channel \<times> unit, 'a) io \<Rightarrow> (flat_state, 'a) io" where
  "on_flat_channel m f = (case m (fl_channel f, ()) of (r, (c, _)) \<Rightarrow> (r, f\<lparr>fl_channel := c\<rparr>))"

fun flat_call :: "('j, 'd) libraries \<Rightarrow> JwtManager \<Rightarrow> 'j server_call \<Rightarrow> (flat_state, 'j reply) io" where
  "flat_call X j (Http now rq) =
     on_flat_store (replying HttpResponse (handleRequest (lib_json X) (sqlite_store (lib_orm X)) now rq))"
| "flat_call X j (Rpc c) = on_flat_store (rpc_run (sqlite_store (lib_orm X)) c)"
| "flat_call X j (Rpc_Impl c) = on_flat_store (impl_run (sqlite_store (lib_orm X)) c)"
| "flat_call X j (ConfigHandler c) =
     on_flat_store (replying Json (config_handler_run (lib_json X) (sqlite_store (lib_orm X)) c))"
| "flat_call X j (NamespaceHandler c) =
     on_flat_store (replying Json (namespace_handler_run (lib_json X) (sqlite_store (lib_orm X)) c))"
| "flat_call X j (PublishHandler c) =
     on_flat_store (replying Json (publish_handler_run (lib_json X) (sqlite_store (lib_orm X)) c))"
| "flat_call X j HealthHandler =
     on_flat_store (replying Json (HealthHandler_handleHealth (lib_json X) (sqlite_store (lib_orm X))))"
| "flat_call X j (AuthHandler u p) = ret (Json (AuthHandler_handleLogin (lib_json X) u p))"
| "flat_call X j (NotificationHandler n l t) = ret (Json (NotificationHandler_handleLongPoll (lib_json X) n l t))"
| "flat_call X j (Manager c) = on_flat_store (manager_run (sqlite_store (lib_orm X)) c)"
| "flat_call X j ListEnvironments = (\<lambda>f. (Inr (Names (listEnvironments (fl_environments f))), f))"
| "flat_call X j (AddCustomEnvironment env) = (\<lambda>f.
     case addCustomEnvironment env (fl_environments f) of
       (b, envs) \<Rightarrow> (Inr (Answer b), f\<lparr>fl_environments := envs\<rparr>))"
| "flat_call X j (Engine c) = on_flat_store (engine_run (sqlite_store (lib_orm X)) (lib_dump X) c)"
| "flat_call X j (CreateUser now n p r) =
     on_flat_store (replying Answer (um_createUser (sqlite_store (lib_orm X)) (lib_sha256 X) now n p r))"
| "flat_call X j (Authenticate n p) =
     on_flat_store (replying Answer (authenticate (sqlite_store (lib_orm X)) (lib_sha256 X) n p))"
| "flat_call X j (PublishNotification n) = replying (\<lambda>_. Nothing) (on_flat_channel (channel_publish n))"
| "flat_call X j (MissedNotifications n i) = (\<lambda>f.
     (Inr (Notifications (getMissedNotifications n i (fl_channel f))), f))"
| "flat_call X j (GenerateToken t u r) =
     replying Token (lift (generateToken (lib_jwt X) (jm_secret j) (jm_expiryHours j) t u r))"
| "flat_call X j (IsExpired t tok) = ret (Answer (isExpired (lib_jwt X) t tok))"
| "flat_call X j (ValidateRequest t hdr u r) =
     ret (Identity (validateRequest (lib_jwt X) (jm_secret j) t hdr u r))"


section \<open>The object graph\<close>

text \<open>
  The graph that \<^verbatim>\<open>main\<close> builds: every manager holds the pointer of the one store, the middleware that of
  the one token manager \<open>j\<close>, and the servers hold copies of the context.
\<close>

definition wired :: "main_vars \<Rightarrow> JwtManager \<Rightarrow> heap \<Rightarrow> bool" where
  "wired v j h \<longleftrightarrow> (let c = mv_apiContext v in
     (\<exists>s. hp_objects h (ctx_store c) = Some (StoreObject s)) \<and>
     (\<exists>envs. hp_objects h (ctx_namespaceManager c) =
        Some (NamespaceManagerObject \<lparr>no_store = ctx_store c, no_customEnvironments = envs\<rparr>)) \<and>
     hp_objects h (ctx_publishEngine c) = Some (PublishEngineObject \<lparr>po_store = ctx_store c\<rparr>) \<and>
     (\<exists>ch. hp_objects h (ctx_notificationChannel c) = Some (ChannelObject ch)) \<and>
     hp_objects h (ctx_jwt c) = Some (JwtManagerObject j) \<and>
     hp_objects h (ctx_auth c) = Some (AuthMiddlewareObject \<lparr>am_jwt = ctx_jwt c\<rparr>) \<and>
     (\<exists>s. hp_objects h (mv_httpServer v) = Some (HttpServerObject s) \<and> ho_context s = c) \<and>
     (\<exists>s. hp_objects h (mv_grpcServer v) = Some (GrpcServerObject s) \<and> gr_context s = c))"

definition store_in :: "main_vars \<Rightarrow> heap \<Rightarrow> storage" where
  "store_in v h = (case hp_objects h (ctx_store (mv_apiContext v)) of Some (StoreObject s) \<Rightarrow> s | _ \<Rightarrow> init_storage)"

definition put_store :: "main_vars \<Rightarrow> storage \<Rightarrow> heap \<Rightarrow> heap" where
  "put_store v s = put_object (ctx_store (mv_apiContext v)) (StoreObject s)"

definition flat :: "main_vars \<Rightarrow> heap \<Rightarrow> flat_state" where
  "flat v h = (let c = mv_apiContext v in
     \<lparr>fl_store = store_in v h,
      fl_environments = (case hp_objects h (ctx_namespaceManager c) of
        Some (NamespaceManagerObject m) \<Rightarrow> no_customEnvironments m | _ \<Rightarrow> []),
      fl_channel = (case hp_objects h (ctx_notificationChannel c) of
        Some (ChannelObject ch) \<Rightarrow> ch | _ \<Rightarrow> empty_channel)\<rparr>)"

lemma put_object_simps [simp]:
  "hp_objects (put_object p x h) = (hp_objects h)(p \<mapsto> x)"
  "hp_next (put_object p x h) = hp_next h"
  "put_object p x (put_object p y h) = put_object p x h"
  by (simp_all add: put_object_def)

lemma put_object_same: "hp_objects h p = Some x \<Longrightarrow> put_object p x h = h"
  by (cases h) (simp add: put_object_def fun_upd_idem)

text \<open>Pointers to objects of different classes differ.\<close>

lemma wired_put_store: "wired v j h \<Longrightarrow> wired v j (put_store v s h)"
  by (auto simp: wired_def put_store_def Let_def)

interpretation part: state_part "wired v j" "store_in v" "put_store v" for v j
proof
  fix h s t assume w: "wired v j h"
  then obtain r where r: "hp_objects h (ctx_store (mv_apiContext v)) = Some (StoreObject r)"
    by (auto simp: wired_def Let_def)
  from r show "store_in v (put_store v s h) = s" "put_store v (store_in v h) h = h"
    by (simp_all add: store_in_def put_store_def put_object_same)
  show "put_store v s (put_store v t h) = put_store v s h" by (simp add: put_store_def)
  from w show "wired v j (put_store v s h)" by (rule wired_put_store)
qed

lemma acts_on_store:
  "acts (wired v j) (store_in v) (put_store v) (on_store (ctx_store (mv_apiContext v)) m) m"
  by (rule part.actsI) (auto simp: wired_def store_in_def put_store_def on_store_def Let_def)

lemma manager_of_run:
  "wired v j h \<Longrightarrow> \<exists>envs. manager_of (mv_apiContext v) h =
     (Inr \<lparr>no_store = ctx_store (mv_apiContext v), no_customEnvironments = envs\<rparr>, h)"
  by (auto simp: wired_def manager_of_def deref_def bindE_def ret_def Let_def)

lemma acts_via_manager:
  "acts (wired v j) (store_in v) (put_store v) (via_manager (mv_apiContext v) m) m"
proof (rule part.actsI)
  fix h r s assume w: "wired v j h" and "m (store_in v h) = (r, s)"
  from manager_of_run [OF w] actsD [OF acts_on_store [of v j m] this]
  show "via_manager (mv_apiContext v) m h = (r, put_store v s h)" by (auto simp: via_manager_def bindE_def)
qed

interpretation pointer: store_part "wired v j" "store_in v" "put_store v"
    "store_at E (ctx_store (mv_apiContext v))" "sqlite_store E" for v j E
  by unfold_locales (simp_all add: store_at_def sqlite_store_def acts_on_store)

interpretation session: store_part "wired v j" "store_in v" "put_store v"
    "session_store E (mv_apiContext v)" "sqlite_store E" for v j E
  by unfold_locales (simp_all add: session_store_def store_at_def sqlite_store_def acts_on_store acts_via_manager)


section \<open>Refinement\<close>

lemma flat_put_store: "wired v j h \<Longrightarrow> flat v (put_store v s h) = (flat v h)\<lparr>fl_store := s\<rparr>"
  by (auto simp: flat_def wired_def put_store_def store_in_def Let_def)

lemma acts_flat:
  assumes "acts (wired v j) (store_in v) (put_store v) m' m" and "wired v j h" and "m' h = (r, h')"
  shows "wired v j h' \<and> on_flat_store m (flat v h) = (r, flat v h')"
proof -
  obtain q s where m: "m (store_in v h) = (q, s)" by fastforce
  from actsD [OF assms(1,2) m] assms(3) have "r = q" "h' = put_store v s h" by simp_all
  with m assms(2) flat_put_store [OF assms(2)] show ?thesis
    by (simp add: wired_put_store on_flat_store_def) (simp add: flat_def Let_def)
qed

lemma contexts_run:
  assumes "wired v j h"
  shows "session_context (mv_httpServer v) h = (Inr (mv_apiContext v), h)"
    "service_context (mv_grpcServer v) h = (Inr (mv_apiContext v), h)"
    "engine_of (mv_apiContext v) h = (Inr \<lparr>po_store = ctx_store (mv_apiContext v)\<rparr>, h)"
    "jwt_at (ctx_jwt (mv_apiContext v)) h = (Inr j, h)"
    "middleware_of (mv_apiContext v) h = (Inr \<lparr>am_jwt = ctx_jwt (mv_apiContext v)\<rparr>, h)"
    "manager_of (mv_apiContext v) h =
       (Inr \<lparr>no_store = ctx_store (mv_apiContext v), no_customEnvironments = fl_environments (flat v h)\<rparr>, h)"
  using assms
  by (auto simp: wired_def session_context_def service_context_def engine_of_def jwt_at_def middleware_of_def
      manager_of_def deref_def bindE_def ret_def flat_def Let_def)

lemma add_environment_refines:
  assumes "wired v j h" and "add_environment (ctx_namespaceManager (mv_apiContext v)) env h = (r, h')"
  shows "wired v j h' \<and>
    (\<exists>b envs. addCustomEnvironment env (fl_environments (flat v h)) = (b, envs) \<and> r = Inr b \<and>
       flat v h' = (flat v h)\<lparr>fl_environments := envs\<rparr>)"
  using assms
  by (auto simp: wired_def add_environment_def flat_def store_in_def Let_def split: prod.splits)

lemma channel_refines:
  assumes "wired v j h" and "on_channel (ctx_notificationChannel (mv_apiContext v)) m h = (r, h')"
  shows "wired v j h' \<and> on_flat_channel m (flat v h) = (r, flat v h')"
  using assms
  by (auto simp: wired_def on_channel_def on_flat_channel_def flat_def store_in_def Let_def split: prod.splits)

text \<open>One call, then any number of them.\<close>

lemma object_call_refines:
  assumes w: "wired v j h" and run: "object_call X v c h = (r, h')"
  shows "wired v j h' \<and> flat_call X j c (flat v h) = (r, flat v h')"
proof (cases c)
  case (Http now rq)
  with run contexts_run(1) [OF w] acts_flat [OF session.acts_replying [OF session.request] w] show ?thesis
    by (simp add: bindE_def)
next
  case (Rpc c)
  with run contexts_run(2) [OF w] acts_flat [OF pointer.calls(3) w] show ?thesis by (simp add: bindE_def)
next
  case (Rpc_Impl c)
  with run acts_flat [OF pointer.calls(4) w] show ?thesis by simp
next
  case (ConfigHandler c)
  with run acts_flat [OF session.acts_replying [OF session.calls(5)] w] show ?thesis by simp
next
  case (NamespaceHandler c)
  with run acts_flat [OF session.acts_replying [OF session.calls(6)] w] show ?thesis by simp
next
  case (PublishHandler c)
  with run acts_flat [OF session.acts_replying [OF session.calls(7)] w] show ?thesis by simp
next
  case HealthHandler
  with run acts_flat [OF session.acts_replying [OF session.handlers(12)] w] show ?thesis by simp
next
  case (Manager c)
  with run contexts_run(6) [OF w] acts_flat [OF pointer.calls(1) w] show ?thesis by (simp add: bindE_def)
next
  case (Engine c)
  with run contexts_run(3) [OF w] acts_flat [OF pointer.calls(2) w] show ?thesis by (simp add: bindE_def)
next
  case (CreateUser now n p r)
  with run acts_flat [OF pointer.acts_replying [OF pointer.users(1)] w] show ?thesis
    by (simp add: new_UserManager_def)
next
  case (Authenticate n p)
  with run acts_flat [OF pointer.acts_replying [OF pointer.users(2)] w] show ?thesis
    by (simp add: new_UserManager_def)
next
  case (AddCustomEnvironment env)
  with run add_environment_refines [OF w] show ?thesis
    by (fastforce simp: replying_def bindE_def ret_def split: prod.splits sum.splits)
next
  case (PublishNotification n)
  obtain q g where "on_channel (ctx_notificationChannel (mv_apiContext v)) (channel_publish n) h = (q, g)" by fastforce
  with run PublishNotification channel_refines [OF w this] show ?thesis
    by (auto simp: replying_def bindE_def ret_def split: sum.splits)
next
  case (MissedNotifications n i)
  obtain q g where "on_channel (ctx_notificationChannel (mv_apiContext v))
      (\<lambda>(ch, w). (Inr (getMissedNotifications n i ch), (ch, w))) h = (q, g)" by fastforce
  with run MissedNotifications channel_refines [OF w this] show ?thesis
    by (auto simp: replying_def bindE_def ret_def on_flat_channel_def)
qed (use w run contexts_run [OF w] in \<open>auto simp: bindE_def ret_def replying_def lift_def split: sum.splits\<close>)

lemma run_calls_refines:
  "wired v j h \<Longrightarrow> run_calls (object_call X v) cs h = (rs, g) \<Longrightarrow>
   wired v j g \<and> run_calls (flat_call X j) cs (flat v h) = (rs, flat v g)"
proof (induction cs arbitrary: h rs)
  case (Cons c cs)
  obtain r h1 where c: "object_call X v c h = (r, h1)" by fastforce
  obtain qs g' where cs: "run_calls (object_call X v) cs h1 = (qs, g')" by fastforce
  from Cons.prems(2) c cs have *: "rs = r # qs" "g' = g" by auto
  from object_call_refines [OF Cons.prems(1) c] have "wired v j h1"
    and "flat_call X j c (flat v h) = (r, flat v h1)" by auto
  with Cons.IH [OF this(1) cs [unfolded *(2)]] * c show ?case by simp
qed simp


section \<open>The objects of main\<close>

lemma main_objects_run:
  assumes "initialize E (dbs (st_sqlite_path (ac_storage cfg))) = (Inr u, s)"
    and "bound (http_host (sv_http (ac_server cfg)) @ '':'' @ to_string (http_port (sv_http (ac_server cfg))))"
  obtains v h where "main_objects E bound dbs cfg empty_heap = (Inr v, h)"
    and "wired v (new_JwtManager (jwt_secret (au_jwt (ac_auth cfg))) (jwt_expiry_hours (au_jwt (ac_auth cfg)))) h"
    and "flat v h = \<lparr>fl_store = s, fl_environments = [], fl_channel = empty_channel\<rparr>"
proof -
  note defs = main_objects_def bindE_def thenE_def make_shared_def on_store_def empty_heap_def lift_def ret_def
    new_NamespaceManager_def new_PublishEngine_def new_AuthMiddleware_def new_HttpServer_def new_GrpcServer_def
  from assms obtain v h where run: "main_objects E bound dbs cfg empty_heap = (Inr v, h)"
    by (simp add: defs Let_def)
  show thesis
    by (rule that [OF run])
      (use run assms in \<open>auto simp: defs wired_def flat_def store_in_def put_object_def Let_def\<close>)
qed

lemma main_objects_Inr:
  assumes "main_objects E bound dbs cfg empty_heap = (Inr v, h)"
  shows "wired v (new_JwtManager (jwt_secret (au_jwt (ac_auth cfg))) (jwt_expiry_hours (au_jwt (ac_auth cfg)))) h"
proof -
  obtain r s where init: "initialize E (dbs (st_sqlite_path (ac_storage cfg))) = (r, s)" by fastforce
  from assms init obtain u where "r = Inr u"
    and "bound (http_host (sv_http (ac_server cfg)) @ '':'' @ to_string (http_port (sv_http (ac_server cfg))))"
    by (cases r) (auto simp: main_objects_def bindE_def thenE_def make_shared_def on_store_def empty_heap_def
        lift_def new_HttpServer_def Let_def split: if_splits)
  with main_objects_run [of E dbs cfg u s bound] init assms show ?thesis by force
qed

lemma main_boot_config:
  assumes "main_boot Y E dbs bound files args hardware = Inr (Inr p)"
  obtains cfg u where "parseFile Y files (case args of [] \<Rightarrow> ''config-server.yaml'' | a # _ \<Rightarrow> a) = Inr cfg"
    and "initialize E (dbs (st_sqlite_path (ac_storage cfg))) = (Inr u, hs_store (sp_http p))"
    and "bound (http_host (sv_http (ac_server cfg)) @ '':'' @ to_string (http_port (sv_http (ac_server cfg))))"
  using assms that
  by (auto simp: main_boot_def main_startup_def server_start_def doAccept_def new_server_def Let_def
      split: sum.splits prod.splits if_splits startup.splits)


section \<open>Properties\<close>


text \<open>
  The example: a draft written by the publish engine, published over HTTP by a session, and read by the
  gRPC service, after the manager was given an environment.
\<close>

definition demo_libs :: "(json_value, string list) libraries" where
  "demo_libs = \<lparr>lib_json = ref_json (\<lambda>_. Inr (JObj [])) (\<lambda>_. Inr ''{}''), lib_jwt = ref_jwt, lib_sha256 = map of_char,
     lib_dump = (\<lambda>_. Inr []), lib_orm = mem_orm\<rparr>"

lemma demo_libs_orm: "lib_orm demo_libs = mem_orm" "lib_jwt demo_libs = ref_jwt"
  by (simp_all add: demo_libs_def)

definition demo_calls :: "json_value server_call list" where
  "demo_calls = [Engine (AddDraftChange ''t1'' ''ns'' ''k'' ''v'' ''bob''), AddCustomEnvironment ''QA'',
     Http ''t2'' \<lparr>req_target = ''/api/v1/namespaces/ns/publish'', req_method = PostV, req_body = ''{}''\<rparr>,
     Rpc (RpcGetConfig \<lparr>kr_namespace_id = ''ns'', kr_key = ''k'', kr_value = [], kr_operator_id = []\<rparr>),
     ListEnvironments]"

definition demo_replies :: "json_value reply result list" where
  "demo_replies = [Inr (Answer True), Inr (Answer True),
     Inr (HttpResponse \<lparr>res_status = 200, res_content_type = ''application/json'', res_body = ''{}''\<rparr>),
     Inr (ConfigReply (GrpcOk, Some \<lparr>cm_namespace_id = ''ns'', cm_key = ''k'', cm_value = ''v'', cm_version = 1,
       cm_status = ''live''\<rparr>)),
     Inr (Names [''DEV'', ''FAT'', ''UAT'', ''PROD'', ''QA''])]"




end
