(* ===== verification/Request_Pool.thy ===== *)
theory Request_Pool
  imports Request_Programs
begin

text \<open>
  Requests that the threads of the I/O pool (\<^verbatim>\<open>src/main.cpp\<close>) handle at the same time: a pool of programs on
  one store, of which any may make its next call. The locale \<open>pool_simulation\<close> reduces the runs of a pool of
  like requests to steps on the part of the store they work on.
\<close>


section \<open>A pool of programs\<close>

inductive pool_step :: "'s \<times> ('s, 'a) prog list \<Rightarrow> 's \<times> ('s, 'a) prog list \<Rightarrow> bool" where
  pool_call: "i < length ps \<Longrightarrow> ps ! i = Atomic g \<Longrightarrow> g s = (p, t) \<Longrightarrow> pool_step (s, ps) (t, ps[i := p])"

definition pool_over :: "('s, 'a) prog list \<Rightarrow> bool" where
  "pool_over ps = list_all (\<lambda>p. case p of Done _ \<Rightarrow> True | Atomic _ \<Rightarrow> False) ps"

inductive_cases pool_stepE: "pool_step (s, ps) c"

text \<open>A pool goes on until all its programs are over, and makes no more calls than they may make.\<close>

lemma pool_progress: "\<not> pool_over ps \<Longrightarrow> \<exists>c. pool_step (s, ps) c"
proof -
  assume "\<not> pool_over ps"
  then obtain i where i: "i < length ps" "\<not> (case ps ! i of Done _ \<Rightarrow> True | Atomic _ \<Rightarrow> False)"
    unfolding pool_over_def list_all_length by blast
  then obtain g where "ps ! i = Atomic g" by (cases "ps ! i") auto
  note i(1) this
  from pool_call [OF this, of s "fst (g s)" "snd (g s)"] show ?thesis by auto
qed

lemma pool_bounded:
  assumes "(pool_step ^^ m) (s, ps) (t, qs)" and "\<forall>p \<in> set ps. within b p"
  shows "m \<le> b * length ps"
proof -
  have "\<exists>cs. list_all2 within cs qs \<and> m + sum_list cs \<le> b * length ps"
    using assms(1)
  proof (induction m arbitrary: t qs)
    case 0
    have "list_all2 within (replicate (length ps) b) ps"
      using assms(2) by (simp add: list_all2_conv_all_nth)
    with 0 show ?case by (intro exI [of _ "replicate (length ps) b"]) (simp add: sum_list_replicate)
  next
    case (Suc m)
    then obtain u rs where "(pool_step ^^ m) (s, ps) (u, rs)" and last: "pool_step (u, rs) (t, qs)" by auto
    with Suc.IH obtain cs where cs: "list_all2 within cs rs" "m + sum_list cs \<le> b * length ps" by blast
    from last obtain i g p where i: "i < length rs" "rs ! i = Atomic g" "g u = (p, t)" "qs = rs[i := p]"
      by (auto elim: pool_stepE)
    with cs(1) have "within (cs ! i) (Atomic g)" and len: "i < length cs" by (auto simp: list_all2_conv_all_nth)
    then obtain c where c: "cs ! i = Suc c" and "within c (fst (g u))" by (cases "cs ! i") auto
    with i cs(1) have "list_all2 within (cs[i := c]) qs" by (simp add: list_all2_update_cong)
    moreover have "Suc (sum_list (cs[i := c])) = sum_list cs"
      using len c member_le_sum_list [OF nth_mem [OF len]] by (simp add: sum_list_update)
    ultimately show ?case using cs(2) by (intro exI [of _ "cs[i := c]"]) simp
  qed
  then show ?thesis by auto
qed


section \<open>Pools of like requests\<close>

text \<open>
  A request is at a stage \<open>x\<close>; unless it is over, its next call acts on the view \<open>v\<close> of the store as
  \<open>adv x v\<close> says.
\<close>

inductive stage_step ::
  "('x \<Rightarrow> bool) \<Rightarrow> ('x \<Rightarrow> 'v \<Rightarrow> 'x \<times> 'v) \<Rightarrow> 'x list \<times> 'v \<Rightarrow> 'x list \<times> 'v \<Rightarrow> bool"
  for over :: "'x \<Rightarrow> bool" and adv :: "'x \<Rightarrow> 'v \<Rightarrow> 'x \<times> 'v" where
  stage_moves: "i < length xs \<Longrightarrow> \<not> over (xs ! i) \<Longrightarrow> adv (xs ! i) v = (x', v') \<Longrightarrow>
    stage_step over adv (xs, v) (xs[i := x'], v')"

inductive_cases stage_stepE: "stage_step over adv (xs, v) c"

text \<open>The calls of the requests keep \<open>frame\<close>, what they do not work on.\<close>

locale pool_simulation =
  fixes prog_of :: "'x \<Rightarrow> ('s, 'a) prog" and over :: "'x \<Rightarrow> bool" and adv :: "'x \<Rightarrow> 'v \<Rightarrow> 'x \<times> 'v"
    and inv :: "'s \<Rightarrow> bool" and view :: "'s \<Rightarrow> 'v" and frame :: "'s \<Rightarrow> 'f"
  assumes over_done: "over x \<Longrightarrow> \<exists>r. prog_of x = Done r"
    and next_call: "\<not> over x \<Longrightarrow> inv s \<Longrightarrow> \<exists>g t. prog_of x = Atomic g \<and>
      g s = (prog_of (fst (adv x (view s))), t) \<and> inv t \<and> view t = snd (adv x (view s)) \<and> frame t = frame s"
begin

lemma pool_to_stage:
  assumes "pool_step (s, map prog_of xs) (t, ps)" and "inv s"
  shows "\<exists>ys. stage_step over adv (xs, view s) (ys, view t) \<and> ps = map prog_of ys \<and> inv t \<and> frame t = frame s"
proof -
  from assms(1) obtain i g p where i: "i < length xs" "prog_of (xs ! i) = Atomic g" "g s = (p, t)"
    "ps = (map prog_of xs)[i := p]" by (auto elim!: pool_stepE)
  then have "\<not> over (xs ! i)" using over_done by fastforce
  from next_call [OF this assms(2)] i have t: "p = prog_of (fst (adv (xs ! i) (view s)))" "inv t"
    "view t = snd (adv (xs ! i) (view s))" "frame t = frame s" by auto
  have "stage_step over adv (xs, view s) (xs[i := fst (adv (xs ! i) (view s))], view t)"
    by (rule stage_moves) (use i(1) \<open>\<not> over (xs ! i)\<close> t(3) in simp_all)
  with i(4) t show ?thesis by (auto simp: map_update)
qed

lemma stage_to_pool:
  assumes "stage_step over adv (xs, view s) (ys, v)" and "inv s"
  shows "\<exists>t. pool_step (s, map prog_of xs) (t, map prog_of ys) \<and> inv t \<and> view t = v \<and> frame t = frame s"
proof -
  from assms(1) obtain i x' where i: "i < length xs" "\<not> over (xs ! i)" "adv (xs ! i) (view s) = (x', v)"
    "ys = xs[i := x']" by (auto elim!: stage_stepE)
  from next_call [OF i(2) assms(2)] i(3) obtain g t where
    g: "prog_of (xs ! i) = Atomic g" "g s = (prog_of x', t)" and t: "inv t" "view t = v" "frame t = frame s" by auto
  have "pool_step (s, map prog_of xs) (t, (map prog_of xs)[i := prog_of x'])"
    by (rule pool_call [where g = g]) (use i g in simp_all)
  with t i(4) show ?thesis by (auto simp: map_update)
qed

lemma pool_to_stages:
  assumes "pool_step\<^sup>*\<^sup>* (s, map prog_of xs) (t, ps)" and "inv s"
  shows "\<exists>ys. (stage_step over adv)\<^sup>*\<^sup>* (xs, view s) (ys, view t) \<and> ps = map prog_of ys \<and> inv t \<and> frame t = frame s"
  using assms(1)
proof (induction rule: rtranclp_induct2)
  case (step u rs t ps)
  then obtain zs where zs: "(stage_step over adv)\<^sup>*\<^sup>* (xs, view s) (zs, view u)" "rs = map prog_of zs" "inv u"
    "frame u = frame s" by blast
  with pool_to_stage [of u zs t ps] step.hyps(2) obtain ys where
    ys: "stage_step over adv (zs, view u) (ys, view t)" "ps = map prog_of ys" "inv t" "frame t = frame s" by auto
  from rtranclp.rtrancl_into_rtrancl [OF zs(1) ys(1)] ys show ?case by blast
qed (use assms(2) in auto)

lemma stages_to_pool:
  assumes "(stage_step over adv)\<^sup>*\<^sup>* (xs, view s) (ys, v)" and "inv s"
  shows "\<exists>t. pool_step\<^sup>*\<^sup>* (s, map prog_of xs) (t, map prog_of ys) \<and> inv t \<and> view t = v \<and> frame t = frame s"
  using assms(1)
proof (induction rule: rtranclp_induct2)
  case (step zs z ys v)
  then obtain u where u: "pool_step\<^sup>*\<^sup>* (s, map prog_of xs) (u, map prog_of zs)" "inv u" "view u = z"
    "frame u = frame s" by blast
  with stage_to_pool [of zs u ys v] step.hyps(2) obtain t where
    t: "pool_step (u, map prog_of zs) (t, map prog_of ys)" "inv t" "view t = v" "frame t = frame s" by auto
  from rtranclp.rtrancl_into_rtrancl [OF u(1) t(1)] t show ?case by blast
qed (use assms(2) in auto)

lemma pool_over_iff:
  assumes "inv s"
  shows "pool_over (map prog_of xs) \<longleftrightarrow> list_all over xs"
proof -
  have "(case prog_of x of Done _ \<Rightarrow> True | Atomic _ \<Rightarrow> False) \<longleftrightarrow> over x" for x
    using over_done [of x] next_call [of x, OF _ assms] by (cases "over x") auto
  then show ?thesis by (simp add: pool_over_def list_all_iff)
qed

end

end
