(* ===== verification/Concurrent_Edits.thy ===== *)
theory Concurrent_Edits
  imports Request_Pool "HOL-Library.Multiset"
begin

text \<open>
  \<^verbatim>\<open>handleSetConfig\<close> (\<^verbatim>\<open>src/server/http_server.cpp\<close>) looks a key up and then updates or creates it, in two store
  calls. This theory gives the outcomes of requests for one key that run at the same time.
\<close>


section \<open>One request that sets a key\<close>

text \<open>An edit is the time of its request and the value; its request looks up, writes, and is over.\<close>

type_synonym edit = "string \<times> string"

datatype stage = Looking | Updating | Creating | Over

fun stage_prog :: "'j json_lib \<Rightarrow> 's config_store \<Rightarrow> string \<Rightarrow> string \<Rightarrow> edit \<times> stage \<Rightarrow> ('s, 'j) prog" where
  "stage_prog J S n k ((now, v), Looking) = p_set_draft J S now n k v ''system''"
| "stage_prog J S n k ((now, v), Updating) =
     bindP (call (cs_updateConfig S now n k v ''system'' True)) (\<lambda>_. Done (Inr (api_success J)))"
| "stage_prog J S n k ((now, v), Creating) =
     bindP (call (cs_createConfig S now n k v ''system'')) (\<lambda>_. Done (Inr (api_success J)))"
| "stage_prog J S n k ((now, v), Over) = Done (Inr (api_success J))"

text \<open>The next call, seen at the entry of the key.\<close>

fun advance :: "string \<Rightarrow> string \<Rightarrow> edit \<Rightarrow> stage \<Rightarrow> ConfigKey option \<Rightarrow> stage \<times> ConfigKey option" where
  "advance n k (now, v) Looking x = (if visible False x \<noteq> None then Updating else Creating, x)"
| "advance n k (now, v) Updating x = (Over, map_option (edited_config now v True) x)"
| "advance n k (now, v) Creating x = (Over, if x = None then Some (fresh_config now n k v) else x)"
| "advance n k (now, v) Over x = (Over, x)"

fun advance_edit :: "string \<Rightarrow> string \<Rightarrow> edit \<times> stage \<Rightarrow> ConfigKey option \<Rightarrow> (edit \<times> stage) \<times> ConfigKey option" where
  "advance_edit n k (e, st) x = (case advance n k e st x of (st', x') \<Rightarrow> ((e, st'), x'))"

definition edit_over :: "edit \<times> stage \<Rightarrow> bool" where
  "edit_over x \<longleftrightarrow> snd x = Over"

context reliable_config_store
begin

text \<open>The store calls of a request do what \<open>advance\<close> says, and touch no other key.\<close>

lemma stage_call:
  assumes "inv s" and "st \<noteq> Over"
  shows "\<exists>g t. stage_prog J S n k (e, st) = Atomic g \<and>
    g s = (stage_prog J S n k (e, fst (advance n k e st (cfgs s (n, k)))), t) \<and> inv t \<and>
    cfgs t = (cfgs s)((n, k) := snd (advance n k e st (cfgs s (n, k))))"
proof -
  obtain now v where e: "e = (now, v)" by fastforce
  show ?thesis
  proof (cases st)
    case Looking
    with e show ?thesis
      by (simp add: p_set_draft_def call_def getConfig_run [OF assms(1)] assms(1))
  next
    case Updating
    from updateConfig_total [OF assms(1)] obtain b t where "cs_updateConfig S now n k v ''system'' True s = (Inr b, t)"
      by blast
    with updateConfig [OF assms(1) this] e Updating show ?thesis
      by (auto simp: call_def split: option.splits)
  next
    case Creating
    from createConfig_total [OF assms(1)] obtain t where
      "cs_createConfig S now n k v ''system'' s = (Inr (cfgs s (n, k) = None), t)" by blast
    with createConfig [OF assms(1) this] e Creating show ?thesis
      by (auto simp: call_def split: if_splits)
  qed (use assms in simp)
qed

end

sublocale reliable_config_store \<subseteq> edits: pool_simulation "stage_prog J S n k" edit_over "advance_edit n k" inv
  "\<lambda>s. cfgs s (n, k)" "\<lambda>s. (cfgs s)((n, k) := None)" for J n k
proof
  fix x s assume "\<not> edit_over x" and "inv s"
  then show "\<exists>g t. stage_prog J S n k x = Atomic g \<and>
      g s = (stage_prog J S n k (fst (advance_edit n k x (cfgs s (n, k)))), t) \<and> inv t \<and>
      cfgs t (n, k) = snd (advance_edit n k x (cfgs s (n, k))) \<and> (cfgs t)((n, k) := None) = (cfgs s)((n, k) := None)"
    using stage_call [of s "snd x" J n k "fst x"]
    by (cases x) (auto simp: edit_over_def split: prod.split)
next
  fix x :: "edit \<times> stage" assume "edit_over x"
  then show "\<exists>r. stage_prog J S n k x = Done r" by (cases "(J, S, n, k, x)" rule: stage_prog.cases) (auto simp: edit_over_def)
qed

context reliable_config_store
begin

lemma edits_simulation:
  "pool_simulation (stage_prog J S n k) edit_over (advance_edit n k) inv (\<lambda>s. cfgs s (n, k)) (\<lambda>s. (cfgs s)((n, k) := None))"
  by (rule edits.pool_simulation_axioms)

end


section \<open>The outcomes of concurrent requests\<close>

text \<open>Edits that are all written, one on top of the other.\<close>

definition apply_edits :: "edit list \<Rightarrow> ConfigKey \<Rightarrow> ConfigKey" where
  "apply_edits es c = fold (\<lambda>(now, v). edited_config now v True) es c"

definition edits_over :: "(edit \<times> stage) list \<Rightarrow> edit list" where
  "edits_over xs = map fst (filter (\<lambda>x. snd x = Over) xs)"

definition stages :: "(edit \<times> stage) list \<Rightarrow> stage set" where
  "stages xs = snd ` set xs"

definition fresh_entries :: "string \<Rightarrow> string \<Rightarrow> edit list \<Rightarrow> ConfigKey option set" where
  "fresh_entries n k es = (\<lambda>(now, v). Some (fresh_config now n k v)) ` set es"

definition outcome ::
  "string \<Rightarrow> string \<Rightarrow> ConfigKey option \<Rightarrow> (edit \<times> stage) list \<Rightarrow> ConfigKey option \<Rightarrow> bool" where
  "outcome n k x0 xs x \<longleftrightarrow>
     (case x0 of
        None \<Rightarrow> Updating \<notin> stages xs \<and>
          (x = None \<and> Over \<notin> stages xs \<or> x \<in> fresh_entries n k (map fst xs))
      | Some c \<Rightarrow>
          if ck_status c = ''draft'' then Updating \<notin> stages xs \<and> x = Some c
          else \<exists>es. mset es \<subseteq># mset (edits_over xs) \<and> x = Some (apply_edits es c) \<and>
                 (es = [] \<longrightarrow> stages xs \<subseteq> {Looking, Updating}))"

lemma apply_edits_simps [simp]:
  "apply_edits [] c = c" "apply_edits (es @ [(now, v)]) c = edited_config now v True (apply_edits es c)"
  by (simp_all add: apply_edits_def)

lemma apply_edits_draft: "es \<noteq> [] \<Longrightarrow> ck_status (apply_edits es c) = ''draft''"
  by (cases es rule: rev_cases) auto

lemma wrap32_shift: "wrap32 (wrap32 i + j) = wrap32 (i + j)"
  by (simp add: wrap32_def mod_simps algebra_simps)

lemma apply_edits_version: "es \<noteq> [] \<Longrightarrow> ck_version (apply_edits es c) = wrap32 (ck_version c + int (length es))"
proof (induction es rule: rev_induct)
  case (snoc e es)
  obtain now v where "e = (now, v)" by fastforce
  then have "ck_version (apply_edits (es @ [e]) c) = wrap32 (ck_version (apply_edits es c) + 1)" by simp
  also have "\<dots> = wrap32 (ck_version c + int (length es) + 1)"
    using snoc.IH by (cases "es = []") (simp_all add: wrap32_shift)
  finally show ?case by (simp add: ac_simps)
qed simp

lemma stages_update:
  "i < length xs \<Longrightarrow> stages (xs[i := (e, st)]) \<subseteq> insert st (stages xs)"
  using set_update_subset_insert [of xs i "(e, st)"] by (auto simp: stages_def)

lemma fst_update: "i < length xs \<Longrightarrow> xs ! i = (e, st) \<Longrightarrow> map fst (xs[i := (e, st')]) = map fst xs"
  by (simp add: map_update list_update_same_conv)

lemma edits_over_update:
  assumes "i < length xs" and "xs ! i = (e, st)" and "st \<noteq> Over"
  shows "mset (edits_over (xs[i := (e, st')])) = mset (edits_over xs) + (if st' = Over then {#e#} else {#})"
proof -
  have "mset (edits_over xs) = mset (edits_over (take i xs @ xs ! i # drop (Suc i) xs))"
    using assms(1) by (simp add: id_take_nth_drop [symmetric])
  with assms show ?thesis by (simp add: edits_over_def upd_conv_take_nth_drop)
qed

text \<open>Every step of the stages keeps the outcome.\<close>

lemma visible_draft: "ck_status c = ''draft'' \<Longrightarrow> visible False (Some c) = None"
  by simp

lemma outcome_absent:
  assumes "outcome n k None xs x" and "i < length xs" and "xs ! i = (e, st)" and "st \<noteq> Over"
    and "advance n k e st x = (st', x')"
  shows "outcome n k None (xs[i := (e, st')]) x'"
proof -
  obtain now v where e: "e = (now, v)" by fastforce
  have at: "(e, st) \<in> set xs" using assms(2,3) nth_mem by metis
  note dom = fst_update [OF assms(2,3), of st']
  from assms(1) have not: "Updating \<notin> stages xs"
    and x: "x = None \<and> Over \<notin> stages xs \<or> x \<in> fresh_entries n k (map fst xs)"
    by (simp_all add: outcome_def)
  from not at have "st \<noteq> Updating" by (force simp: stages_def)
  then consider "st = Looking" | "st = Creating" using assms(4) by (cases st) auto
  then show ?thesis
  proof cases
    case 1
    from x have "visible False x = None" by (auto simp: fresh_entries_def fresh_config_def)
    with 1 e assms(5) have "st' = Creating" "x' = x" by auto
    with x not stages_update [OF assms(2), of e Creating] dom show ?thesis by (auto simp: outcome_def)
  next
    case 2
    with e assms(5) have new: "st' = Over" "x' = (if x = None then Some (fresh_config now n k v) else x)" by auto
    from at e have "(now, v) \<in> set (map fst xs)" by force
    then have "Some (fresh_config now n k v) \<in> fresh_entries n k (map fst xs)" by (force simp: fresh_entries_def)
    with x new have "x' \<in> fresh_entries n k (map fst xs)" by auto
    with new not stages_update [OF assms(2), of e Over] dom show ?thesis by (auto simp: outcome_def)
  qed
qed

lemma outcome_draft:
  assumes "outcome n k (Some c) xs x" and "ck_status c = ''draft''" and "i < length xs" and "xs ! i = (e, st)"
    and "st \<noteq> Over" and "advance n k e st x = (st', x')"
  shows "outcome n k (Some c) (xs[i := (e, st')]) x'"
proof -
  obtain now v where e: "e = (now, v)" by fastforce
  from assms(1,2) have not: "Updating \<notin> stages xs" and x: "x = Some c" by (simp_all add: outcome_def)
  have "(e, st) \<in> set xs" using assms(3,4) nth_mem by metis
  with not have "st \<noteq> Updating" by (force simp: stages_def)
  with e x assms(2,5,6) have "st' \<noteq> Updating" "x' = Some c" by (cases st; auto)+
  with not assms(2) stages_update [OF assms(3), of e st'] show ?thesis by (auto simp: outcome_def)
qed

lemma outcome_live:
  assumes "outcome n k (Some c) xs x" and "ck_status c \<noteq> ''draft''" and "i < length xs" and "xs ! i = (e, st)"
    and "st \<noteq> Over" and "advance n k e st x = (st', x')"
  shows "outcome n k (Some c) (xs[i := (e, st')]) x'"
proof -
  obtain now v where e: "e = (now, v)" by fastforce
  from assms(1,2) obtain es where es: "mset es \<subseteq># mset (edits_over xs)" "x = Some (apply_edits es c)"
    and none: "es = [] \<longrightarrow> stages xs \<subseteq> {Looking, Updating}" by (auto simp: outcome_def)
  note over = edits_over_update [OF assms(3,4,5), of st']
  have at: "st \<in> stages xs" using assms(3,4) nth_mem by (force simp: stages_def)
  show ?thesis
  proof (cases "st = Updating")
    case True
    with e es assms(6) have "st' = Over" "x' = Some (apply_edits (es @ [e]) c)" by auto
    moreover have "mset (es @ [e]) \<subseteq># mset (edits_over (xs[i := (e, st')]))"
      using es(1) over \<open>st' = Over\<close> by simp
    ultimately show ?thesis using assms(2) by (auto simp: outcome_def simp del: apply_edits_simps intro!: exI [of _ "es @ [e]"])
  next
    case False
    with e es assms(5,6) have "x' = Some (apply_edits es c)" by (cases st) auto
    moreover have "es = [] \<longrightarrow> stages (xs[i := (e, st')]) \<subseteq> {Looking, Updating}"
      using False none at e es assms(2,5,6) stages_update [OF assms(3), of e st'] by (cases st) auto
    moreover have "mset es \<subseteq># mset (edits_over (xs[i := (e, st')]))"
      using es(1) over by (auto intro: subset_mset.order_trans)
    ultimately show ?thesis using assms(2) by (auto simp: outcome_def)
  qed
qed

lemma outcome_run:
  assumes "(stage_step edit_over (advance_edit n k))\<^sup>*\<^sup>* (map (\<lambda>e. (e, Looking)) es, x0) (ys, y)"
  shows "outcome n k x0 ys y \<and> map fst ys = es"
  using assms
proof (induction rule: rtranclp_induct2)
  case refl
  have "stages (map (\<lambda>e. (e, Looking)) es) \<subseteq> {Looking}" by (auto simp: stages_def)
  then show ?case by (auto simp: outcome_def comp_def split: option.split intro!: exI [of _ "[]"])
next
  case (step xs x ys y)
  from step.hyps(2) obtain i where i': "i < length xs" "\<not> edit_over (xs ! i)"
    "advance_edit n k (xs ! i) x = (ys ! i, y)" "ys = xs[i := ys ! i]" by (auto elim!: stage_stepE)
  obtain e st where at: "xs ! i = (e, st)" by fastforce
  obtain st' where "advance n k e st x = (st', y)" and "ys ! i = (e, st')"
    using i'(3) at by (auto split: prod.splits)
  with i' at have i: "i < length xs" "xs ! i = (e, st)" "st \<noteq> Over" "advance n k e st x = (st', y)" "ys = xs[i := (e, st')]"
    by (simp_all add: edit_over_def)
  from step.IH have out: "outcome n k x0 xs x" by simp
  have "outcome n k x0 ys y"
  proof (cases x0)
    case None
    with out outcome_absent i show ?thesis by blast
  next
    case (Some c)
    with out outcome_draft outcome_live i show ?thesis by blast
  qed
  with step.IH fst_update [OF i(1,2)] i(5) show ?case by simp
qed

section \<open>Property\<close>

definition edit_of :: "(string \<Rightarrow> string) \<Rightarrow> string \<times> string \<Rightarrow> edit" where
  "edit_of val r = (fst r, val (snd r))"

lemma set_requests:
  assumes "\<forall>r \<in> set reqs. \<exists>x. j_parse J (snd r) = Inr x \<and> member_string J x ''value'' = Inr (val (snd r))"
  shows "map (\<lambda>r. p_handleSetConfig J S (fst r) (snd r) n k) reqs =
    map (stage_prog J S n k) (map (\<lambda>e. (e, Looking)) (map (edit_of val) reqs))"
  using assms by (auto simp: p_handleSetConfig_def edit_of_def)

lemma stages_over: "list_all edit_over ys \<longleftrightarrow> stages ys \<subseteq> {Over}"
  by (auto simp: list_all_iff edit_over_def stages_def)

lemma over_all:
  assumes "stages ys \<subseteq> {Over}"
  shows "edits_over ys = map fst ys" and "map (stage_prog J S n k) ys = replicate (length ys) (Done (Inr (api_success J)))"
proof -
  have over: "snd y = Over" if "y \<in> set ys" for y using assms that by (auto simp: stages_def)
  then show "edits_over ys = map fst ys" by (simp add: edits_over_def)
  have "stage_prog J S n k y = Done (Inr (api_success J))" if "y \<in> set ys" for y
    using over [OF that] by (cases "(J, S, n, k, y)" rule: stage_prog.cases) auto
  then show "map (stage_prog J S n k) ys = replicate (length ys) (Done (Inr (api_success J)))"
    by (simp add: map_replicate_const [symmetric] cong: map_cong)
qed


text \<open>
  The example: two requests for a published key of version 2 that both look the key up before either
  writes. Both edits are written, the version becomes 4.
\<close>

definition race_json :: "json_value json_lib" where
  "race_json = ref_json (\<lambda>w. Inr (JObj [(''value'', JStr w)])) (\<lambda>_. Inr [])"

definition race_start :: storage where
  "race_start = snd (publishRelease mem_orm ''t3'' ''ns'' ''first'' ''bob'' default_Release demo2)"

definition race_config :: ConfigKey where
  "race_config = \<lparr>ck_namespace_id = ''ns'', ck_key = ''k'', ck_value = ''v2'', ck_version = 2,
     ck_status = ''live'', ck_created_at = ''t1'', ck_updated_at = ''t2''\<rparr>"

lemma race_inv: "store_inv race_start" and race_entry: "cfg_map race_start (''ns'', ''k'') = Some race_config"
proof -
  have "fst (publishRelease mem_orm ''t3'' ''ns'' ''first'' ''bob'' default_Release demo2) =
      Inr (True, release_row 1 ''t3'' ''ns'' 1 ''first'' ''bob'')" by code_simp
  from mem.publishRelease_inv [OF demo2_inv run_pair [OF this]] show "store_inv race_start" by (simp add: race_start_def)
  have "configs (tabs race_start) = [race_config]" by code_simp
  then show "cfg_map race_start (''ns'', ''k'') = Some race_config" by (simp add: cfg_map_def race_config_def ck_id_def)
qed

lemma race_stages:
  "(stage_step edit_over (advance_edit ''ns'' ''k''))\<^sup>*\<^sup>* ([(e1, Looking), (e2, Looking)], Some race_config)
     ([(e1, Over), (e2, Over)], Some (apply_edits [e1, e2] race_config))"
proof -
  let ?step = "stage_step edit_over (advance_edit ''ns'' ''k'')"
  obtain a1 v1 a2 v2 where e: "e1 = (a1, v1)" "e2 = (a2, v2)" by fastforce
  have live: "visible False (Some race_config) = Some race_config" by (simp add: race_config_def)
  have "?step ([(e1, Looking), (e2, Looking)], Some race_config) ([(e1, Updating), (e2, Looking)], Some race_config)"
    using stage_moves [of 0 "[(e1, Looking), (e2, Looking)]" edit_over "advance_edit ''ns'' ''k''" "Some (race_config)"] e live by (simp add: edit_over_def)
  moreover have "?step ([(e1, Updating), (e2, Looking)], Some race_config) ([(e1, Updating), (e2, Updating)], Some race_config)"
    using stage_moves [of 1 "[(e1, Updating), (e2, Looking)]" edit_over "advance_edit ''ns'' ''k''" "Some (race_config)"] e live by (simp add: edit_over_def)
  moreover have "?step ([(e1, Updating), (e2, Updating)], Some race_config)
      ([(e1, Over), (e2, Updating)], Some (apply_edits [e1] race_config))"
    using stage_moves [of 0 "[(e1, Updating), (e2, Updating)]" edit_over "advance_edit ''ns'' ''k''" "Some (race_config)"] e by (simp add: edit_over_def apply_edits_def)
  moreover have "?step ([(e1, Over), (e2, Updating)], Some (apply_edits [e1] race_config))
      ([(e1, Over), (e2, Over)], Some (apply_edits [e1, e2] race_config))"
    using stage_moves [of 1 "[(e1, Over), (e2, Updating)]" edit_over "advance_edit ''ns'' ''k''" "Some (apply_edits [e1] race_config)"] e by (simp add: edit_over_def apply_edits_def)
  ultimately show ?thesis by (meson converse_rtranclp_into_rtranclp rtranclp.rtrancl_refl)
qed


end
