(* ===== verification/Concurrent_Creations.thy ===== *)
theory Concurrent_Creations
  imports Request_Pool
begin

text \<open>
  \<^verbatim>\<open>NamespaceManager::registerApplication\<close> (\<^verbatim>\<open>src/storage/namespace_manager.cpp\<close>) looks the application up and
  then inserts it, in two store calls. This theory shows that among calls that run at the same time the
  primary key of the table decides: of the calls for one identifier exactly one succeeds.
\<close>


section \<open>One registration\<close>

datatype reg_stage = Asking | Inserting | Ended bool

definition register :: "'s config_store \<Rightarrow> Application \<Rightarrow> ('s, bool) prog" where
  "register S a = p_registerApplication S (app_created_at a) (app_app_id a) (app_name a) (app_description a)"

lemma register_calls:
  "register S a = bindP (call (cs_getApplication S (app_app_id a))) (\<lambda>existing.
     if existing \<noteq> None then Done (Inr False) else call (cs_createApplication S a))"
  by (cases a, hypsubst) (simp add: register_def p_registerApplication_def)

fun reg_prog :: "'s config_store \<Rightarrow> Application \<times> reg_stage \<Rightarrow> ('s, bool) prog" where
  "reg_prog S (a, Asking) = register S a"
| "reg_prog S (a, Inserting) = call (cs_createApplication S a)"
| "reg_prog S (a, Ended b) = Done (Inr b)"

fun advance_reg ::
  "Application \<times> reg_stage \<Rightarrow> (string \<rightharpoonup> Application) \<Rightarrow> (Application \<times> reg_stage) \<times> (string \<rightharpoonup> Application)" where
  "advance_reg (a, Asking) m = ((a, if m (app_app_id a) \<noteq> None then Ended False else Inserting), m)"
| "advance_reg (a, Inserting) m =
     (if m (app_app_id a) = None then ((a, Ended True), m(app_app_id a \<mapsto> a)) else ((a, Ended False), m))"
| "advance_reg (a, Ended b) m = ((a, Ended b), m)"

definition reg_over :: "Application \<times> reg_stage \<Rightarrow> bool" where
  "reg_over x = (case snd x of Ended _ \<Rightarrow> True | _ \<Rightarrow> False)"

context reliable_engine
begin

lemma createApplication_decides:
  assumes "store_inv s"
  shows "\<exists>t. createApplication E a s = (Inr (app_map s (app_app_id a) = None), t) \<and> store_inv t \<and>
    ns_map t = ns_map s \<and> cfg_map t = cfg_map s \<and>
    app_map t = (if app_map s (app_app_id a) = None then (app_map s)(app_app_id a \<mapsto> a) else app_map s)"
proof -
  obtain r t where run: "createApplication E a s = (r, t)" by fastforce
  with createApplication_effect obtain b where r: "r = Inr b" by blast
  have law: "store_inv t \<and> ns_map t = ns_map s \<and> cfg_map t = cfg_map s \<and>
      (if b then app_map s (app_app_id a) = None \<and> app_map t = (app_map s)(app_app_id a \<mapsto> a) else app_map t = app_map s)"
    using store.createApplication [of s a b t] assms run r by simp
  have "b" if "app_map s (app_app_id a) = None"
    using store.createApplication_total [OF assms, of a] that run r by auto
  with law run r show ?thesis by (cases b) auto
qed

end

sublocale reliable_engine \<subseteq> regs: pool_simulation "reg_prog (sqlite_store E)" reg_over advance_reg store_inv app_map
  "\<lambda>s. (ns_map s, cfg_map s)"
proof
  fix x :: "Application \<times> reg_stage" assume "reg_over x"
  then show "\<exists>r. reg_prog (sqlite_store E) x = Done r" by (cases x, cases "snd x") (auto simp: reg_over_def)
next
  fix x s assume x: "\<not> reg_over x" and inv: "store_inv s"
  obtain a st where xa: "x = (a, st)" by fastforce
  show "\<exists>g t. reg_prog (sqlite_store E) x = Atomic g \<and>
      g s = (reg_prog (sqlite_store E) (fst (advance_reg x (app_map s))), t) \<and> store_inv t \<and>
      app_map t = snd (advance_reg x (app_map s)) \<and> (ns_map t, cfg_map t) = (ns_map s, cfg_map s)"
  proof (cases st)
    case Asking
    with xa inv store.getApplication_run [OF inv] show ?thesis by (simp add: register_calls call_def)
  next
    case Inserting
    with xa createApplication_decides [OF inv, of a] show ?thesis by (auto simp: call_def)
  qed (use x xa in \<open>simp add: reg_over_def\<close>)
qed

context reliable_engine
begin

lemma regs_simulation:
  "pool_simulation (reg_prog (sqlite_store E)) reg_over advance_reg store_inv app_map (\<lambda>s. (ns_map s, cfg_map s))"
  by (rule regs.pool_simulation_axioms)

end


section \<open>The outcomes of concurrent registrations\<close>

text \<open>
  The invariant of a pool of registrations: an application that was there stays as it was; one that is
  new was registered by exactly one call that succeeded, and is the one that call gave; a call that
  is over found or made an entry.
\<close>

definition won :: "string \<Rightarrow> Application \<times> reg_stage \<Rightarrow> bool" where
  "won i x \<longleftrightarrow> app_app_id (fst x) = i \<and> snd x = Ended True"

definition ended_ok :: "(string \<rightharpoonup> Application) \<Rightarrow> Application \<times> reg_stage \<Rightarrow> bool" where
  "ended_ok m x = (case snd x of
     Ended b \<Rightarrow> (if b then m (app_app_id (fst x)) = Some (fst x) else m (app_app_id (fst x)) \<noteq> None)
   | _ \<Rightarrow> True)"

lemma ended_ok_insert: "ended_ok m x \<Longrightarrow> m i = None \<Longrightarrow> ended_ok (m(i \<mapsto> a)) x"
  by (auto simp: ended_ok_def split: reg_stage.splits)

definition regs_inv ::
  "(string \<rightharpoonup> Application) \<Rightarrow> (Application \<times> reg_stage) list \<Rightarrow> (string \<rightharpoonup> Application) \<Rightarrow> bool" where
  "regs_inv m0 xs m \<longleftrightarrow>
     (\<forall>i. length (filter (won i) xs) = (if m0 i = None \<and> m i \<noteq> None then 1 else 0)) \<and>
     (\<forall>i. m0 i \<noteq> None \<longrightarrow> m i = m0 i) \<and>
     (\<forall>x \<in> set xs. ended_ok m x)"

lemma regs_step:
  assumes "regs_inv m0 xs m" and "stage_step reg_over advance_reg (xs, m) (ys, m')"
  shows "regs_inv m0 ys m' \<and> map fst ys = map fst xs"
proof -
  from assms(2) obtain i x' where i: "i < length xs" "\<not> reg_over (xs ! i)" "advance_reg (xs ! i) m = (x', m')"
    "ys = xs[i := x']" by (auto elim!: stage_stepE)
  obtain a st where at: "xs ! i = (a, st)" by fastforce
  from i(2) at have old: "\<not> won j (xs ! i)" for j by (auto simp: won_def reg_over_def)
  have count: "length (filter (won j) ys) = length (filter (won j) xs) + (if won j x' then 1 else 0)" for j
    using length_filter_update [OF i(1), of "won j" x'] old [of j] i(4) by simp
  have names: "map fst ys = map fst xs"
    using i at by (cases st) (auto simp: reg_over_def map_update list_update_same_conv split: if_splits)
  have sub: "set ys \<subseteq> insert x' (set xs)" using i(4) set_update_subset_insert by metis
  show ?thesis
  proof (cases "st = Inserting \<and> m (app_app_id a) = None")
    case True
    with i at have new: "x' = (a, Ended True)" "m' = m(app_app_id a \<mapsto> a)" by auto
    have "m0 (app_app_id a) = None" using True assms(1) by (auto simp: regs_inv_def)
    moreover have "ended_ok m' x" if "x \<in> set ys" for x
      using that sub new True assms(1) ended_ok_insert [of m x] by (auto simp: regs_inv_def ended_ok_def [of _ "(a, Ended True)"])
    ultimately show ?thesis using True new names count assms(1) by (auto simp: regs_inv_def won_def)
  next
    case False
    then have m: "m' = m" and "\<not> won j x'" "ended_ok m x'" for j
      using i at by (cases st; auto simp: reg_over_def won_def ended_ok_def split: if_splits)+
    then have "ended_ok m x" if "x \<in> set ys" for x using that sub assms(1) by (auto simp: regs_inv_def)
    with m names count assms(1) \<open>\<And>j. \<not> won j x'\<close> show ?thesis by (simp add: regs_inv_def)
  qed
qed

lemma regs_run:
  assumes "(stage_step reg_over advance_reg)\<^sup>*\<^sup>* (map (\<lambda>a. (a, Asking)) as, m0) (ys, m)"
  shows "regs_inv m0 ys m \<and> map fst ys = as"
  using assms
proof (induction rule: rtranclp_induct2)
  case refl
  have "filter (won i) (map (\<lambda>a. (a, Asking)) as) = []" for i by (simp add: filter_empty_conv won_def)
  then show ?case by (auto simp: regs_inv_def ended_ok_def comp_def)
qed (use regs_step in metis)


section \<open>Property\<close>

text \<open>What the stages say once every registration is over.\<close>

lemma regs_finished:
  assumes inv: "regs_inv M ys N" and over: "\<And>x. x \<in> set ys \<Longrightarrow> \<exists>b. snd x = Ended b"
  shows "\<forall>a \<in> set (map fst ys). length (filter (\<lambda>(a', b). app_app_id a' = app_app_id a \<and> b)
        (zip (map fst ys) (map (\<lambda>x. snd x = Ended True) ys))) = (if M (app_app_id a) = None then 1 else 0)"
    and "\<forall>(a, b) \<in> set (zip (map fst ys) (map (\<lambda>x. snd x = Ended True) ys)).
        if b then N (app_app_id a) = Some a else N (app_app_id a) \<noteq> None"
proof -
  have zip: "zip (map fst ys) (map (\<lambda>x. snd x = Ended True) ys) = map (\<lambda>x. (fst x, snd x = Ended True)) ys"
    by (simp add: zip_map_map zip_same_conv_map)
  have ok: "ended_ok N x" if "x \<in> set ys" for x using that inv by (simp add: regs_inv_def)
  have taken: "N (app_app_id (fst x)) \<noteq> None" if "x \<in> set ys" for x
  proof -
    from over [OF that] obtain b where "snd x = Ended b" ..
    with ok [OF that] show ?thesis by (cases b) (simp_all add: ended_ok_def)
  qed
  show "\<forall>a \<in> set (map fst ys). length (filter (\<lambda>(a', b). app_app_id a' = app_app_id a \<and> b)
        (zip (map fst ys) (map (\<lambda>x. snd x = Ended True) ys))) = (if M (app_app_id a) = None then 1 else 0)"
  proof
    fix a assume "a \<in> set (map fst ys)"
    then obtain x where "x \<in> set ys" "a = fst x" by auto
    with taken inv have "length (filter (won (app_app_id a)) ys) = (if M (app_app_id a) = None then 1 else 0)"
      by (simp add: regs_inv_def)
    then show "length (filter (\<lambda>(a', b). app_app_id a' = app_app_id a \<and> b)
        (zip (map fst ys) (map (\<lambda>x. snd x = Ended True) ys))) = (if M (app_app_id a) = None then 1 else 0)"
      by (simp only: zip filter_map length_map comp_def won_def [abs_def] split_def fst_conv snd_conv)
  qed
  show "\<forall>(a, b) \<in> set (zip (map fst ys) (map (\<lambda>x. snd x = Ended True) ys)).
        if b then N (app_app_id a) = Some a else N (app_app_id a) \<noteq> None"
    using taken ok unfolding zip by (force simp: ended_ok_def)
qed

text \<open>
  C6. Any number of registrations of applications that run at the same time, their store calls interleaved
  in any way, on the SQLite store with a reliable engine: at every moment the store invariant holds, the
  namespaces, the configs and the applications that were there are unchanged, and a call can be made
  until all are over, at most two for each. When all are over each has returned true or false without
  an exception; for an identifier that was taken all returned false, for a new one exactly one returned
  true, and the stored application is the one of that call.
\<close>

theorem concurrent_registrations:
  assumes "reliable_engine E" and "store_inv s"
    and "(pool_step ^^ m) (s, map (register (sqlite_store E)) as) (t, ps)"
  shows "store_inv t \<and> m \<le> 2 * length as \<and> ns_map t = ns_map s \<and> cfg_map t = cfg_map s \<and>
    (\<forall>i. app_map s i \<noteq> None \<longrightarrow> app_map t i = app_map s i) \<and> (pool_over ps \<or> (\<exists>c. pool_step (t, ps) c)) \<and>
    (pool_over ps \<longrightarrow> (\<exists>bs. ps = map (\<lambda>b. Done (Inr b)) bs \<and> length bs = length as \<and>
       (\<forall>a \<in> set as. length (filter (\<lambda>(a', b). app_app_id a' = app_app_id a \<and> b) (zip as bs)) =
          (if app_map s (app_app_id a) = None then 1 else 0)) \<and>
       (\<forall>(a, b) \<in> set (zip as bs). if b then app_map t (app_app_id a) = Some a else app_map t (app_app_id a) \<noteq> None)))"
proof -
  note simulation = reliable_engine.regs_simulation [OF assms(1)]
  have start: "map (register (sqlite_store E)) as = map (reg_prog (sqlite_store E)) (map (\<lambda>a. (a, Asking)) as)" by simp
  note pool = assms(3) [unfolded start]
  obtain ys where run: "(stage_step reg_over advance_reg)\<^sup>*\<^sup>* (map (\<lambda>a. (a, Asking)) as, app_map s) (ys, app_map t)"
    and ps: "ps = map (reg_prog (sqlite_store E)) ys" and t: "store_inv t" "ns_map t = ns_map s" "cfg_map t = cfg_map s"
    using pool_simulation.pool_to_stages [OF simulation relpowp_imp_rtranclp [OF pool] assms(2)] by blast
  from regs_run [OF run] have inv: "regs_inv (app_map s) ys (app_map t)" and ys: "map fst ys = as" by simp_all
  have bound: "m \<le> 2 * length as" using pool_bounded [OF pool, of 2] by (simp add: register_def within_managers)
  let ?bs = "map (\<lambda>x. snd x = Ended True) ys"
  have "\<exists>bs. ps = map (\<lambda>b. Done (Inr b)) bs \<and> length bs = length as \<and>
       (\<forall>a \<in> set as. length (filter (\<lambda>(a', b). app_app_id a' = app_app_id a \<and> b) (zip as bs)) =
          (if app_map s (app_app_id a) = None then 1 else 0)) \<and>
       (\<forall>(a, b) \<in> set (zip as bs). if b then app_map t (app_app_id a) = Some a else app_map t (app_app_id a) \<noteq> None)"
    if "pool_over ps"
  proof -
    have over: "\<exists>b. snd x = Ended b" if "x \<in> set ys" for x
    proof -
      from that \<open>pool_over ps\<close> have "reg_over x"
        unfolding ps pool_simulation.pool_over_iff [OF simulation assms(2)] by (simp add: list_all_iff)
      then show ?thesis by (cases "snd x") (simp_all add: reg_over_def)
    qed
    have "reg_prog (sqlite_store E) x = Done (Inr (snd x = Ended True))" if "x \<in> set ys" for x
      using over [OF that] by (cases x) auto
    then have "ps = map (\<lambda>b. Done (Inr b)) ?bs" unfolding ps by simp
    with regs_finished [OF inv over] ys show ?thesis by (intro exI [of _ ?bs]) auto
  qed
  moreover have "\<forall>i. app_map s i \<noteq> None \<longrightarrow> app_map t i = app_map s i" using inv by (simp add: regs_inv_def)
  ultimately show ?thesis using t bound pool_progress [of ps t] by blast
qed

text \<open>
  The example: two registrations of one identifier in the empty store that both look it up before either
  inserts. The first to insert wins.
\<close>

definition reg_demo :: "string \<Rightarrow> Application" where
  "reg_demo name = \<lparr>app_app_id = ''app'', app_name = name, app_description = None, app_created_at = ''t1''\<rparr>"

lemma reg_demo_run:
  "(stage_step reg_over advance_reg)\<^sup>*\<^sup>* ([(reg_demo ''A'', Asking), (reg_demo ''B'', Asking)], Map.empty)
     ([(reg_demo ''A'', Ended False), (reg_demo ''B'', Ended True)], [''app'' \<mapsto> reg_demo ''B''])"
proof -
  let ?step = "stage_step reg_over advance_reg" and ?a = "reg_demo ''A''" and ?b = "reg_demo ''B''"
  note move = stage_moves [where over = reg_over and adv = advance_reg]
  have "?step ([(?a, Asking), (?b, Asking)], Map.empty) ([(?a, Inserting), (?b, Asking)], Map.empty)"
    using move [of 0 "[(?a, Asking), (?b, Asking)]" Map.empty] by (simp add: reg_over_def)
  moreover have "?step ([(?a, Inserting), (?b, Asking)], Map.empty) ([(?a, Inserting), (?b, Inserting)], Map.empty)"
    using move [of 1 "[(?a, Inserting), (?b, Asking)]" Map.empty] by (simp add: reg_over_def)
  moreover have "?step ([(?a, Inserting), (?b, Inserting)], Map.empty) ([(?a, Inserting), (?b, Ended True)], [''app'' \<mapsto> ?b])"
    using move [of 1 "[(?a, Inserting), (?b, Inserting)]" Map.empty] by (simp add: reg_over_def reg_demo_def)
  moreover have "?step ([(?a, Inserting), (?b, Ended True)], [''app'' \<mapsto> ?b]) ([(?a, Ended False), (?b, Ended True)], [''app'' \<mapsto> ?b])"
    using move [of 0 "[(?a, Inserting), (?b, Ended True)]" "[''app'' \<mapsto> ?b]"] by (simp add: reg_over_def reg_demo_def)
  ultimately show ?thesis by (meson converse_rtranclp_into_rtranclp rtranclp.rtrancl_refl)
qed

theorem concurrent_registrations_witness:
  "\<exists>m t. (pool_step ^^ m) (init_storage, [register (sqlite_store mem_orm) (reg_demo ''A''), register (sqlite_store mem_orm) (reg_demo ''B'')])
      (t, [Done (Inr False), Done (Inr True)]) \<and> store_inv t \<and> m \<le> 4 \<and> app_map t ''app'' = Some (reg_demo ''B'')"
proof -
  have "app_map init_storage = Map.empty" by (simp add: app_map_def init_storage_def empty_db_def)
  from pool_simulation.stages_to_pool [OF mem.regs_simulation, where s = init_storage, unfolded this, OF reg_demo_run store_inv_init]
  obtain t m where m: "(pool_step ^^ m) (init_storage, map (register (sqlite_store mem_orm)) [reg_demo ''A'', reg_demo ''B''])
      (t, [Done (Inr False), Done (Inr True)])" by (auto simp: rtranclp_power)
  have over: "pool_over [Done (Inr False) :: (storage, bool) prog, Done (Inr True)]" by (simp add: pool_over_def)
  note run = concurrent_registrations [OF mem.reliable_engine_axioms store_inv_init m]
  have inv: "store_inv t" by (rule conjunct1 [OF run])
  have bound: "m \<le> 4" using conjunct1 [OF conjunct2 [OF run]] by simp
  from run over obtain bs where
    bs: "[Done (Inr False), Done (Inr True)] = map (\<lambda>b. Done (Inr b) :: (storage, bool) prog) bs"
    and won: "\<forall>(a, b) \<in> set (zip [reg_demo ''A'', reg_demo ''B''] bs).
       if b then app_map t (app_app_id a) = Some a else app_map t (app_app_id a) \<noteq> None"
    by (elim conjE impE exE) blast
  from bs have "bs = [False, True]" by (auto simp: Cons_eq_map_conv)
  with won have "app_map t ''app'' = Some (reg_demo ''B'')" by (simp add: reg_demo_def)
  with m inv bound show ?thesis by (intro exI [of _ m] exI [of _ t]) simp
qed

end
