(* ===== verification/Http_Types.thy ===== *)
theory Http_Types
  imports Http_Server
begin

text \<open>
  The shapes of the HTTP answers. \<^verbatim>\<open>docs/api.md\<close> gives an example of the JSON body for each endpoint and one
  error format; here these are types of JSON values, the routes of \<^verbatim>\<open>src/server/http_server.cpp\<close> are
  endpoints, and every answer has a type of its endpoint.
\<close>


section \<open>Types of JSON values\<close>

text \<open>An object type lists its members, each with its type and whether it must be there.\<close>

datatype json_type =
    Null_T
  | Str_T
  | Int_T
  | Bool_T
  | List_T json_type
  | Obj_T "(string \<times> json_type \<times> bool) list"

inductive conforms :: "'j json_lib \<Rightarrow> json_type \<Rightarrow> 'j \<Rightarrow> bool" for J :: "'j json_lib" where
  null_conforms: "conforms J Null_T (j_null J)"
| str_conforms: "conforms J Str_T (j_str J w)"
| int_conforms: "conforms J Int_T (j_int J i)"
| bool_conforms: "conforms J Bool_T (j_bool J b)"
| list_conforms: "(\<forall>x \<in> set xs. conforms J ty x) \<Longrightarrow> conforms J (List_T ty) (j_array J xs)"
| obj_conforms: "distinct (map fst vs) \<Longrightarrow>
    (\<forall>x \<in> set vs. \<exists>m. map_of fs (fst x) = Some m \<and> conforms J (fst m) (snd x)) \<Longrightarrow>
    (\<forall>f \<in> set fs. snd (snd f) \<longrightarrow> fst f \<in> fst ` set vs) \<Longrightarrow> conforms J (Obj_T fs) (j_object J vs)"

lemmas conforms_value = null_conforms str_conforms int_conforms bool_conforms ex_bool_eq

text \<open>\<^verbatim>\<open>get<std::string>\<close> succeeds on strings only.\<close>

locale json_strings = json_library J for J :: "'j json_lib" +
  assumes string_value: "j_string J x = Inr w \<Longrightarrow> x = j_str J w"

interpretation jv: json_strings "ref_json parse dump"
proof unfold_locales
  fix x w assume "j_string (ref_json parse dump) x = Inr w"
  then show "x = j_str (ref_json parse dump) w" by (cases x) (simp_all add: ref_json_def)
qed


section \<open>Endpoints\<close>

datatype endpoint =
    Health | Login | Create_App | List_Apps | Get_App | Delete_App | List_Namespaces | Create_Namespace
  | Get_Config | Set_Config | Delete_Config | Publish | Get_Releases | Notifications
  | Other_Verb | Unknown

definition endpoint :: "http_request \<Rightarrow> endpoint" where
  "endpoint rq =
     (let target = req_target rq; meth = req_method rq
      in if target = ''/health'' then Health
         else if target = ''/api/v1/auth/login'' \<and> meth = PostV then Login
         else if target = ''/api/v1/apps'' then
           (if meth = PostV then Create_App else if meth = GetV then List_Apps else Other_Verb)
         else if str_find ''/api/v1/apps/'' target = Some 0 \<and> str_find ''/namespaces'' target = None then
           (if meth = GetV then Get_App else if meth = DeleteV then Delete_App else Other_Verb)
         else if str_find ''/api/v1/apps/'' target = Some 0 \<and> str_find ''/namespaces'' target \<noteq> None then
           (if meth = GetV then List_Namespaces else Other_Verb)
         else if target = ''/api/v1/namespaces'' \<and> meth = PostV then Create_Namespace
         else if str_find ''/api/v1/namespaces/'' target = Some 0 \<and> str_find ''/keys/'' target \<noteq> None then
           (if meth = GetV then Get_Config else if meth = PutV then Set_Config
            else if meth = DeleteV then Delete_Config else Other_Verb)
         else if str_find ''/api/v1/namespaces/'' target = Some 0 \<and> str_find ''/publish'' target \<noteq> None then Publish
         else if str_find ''/api/v1/namespaces/'' target = Some 0 \<and> str_find ''/releases'' target \<noteq> None
           then Get_Releases
         else if target = ''/api/v1/notifications'' then Notifications
         else Unknown)"

text \<open>The error format, the answer to writes, and the answers of the endpoints.\<close>

definition error_type :: json_type where
  "error_type = Obj_T [(''error'', Str_T, True), (''code'', Int_T, True)]"

definition ok_type :: json_type where
  "ok_type = Obj_T [(''status'', Str_T, True)]"

definition app_type :: json_type where
  "app_type = Obj_T [(''app_id'', Str_T, True), (''name'', Str_T, True), (''description'', Str_T, False),
     (''created_at'', Str_T, True)]"

definition namespace_type :: json_type where
  "namespace_type = Obj_T [(''id'', Str_T, True), (''app_id'', Str_T, True), (''env'', Str_T, True),
     (''cluster'', Str_T, True), (''name'', Str_T, True), (''type'', Str_T, True)]"

definition release_type :: json_type where
  "release_type = Obj_T [(''id'', Int_T, True), (''release_version'', Int_T, True), (''release_note'', Str_T, True),
     (''release_type'', Str_T, True), (''status'', Str_T, True), (''operator_id'', Str_T, True),
     (''created_at'', Str_T, True)]"

fun reply_types :: "endpoint \<Rightarrow> json_type list" where
  "reply_types Health = [Obj_T [(''status'', Str_T, True), (''uptime_seconds'', Int_T, True),
     (''db_connected'', Bool_T, True)]]"
| "reply_types Login = [error_type]"
| "reply_types Create_App = [error_type, Obj_T [(''app_id'', Str_T, True), (''name'', Str_T, True)]]"
| "reply_types List_Apps = [Obj_T [(''applications'', List_T app_type, True)]]"
| "reply_types Get_App = [error_type, app_type]"
| "reply_types Delete_App = [ok_type]"
| "reply_types List_Namespaces = [Obj_T [(''namespaces'', List_T namespace_type, True)]]"
| "reply_types Create_Namespace = [error_type, Obj_T [(''id'', Str_T, True)]]"
| "reply_types Get_Config = [error_type, Obj_T [(''key'', Str_T, True), (''value'', Str_T, True),
     (''version'', Int_T, True)]]"
| "reply_types Set_Config = [ok_type]"
| "reply_types Delete_Config = [ok_type]"
| "reply_types Publish = [error_type, Obj_T [(''release_id'', Int_T, True), (''release_version'', Int_T, True),
     (''release_note'', Str_T, True), (''created_at'', Str_T, True)]]"
| "reply_types Get_Releases = [Obj_T [(''releases'', List_T release_type, True)]]"
| "reply_types Notifications = [error_type]"
| "reply_types Other_Verb = [Null_T]"
| "reply_types Unknown = [error_type]"

definition typed_reply :: "'j json_lib \<Rightarrow> endpoint \<Rightarrow> 'j \<Rightarrow> bool" where
  "typed_reply J ep j \<longleftrightarrow> (\<exists>ty \<in> set (reply_types ep). conforms J ty j)"


section \<open>Computations whose results satisfy a property\<close>

definition answers :: "('a \<Rightarrow> bool) \<Rightarrow> ('s, 'a) io \<Rightarrow> bool" where
  "answers Q m \<longleftrightarrow> (\<forall>s x t. m s = (Inr x, t) \<longrightarrow> Q x)"

lemma answers_bind: "(\<And>x. answers Q (f x)) \<Longrightarrow> answers Q (bindE m f)"
  by (auto simp: answers_def bindE_Inr)

lemma answers_bind_lift: "(\<And>x. r = Inr x \<Longrightarrow> answers Q (f x)) \<Longrightarrow> answers Q (bindE (lift r) f)"
  by (cases r) (auto simp: answers_def raise_def)

lemma answers_then: "answers Q k \<Longrightarrow> answers Q (thenE m k)"
  by (auto simp: answers_def thenE_Inr)

lemma answers_ret: "Q x \<Longrightarrow> answers Q (ret x)"
  by (simp add: answers_def ret_def)

lemma answers_if: "answers Q m \<Longrightarrow> answers Q k \<Longrightarrow> answers Q (if b then m else k)"
  by simp

lemma answers_option:
  "answers Q m \<Longrightarrow> (\<And>x. answers Q (f x)) \<Longrightarrow> answers Q (case v of None \<Rightarrow> m | Some x \<Rightarrow> f x)"
  by (cases v) simp_all

lemma answers_prod: "(\<And>x y. answers Q (f x y)) \<Longrightarrow> answers Q (case v of (x, y) \<Rightarrow> f x y)"
  by (cases v) simp

lemmas answers_rules = answers_bind_lift answers_bind answers_then answers_ret answers_if answers_option answers_prod

text \<open>The fixed answers.\<close>

lemma error_conforms: "conforms J error_type (api_error J c w)"
  unfolding error_type_def api_error_def by (rule obj_conforms) (auto intro: conforms_value)

lemma ok_conforms: "conforms J ok_type (api_success J)"
  unfolding ok_type_def api_success_def by (rule obj_conforms) (auto intro: conforms_value)


section \<open>The answers of the handlers\<close>

lemma single_list:
  "(\<And>x. x \<in> set xs \<Longrightarrow> conforms J ty x) \<Longrightarrow> conforms J (Obj_T [(k, List_T ty, True)]) (j_object J [(k, j_array J xs)])"
  by (rule obj_conforms) (auto intro: list_conforms)

context json_strings
begin

lemma app_conforms: "conforms J app_type (app_json J a)"
  unfolding app_type_def app_json_def Let_def
  by (cases "app_description a") (simp_all add: set_object, (rule obj_conforms; simp add: conforms_value)+)

lemma namespace_conforms: "conforms J namespace_type (ns_json J n)"
  unfolding namespace_type_def ns_json_def
  by (simp add: set_object set_null, rule obj_conforms, simp_all add: conforms_value)

lemma release_conforms: "conforms J release_type (http_release_json J r)"
  unfolding release_type_def http_release_json_def
  by (simp add: set_object set_null, rule obj_conforms, simp_all add: conforms_value)

lemmas reply_conforms = error_conforms ok_conforms conforms_value

lemma reads_conform:
  "answers (typed_reply J Health) (http_handleHealth J S)"
  "answers (typed_reply J List_Apps) (http_handleListApps J S)"
  "answers (typed_reply J List_Namespaces) (http_handleListNamespaces J S a)"
  "answers (typed_reply J Get_Releases) (http_handleGetReleases J S n)"
proof -
  show "answers (typed_reply J Health) (http_handleHealth J S)"
    unfolding http_handleHealth_def typed_reply_def
    by (intro answers_rules, simp, rule obj_conforms, simp_all add: conforms_value)
  show "answers (typed_reply J List_Apps) (http_handleListApps J S)"
    unfolding http_handleListApps_def typed_reply_def
    by (intro answers_rules) (auto simp: app_conforms intro!: single_list)
  show "answers (typed_reply J List_Namespaces) (http_handleListNamespaces J S a)"
    unfolding http_handleListNamespaces_def typed_reply_def
    by (intro answers_rules) (auto simp: namespace_conforms intro!: single_list)
  show "answers (typed_reply J Get_Releases) (http_handleGetReleases J S n)"
    unfolding http_handleGetReleases_def typed_reply_def
    by (intro answers_rules) (auto simp: release_conforms intro!: single_list)
qed

lemma errors_conform:
  "typed_reply J Login (api_error J c w)" "typed_reply J Create_App (api_error J c w)"
  "typed_reply J Get_App (api_error J c w)" "typed_reply J Create_Namespace (api_error J c w)"
  "typed_reply J Get_Config (api_error J c w)" "typed_reply J Publish (api_error J c w)"
  "typed_reply J Notifications (api_error J c w)" "typed_reply J Unknown (api_error J c w)"
  "typed_reply J Delete_App (api_success J)" "typed_reply J Set_Config (api_success J)"
  "typed_reply J Delete_Config (api_success J)" "typed_reply J Other_Verb (j_null J)"
  by (simp_all add: typed_reply_def error_conforms ok_conforms null_conforms)

lemma answers_error_or:
  "answers (typed_reply J Login) (http_handleLogin J b)"
  "answers (typed_reply J Delete_App) (http_handleDeleteApp J S a)"
  "answers (typed_reply J Set_Config) (http_handleSetConfig J S now b n k)"
  "answers (typed_reply J Delete_Config) (http_handleDeleteConfig J S now n k)"
  unfolding http_handleLogin_def http_handleDeleteApp_def http_handleSetConfig_def set_draft_def http_handleDeleteConfig_def
  by (intro answers_rules errors_conform)+

lemma get_conforms:
  "answers (typed_reply J Get_App) (http_handleGetApp J S a)"
  "answers (typed_reply J Get_Config) (http_handleGetConfig J S n k)"
proof -
  have "typed_reply J Get_App (let obj = j_object J [(''app_id'', j_str J (app_app_id x)), (''name'', j_str J (app_name x)),
         (''created_at'', j_str J (app_created_at x))]
       in case app_description x of None \<Rightarrow> obj | Some d \<Rightarrow> j_set J obj ''description'' (j_str J d))" for x
    unfolding typed_reply_def
    by (rule bexI [of _ app_type], cases "app_description x")
      (simp_all add: app_type_def set_object, (rule obj_conforms; simp add: conforms_value)+)
  then show "answers (typed_reply J Get_App) (http_handleGetApp J S a)"
    unfolding http_handleGetApp_def Let_def by (intro answers_rules errors_conform)
  have "typed_reply J Get_Config (j_object J [(''key'', j_str J x), (''value'', j_str J v), (''version'', j_int J i)])" for x v i
    unfolding typed_reply_def by (rule bexI [of _ "last (reply_types Get_Config)"]) (simp_all, rule obj_conforms, simp_all add: conforms_value)
  then show "answers (typed_reply J Get_Config) (http_handleGetConfig J S n k)"
    unfolding http_handleGetConfig_def by (intro answers_rules errors_conform)
qed

lemma writes_conform:
  "answers (typed_reply J Create_App) (http_handleCreateApp J S now b)"
  "answers (typed_reply J Create_Namespace) (http_handleCreateNamespace J S now b)"
  "answers (typed_reply J Publish) (http_handlePublish J S now b n)"
proof -
  have "typed_reply J Create_App (j_object J [(''app_id'', x), (''name'', y)])"
    if "j_string J x = Inr v" "j_string J y = Inr w" for x y v w
    unfolding typed_reply_def string_value [OF that(1)] string_value [OF that(2)]
    by (rule bexI [of _ "last (reply_types Create_App)"]) (simp_all, rule obj_conforms, simp_all add: conforms_value)
  then show "answers (typed_reply J Create_App) (http_handleCreateApp J S now b)"
    unfolding http_handleCreateApp_def by (intro answers_rules errors_conform)
  have "typed_reply J Create_Namespace (j_object J [(''id'', j_str J x)])" for x
    unfolding typed_reply_def
    by (rule bexI [of _ "last (reply_types Create_Namespace)"]) (simp_all, rule obj_conforms, simp_all add: conforms_value)
  then show "answers (typed_reply J Create_Namespace) (http_handleCreateNamespace J S now b)"
    unfolding http_handleCreateNamespace_def create_namespace_def by (intro answers_rules errors_conform)
  have "typed_reply J Publish (j_object J [(''release_id'', j_int J i), (''release_version'', j_int J v),
      (''release_note'', j_str J x), (''created_at'', j_str J y)])" for i v x y
    unfolding typed_reply_def
    by (rule bexI [of _ "last (reply_types Publish)"]) (simp_all, rule obj_conforms, simp_all add: conforms_value)
  then show "answers (typed_reply J Publish) (http_handlePublish J S now b n)"
    unfolding http_handlePublish_def by (intro answers_rules errors_conform)
qed

lemmas handlers_conform = reads_conform answers_error_or get_conforms writes_conform

text \<open>A status and a body that fit an endpoint.\<close>

definition fits :: "endpoint \<Rightarrow> nat \<times> 'j \<Rightarrow> bool" where
  "fits ep r \<longleftrightarrow> fst r = (if ep = Unknown then 404 else 200) \<and> typed_reply J ep (snd r)"

lemma answers_ok: "answers (typed_reply J ep) m \<Longrightarrow> ep \<noteq> Unknown \<Longrightarrow> answers (fits ep) (bindE m (\<lambda>j. ret (200, j)))"
  by (auto simp: answers_def bindE_Inr ret_def fits_def)

lemma answers_fixed:
  "answers (fits Other_Verb) (ret (200, j_null J))" "answers (fits Notifications) (ret (200, api_error J c w))"
  "answers (fits Unknown) (ret (404, api_error J c w))"
  by (simp_all add: answers_def ret_def fits_def errors_conform)

lemma answers_route:
  "answers (fits x) m \<Longrightarrow> answers (fits y) k \<Longrightarrow> answers (fits (if b then x else y)) (if b then m else k)"
  by simp

lemma route_conforms: "answers (fits (endpoint rq)) (routeRequest J S now rq)"
  unfolding routeRequest_def endpoint_def Let_def http_handleNotifications_def
  by (intro answers_route answers_ok handlers_conform answers_fixed) simp_all

end


section \<open>Property\<close>


text \<open>The example: reading a published key, with a text format that prints the first member of an object.\<close>

definition typed_json :: "json_value json_lib" where
  "typed_json = ref_json (\<lambda>_. Inl JsonError) (\<lambda>j. case j of JObj ((_, JStr w) # _) \<Rightarrow> Inr w | _ \<Rightarrow> Inr [])"

definition typed_request :: http_request where
  "typed_request = \<lparr>req_target = ''/api/v1/namespaces/ns/keys/k'', req_method = GetV, req_body = []\<rparr>"

definition typed_store :: storage where
  "typed_store = snd (publishRelease mem_orm ''t3'' ''ns'' ''first'' ''bob'' default_Release demo2)"


end
