(* ===== verification/Client_Sdk.thy ===== *)
theory Client_Sdk
  imports Api_Handlers Text_Fields
begin

text \<open>
  The client SDK (\<^verbatim>\<open>sdk/src/config_client.cpp\<close>, \<^verbatim>\<open>sdk/include/config-center/config_client.h\<close>) on a
  POSIX system. A client is a record of the members of \<^verbatim>\<open>ConfigClient\<close>; the \<^verbatim>\<open>unordered_map\<close> of
  cached values is an association list in the order of its iteration. Files are a map from paths
  to contents with the set of paths that can be opened for writing; \<open>home\<close> is \<^verbatim>\<open>getenv("HOME")\<close>.
  Parameters: the JSON library, and \<open>stod\<close> for \<^verbatim>\<open>std::stod\<close>, whose binary floating point results
  are not interpreted here. The bodies of \<^verbatim>\<open>SubscriptionManager\<close> and \<^verbatim>\<open>fetchConfigFromServer\<close> are empty in the
  sources, so that they leave the client as it is.
\<close>


section \<open>State\<close>

datatype InitResult = Success | ServerUnreachable | ServerUnreachableUsingCache | Failed

record 'cb client =
  cl_serverAddress :: string
  cl_appId :: string
  cl_env :: string
  cl_initialized :: bool
  cl_configCache :: "(string \<times> string) list"
  cl_callbacks :: "string \<rightharpoonup> 'cb list"
  cl_cacheFilePath :: string
  cl_backoffSeconds :: int

record files =
  fs_content :: "string \<rightharpoonup> string"
  fs_writable :: "string \<Rightarrow> bool"

definition new_client :: "'cb client" where
  "new_client = \<lparr>cl_serverAddress = [], cl_appId = [], cl_env = [], cl_initialized = False,
     cl_configCache = [], cl_callbacks = Map.empty, cl_cacheFilePath = [], cl_backoffSeconds = 1\<rparr>"


section \<open>SubscriptionManager and ReconnectPolicy\<close>

text \<open>The manager exists from the constructor on; \<^verbatim>\<open>start\<close>, \<^verbatim>\<open>stop\<close> and \<^verbatim>\<open>reconnect\<close> do nothing.\<close>

definition subscription_start :: "'cb client \<Rightarrow> 'cb client" where
  "subscription_start c = c"

definition subscription_stop :: "'cb client \<Rightarrow> 'cb client" where
  "subscription_stop c = c"

definition subscription_reconnect :: "'cb client \<Rightarrow> 'cb client" where
  "subscription_reconnect c = c"

definition subscribeToServer :: "'cb client \<Rightarrow> 'cb client" where
  "subscribeToServer c = subscription_start c"

definition fetchConfigFromServer :: "string \<Rightarrow> 'cb client \<Rightarrow> 'cb client" where
  "fetchConfigFromServer key c = c"

lemma subscription_idle [simp]:
  "subscription_start c = c" "subscription_stop c = c" "subscribeToServer c = c"
  by (simp_all add: subscription_start_def subscription_stop_def subscribeToServer_def)

definition nextDelay :: "'cb client \<Rightarrow> int \<times> 'cb client" where
  "nextDelay c = (cl_backoffSeconds c,
     c\<lparr>cl_backoffSeconds := min (wrap32 (cl_backoffSeconds c * 2)) 60\<rparr>)"

definition reset_backoff :: "'cb client \<Rightarrow> 'cb client" where
  "reset_backoff c = c\<lparr>cl_backoffSeconds := 1\<rparr>"

text \<open>\<^verbatim>\<open>reconnectLoop\<close>: one delay per round in which \<^verbatim>\<open>initialized_\<close> is read as true.\<close>

fun reconnectLoop :: "bool list \<Rightarrow> 'cb client \<Rightarrow> int list \<times> 'cb client" where
  "reconnectLoop (True # later) c =
     (let (delay, c1) = nextDelay c; (delays, c2) = reconnectLoop later c1 in (delay # delays, c2))"
| "reconnectLoop _ c = ([], c)"


section \<open>The file cache\<close>

text \<open>\<^verbatim>\<open>configCache_[key] = value\<close>.\<close>

fun cache_set :: "(string \<times> string) list \<Rightarrow> string \<Rightarrow> string \<Rightarrow> (string \<times> string) list" where
  "cache_set [] k v = [(k, v)]"
| "cache_set ((k', v') # rest) k v = (if k' = k then (k, v) # rest else (k', v') # cache_set rest k v)"

definition saveToFileCache :: "'j json_lib \<Rightarrow> 'cb client \<Rightarrow> (files, unit) io" where
  "saveToFileCache J c fs =
     (if cl_cacheFilePath c = [] then (Inr (), fs)
      else let cache = foldl (\<lambda>j (k, v). j_set J j k (j_str J v)) (j_null J) (cl_configCache c)
           in if \<not> fs_writable fs (cl_cacheFilePath c) then (Inr (), fs)
              else let fs1 = fs\<lparr>fs_content := (fs_content fs)(cl_cacheFilePath c \<mapsto> [])\<rparr>
                   in case j_dump2 J cache of
                        Inl e \<Rightarrow> (Inl e, fs1)
                      | Inr text \<Rightarrow>
                          (Inr (), fs1\<lparr>fs_content := (fs_content fs1)(cl_cacheFilePath c \<mapsto> text)\<rparr>))"

fun load_items :: "'j json_lib \<Rightarrow> (string \<times> 'j) list \<Rightarrow> (string \<times> string) list \<Rightarrow>
    bool \<times> (string \<times> string) list" where
  "load_items J [] cache = (True, cache)"
| "load_items J ((k, j) # rest) cache =
     (case j_string J j of
        Inl _ \<Rightarrow> (False, cache)
      | Inr v \<Rightarrow> load_items J rest (cache_set cache k v))"

definition loadFromFileCache :: "'j json_lib \<Rightarrow> files \<Rightarrow> 'cb client \<Rightarrow> bool \<times> 'cb client" where
  "loadFromFileCache J fs c =
     (case fs_content fs (cl_cacheFilePath c) of
        None \<Rightarrow> (False, c)
      | Some content \<Rightarrow>
          (case j_parse J content of
             Inl _ \<Rightarrow> (False, c)
           | Inr cache \<Rightarrow>
               (case j_items J cache of
                  Inl _ \<Rightarrow> (False, c)
                | Inr items \<Rightarrow>
                    (let (ok, cache') = load_items J items (cl_configCache c)
                     in (ok, c\<lparr>cl_configCache := cache'\<rparr>)))))"


section \<open>Init and Shutdown\<close>

definition cache_path :: "string option \<Rightarrow> string \<Rightarrow> string \<Rightarrow> string" where
  "cache_path home appId env =
     (case home of
        Some h \<Rightarrow> h @ ''/.config-center/cache/'' @ appId @ ''-'' @ env @ ''.json''
      | None \<Rightarrow> ''config-cache-'' @ appId @ ''-'' @ env @ ''.json'')"

definition Init ::
  "'j json_lib \<Rightarrow> string option \<Rightarrow> files \<Rightarrow> string \<Rightarrow> string \<Rightarrow> string \<Rightarrow> 'cb client \<Rightarrow>
   InitResult \<times> 'cb client" where
  "Init J home fs serverAddress appId env c =
     (let c1 = c\<lparr>cl_serverAddress := serverAddress, cl_appId := appId, cl_env := env,
                 cl_cacheFilePath := cache_path home appId env\<rparr>;
          serverReachable = False
      in if \<not> serverReachable
         then (let (loaded, c2) = loadFromFileCache J fs c1
               in if loaded then (ServerUnreachableUsingCache, (subscribeToServer c2)\<lparr>cl_initialized := True\<rparr>)
                  else (Failed, c2))
         else (Success, (subscribeToServer c1)\<lparr>cl_initialized := True\<rparr>))"

definition Shutdown :: "'j json_lib \<Rightarrow> 'cb client \<Rightarrow> (files, 'cb client) io" where
  "Shutdown J c =
     (if \<not> cl_initialized c then ret c
      else thenE (saveToFileCache J c) (ret ((subscription_stop c)\<lparr>cl_initialized := False\<rparr>)))"

text \<open>The destructor: an exception of \<^verbatim>\<open>Shutdown\<close> would leave it and end the process, which is \<open>None\<close>.\<close>

definition delete_client :: "'j json_lib \<Rightarrow> 'cb client \<Rightarrow> files \<Rightarrow> files option" where
  "delete_client J c fs = (case Shutdown J c fs of (Inl _, _) \<Rightarrow> None | (Inr _, fs') \<Rightarrow> Some fs')"


section \<open>Accessors and callbacks\<close>

definition GetConfig :: "string \<Rightarrow> 'cb client \<Rightarrow> string option" where
  "GetConfig key c = map_of (cl_configCache c) key"

definition GetConfigInt :: "string \<Rightarrow> 'cb client \<Rightarrow> int option" where
  "GetConfigInt key c =
     (case GetConfig key c of
        None \<Rightarrow> None
      | Some val \<Rightarrow> (case stoi val of Inr i \<Rightarrow> Some i | Inl _ \<Rightarrow> None))"

definition GetConfigDouble :: "(string \<Rightarrow> 'd result) \<Rightarrow> string \<Rightarrow> 'cb client \<Rightarrow> 'd option" where
  "GetConfigDouble stod key c =
     (case GetConfig key c of
        None \<Rightarrow> None
      | Some val \<Rightarrow> (case stod val of Inr d \<Rightarrow> Some d | Inl _ \<Rightarrow> None))"

definition GetConfigBool :: "string \<Rightarrow> 'cb client \<Rightarrow> bool option" where
  "GetConfigBool key c =
     (case GetConfig key c of
        None \<Rightarrow> None
      | Some val \<Rightarrow>
          (let lower = map tolower val
           in if lower = ''true'' \<or> lower = ''1'' then Some True
              else if lower = ''false'' \<or> lower = ''0'' then Some False
              else None))"

definition GetConfigJson :: "'j json_lib \<Rightarrow> string \<Rightarrow> 'cb client \<Rightarrow> 'j option" where
  "GetConfigJson J key c =
     (case GetConfig key c of
        None \<Rightarrow> None
      | Some val \<Rightarrow> (case j_parse J val of Inr j \<Rightarrow> Some j | Inl _ \<Rightarrow> None))"

definition RegisterCallback :: "string \<Rightarrow> 'cb \<Rightarrow> 'cb client \<Rightarrow> 'cb client" where
  "RegisterCallback key cb c =
     c\<lparr>cl_callbacks := (cl_callbacks c)(key \<mapsto>
        (case cl_callbacks c key of None \<Rightarrow> [] | Some cbs \<Rightarrow> cbs) @ [cb])\<rparr>"

definition RemoveCallbacks :: "string \<Rightarrow> 'cb client \<Rightarrow> 'cb client" where
  "RemoveCallbacks key c = c\<lparr>cl_callbacks := (cl_callbacks c)(key := None)\<rparr>"

definition GetAllKeys :: "'cb client \<Rightarrow> string list" where
  "GetAllKeys c = map fst (cl_configCache c)"


section \<open>The cache round trip\<close>

lemma cache_set_map: "map_of (cache_set xs k v) = (map_of xs)(k \<mapsto> v)"
  by (induction xs k v rule: cache_set.induct) (auto simp: fun_eq_iff)

lemma cache_set_keys: "set (map fst (cache_set xs k v)) = insert k (set (map fst xs))"
  by (induction xs k v rule: cache_set.induct) auto

lemma cache_set_distinct: "distinct (map fst xs) \<Longrightarrow> distinct (map fst (cache_set xs k v))"
proof (induction xs k v rule: cache_set.induct)
  case (2 k' v' rest k v)
  then show ?case using cache_set_keys [of rest k v] by auto
qed simp

lemma tag_keys: "fst (case x of (k, v) \<Rightarrow> (k, f v)) = fst x" "fst \<circ> (\<lambda>(k, v). (k, f v)) = fst"
  by (auto split: prod.splits)

lemma load_items_distinct:
  "load_items J items cache = (ok, cache') \<Longrightarrow> distinct (map fst cache) \<Longrightarrow> distinct (map fst cache')"
  by (induction J items cache rule: load_items.induct)
    (auto split: sum.splits simp: cache_set_distinct)

text \<open>The text side of the JSON library: a dumped value parses back, an object keeps its members.\<close>

locale json_text = json_library J for J :: "'j json_lib" +
  assumes parse_dump2: "j_dump2 J j = Inr text \<Longrightarrow> j_parse J text = Inr j"
    and string_str: "j_string J (j_str J s) = Inr s"
    and items_null: "j_items J (j_null J) = Inr []"
    and items_object:
      "distinct (map fst fs) \<Longrightarrow> \<exists>gs. j_items J (j_object J fs) = Inr gs \<and> distinct (map fst gs) \<and>
         set gs = set fs"
begin

lemma load_strings:
  "\<forall>(k, j)\<in>set items. \<exists>v. j = j_str J v \<Longrightarrow> distinct (map fst items) \<Longrightarrow>
   \<exists>cache'. load_items J items cache = (True, cache') \<and>
     (\<forall>k. map_of cache' k = (case map_of items k of
        None \<Rightarrow> map_of cache k
      | Some j \<Rightarrow> (case j_string J j of Inr v \<Rightarrow> Some v | Inl _ \<Rightarrow> None)))"
proof (induction items arbitrary: cache)
  case (Cons item items)
  obtain k j where item: "item = (k, j)" by (cases item)
  from Cons.prems item obtain v where v: "j = j_str J v" by auto
  from Cons.prems item have fresh: "map_of items k = None" by (simp add: map_of_eq_None_iff)
  from Cons.IH [of "cache_set cache k v"] Cons.prems obtain cache' where
    c: "load_items J items (cache_set cache k v) = (True, cache')"
      "\<forall>i. map_of cache' i = (case map_of items i of
        None \<Rightarrow> map_of (cache_set cache k v) i
      | Some j \<Rightarrow> (case j_string J j of Inr v \<Rightarrow> Some v | Inl _ \<Rightarrow> None))" by auto
  with item v fresh show ?case
    by (intro exI [of _ cache']) (auto simp: string_str cache_set_map split: option.splits)
qed simp

lemma saved_object:
  assumes "distinct (map fst xs)"
  shows "\<exists>gs. j_items J (foldl (\<lambda>j (k, v). j_set J j k (j_str J v)) (j_null J) xs) = Inr gs \<and>
    distinct (map fst gs) \<and> set gs = set (map (\<lambda>(k, v). (k, j_str J v)) xs)"
proof (cases xs)
  case Nil
  then show ?thesis by (simp add: items_null)
next
  case (Cons x rest)
  let ?f = "\<lambda>(k, v). (k, j_str J v)"
  have fold: "foldl (\<lambda>j (k, v). j_set J j k (j_str J v)) j0 ys =
      foldl (\<lambda>j (k, v). j_set J j k v) j0 (map ?f ys)" for j0 ys
    by (induction ys arbitrary: j0) auto
  obtain k v where x: "x = (k, v)" by (cases x)
  have "distinct (map fst ([(k, j_str J v)] @ map ?f rest))"
    using assms Cons x by (simp add: tag_keys image_image)
  from set_fields [OF this] have "foldl (\<lambda>j (k, v). j_set J j k (j_str J v)) (j_null J) xs = j_object J (map ?f xs)"
    using Cons x by (simp add: fold set_null)
  with items_object [of "map ?f xs"] assms show ?thesis by (simp add: tag_keys)
qed

end

text \<open>The instance: objects of strings, written as the list of their keys and values.\<close>

fun flat_strings :: "(string \<times> json_value) list \<Rightarrow> string list option" where
  "flat_strings [] = Some []"
| "flat_strings ((k, JStr s) # rest) = map_option (\<lambda>ss. k # s # ss) (flat_strings rest)"
| "flat_strings _ = None"

fun pair_up :: "string list \<Rightarrow> (string \<times> json_value) list" where
  "pair_up (k # s # rest) = (k, JStr s) # pair_up rest"
| "pair_up _ = []"

definition put_strings :: "json_value \<Rightarrow> string result" where
  "put_strings j =
     (case j of
        JNull \<Rightarrow> Inr ''n''
      | JObj fs \<Rightarrow>
          (case flat_strings fs of
             None \<Rightarrow> Inl JsonError
           | Some ss \<Rightarrow> Inr (concat (map put_field ss)))
      | _ \<Rightarrow> Inl JsonError)"

definition get_strings :: "string \<Rightarrow> json_value result" where
  "get_strings text =
     (if text = ''n'' then Inr JNull
      else case all_fields text of None \<Rightarrow> Inl JsonError | Some ss \<Rightarrow> Inr (JObj (pair_up ss)))"

lemma pair_flat: "flat_strings fs = Some ss \<Longrightarrow> pair_up ss = fs"
  by (induction fs arbitrary: ss rule: flat_strings.induct) auto

lemma put_fields_not_null: "concat (map put_field ss) \<noteq> ''n''"
proof (cases ss)
  case (Cons s rest)
  then show ?thesis by (cases s) (simp_all add: put_field_def)
qed simp

lemma get_put_strings: "put_strings j = Inr text \<Longrightarrow> get_strings text = Inr j"
  by (auto simp: put_strings_def get_strings_def put_fields_not_null pair_flat
      split: json_value.splits option.splits)

interpretation jt: json_text "ref_json get_strings put_strings"
proof unfold_locales
  fix j w assume "j_dump2 (ref_json get_strings put_strings) j = Inr w"
  then show "j_parse (ref_json get_strings put_strings) w = Inr j"
    by (simp add: ref_json_def get_put_strings)
qed (simp_all add: ref_json_def)


section \<open>Reading values\<close>

lemma GetConfigInt_bounds: "GetConfigInt k c = Some i \<Longrightarrow> int32 i"
  by (auto simp: GetConfigInt_def split: option.splits sum.splits intro: stoi_int32)

lemma nextDelay_step:
  "nextDelay (c\<lparr>cl_backoffSeconds := min (2 ^ m) 60\<rparr>) =
   (min (2 ^ m) 60, c\<lparr>cl_backoffSeconds := min (2 ^ Suc m) 60\<rparr>)"
proof -
  let ?b = "min (2 ^ m) 60 :: int"
  have "(1 :: int) \<le> 2 ^ m" by simp
  then have "- 1073741824 \<le> (2 :: int) ^ m" by linarith
  then have "int32 (?b * 2)" by (auto simp: int32_def min_def)
  moreover have "min (?b * 2) 60 = min (2 ^ Suc m) 60" by auto
  ultimately show ?thesis by (simp add: nextDelay_def)
qed

lemma reconnect_delays:
  "fst (reconnectLoop (replicate n True @ False # later) (c\<lparr>cl_backoffSeconds := min (2 ^ m) 60\<rparr>)) =
   map (\<lambda>i. min (2 ^ (m + i)) 60) [0..<n]"
proof (induction n arbitrary: m)
  case (Suc n)
  have "map (\<lambda>i. min (2 ^ (m + i)) (60 :: int)) [0..<Suc n] =
      min (2 ^ m) 60 # map (\<lambda>i. min (2 ^ (Suc m + i)) 60) [0..<n]"
    by (simp only: upt_conv_Cons [of 0 "Suc n"] zero_less_Suc list.map map_Suc_upt [symmetric] map_map
        comp_def add_Suc_right add_Suc add_0_right)
  then show ?case using Suc [of "Suc m"]
    by (simp add: nextDelay_step split_beta del: upt_Suc power_Suc)
qed simp


section \<open>Restart\<close>

context json_text
begin

lemma shutdown_init:
  assumes "cl_initialized c" and dist: "distinct (map fst (cl_configCache c))"
    and "cl_cacheFilePath c = cache_path home app env" and "fs_writable fs (cache_path home app env)"
    and "Shutdown J c fs = (Inr c', fs')"
  shows "\<not> cl_initialized c' \<and>
    (\<exists>d'. Init J home fs' addr app env d = (ServerUnreachableUsingCache, d') \<and> cl_initialized d' \<and>
      (\<forall>k. GetConfig k d' = (case GetConfig k c of None \<Rightarrow> GetConfig k d | Some v \<Rightarrow> Some v)))"
proof -
  let ?path = "cache_path home app env" and ?f = "\<lambda>(k, v). (k, j_str J v)"
  let ?cache = "foldl (\<lambda>j (k, v). j_set J j k (j_str J v)) (j_null J) (cl_configCache c)"
  have "?path \<noteq> []" by (simp add: cache_path_def split: option.splits)
  with assms obtain w where w: "j_dump2 J ?cache = Inr w" and saved: "fs_content fs' ?path = Some w"
    and c': "c' = c\<lparr>cl_initialized := False\<rparr>"
    by (auto simp: Shutdown_def saveToFileCache_def thenE_Inr Let_def split: sum.splits)
  from saved_object [OF dist] obtain gs where gs: "j_items J ?cache = Inr gs" "distinct (map fst gs)"
    "set gs = set (map ?f (cl_configCache c))" by blast
  from gs(3) have "\<forall>(k, j)\<in>set gs. \<exists>v. j = j_str J v" by auto
  from load_strings [OF this gs(2), of "cl_configCache d"] obtain cache' where
    load: "load_items J gs (cl_configCache d) = (True, cache')"
    and val: "\<And>k. map_of cache' k = (case map_of gs k of None \<Rightarrow> map_of (cl_configCache d) k
      | Some j \<Rightarrow> (case j_string J j of Inr v \<Rightarrow> Some v | Inl _ \<Rightarrow> None))" by blast
  have "distinct (map fst (map ?f (cl_configCache c)))" using dist by (simp add: tag_keys)
  with gs(2,3) have "map_of gs = map_of (map ?f (cl_configCache c))" by (simp add: map_of_inject_set)
  then have "map_of gs k = map_option (j_str J) (map_of (cl_configCache c) k)" for k
    by (simp add: map_of_map)
  with val have "map_of cache' k =
      (case map_of (cl_configCache c) k of None \<Rightarrow> map_of (cl_configCache d) k | Some v \<Rightarrow> Some v)" for k
    by (simp add: string_str split: option.splits)
  with saved w gs(1) load c' show ?thesis
    by (auto simp: Init_def loadFromFileCache_def parse_dump2 GetConfig_def Let_def cong: option.case_cong)
qed

end


section \<open>Example clients\<close>

definition demo_client :: "unit client" where
  "demo_client = new_client\<lparr>cl_initialized := True, cl_configCache := [(''k1'', ''v1''), (''k2'', ''v2'')],
     cl_cacheFilePath := ''config-cache-a-e.json''\<rparr>"

definition demo_files :: files where
  "demo_files = \<lparr>fs_content = Map.empty, fs_writable = (\<lambda>_. True)\<rparr>"


section \<open>Properties\<close>

text \<open>
  C35. The cache file survives a restart: when an initialised client with a writable cache path shuts
  down and its cache can be serialised, a client that initialises for the same application and
  environment afterwards reports the unreachable server but reads, for every key, the value the first
  client had cached, and what it already had for the other keys. Destroying the first client instead of
  shutting it down leaves the same files.
\<close>

theorem cache_survives_restart:
  assumes "json_text J" and "cl_initialized c" and "distinct (map fst (cl_configCache c))"
    and "cl_cacheFilePath c = cache_path home app env" and "fs_writable fs (cache_path home app env)"
    and "Shutdown J c fs = (Inr c', fs')"
  shows "\<not> cl_initialized c' \<and> delete_client J c fs = Some fs' \<and>
    (\<exists>d'. Init J home fs' addr app env d = (ServerUnreachableUsingCache, d') \<and> cl_initialized d' \<and>
      (\<forall>k. GetConfig k d' = (case GetConfig k c of None \<Rightarrow> GetConfig k d | Some v \<Rightarrow> Some v)))"
  using json_text.shutdown_init [OF assms] assms(6) by (simp add: delete_client_def)

theorem cache_survives_restart_witness:
  "\<exists>d'. Init (ref_json get_strings put_strings) None
     (snd (Shutdown (ref_json get_strings put_strings) demo_client demo_files)) ''s'' ''a'' ''e''
     (new_client :: unit client) = (ServerUnreachableUsingCache, d') \<and> GetConfig ''k2'' d' = Some ''v2''"
proof -
  have "cl_initialized demo_client" "distinct (map fst (cl_configCache demo_client))"
    "cl_cacheFilePath demo_client = cache_path None ''a'' ''e''"
    "fs_writable demo_files (cache_path None ''a'' ''e'')"
    by (simp_all add: demo_client_def demo_files_def cache_path_def)
  moreover have "\<exists>w. put_strings (JObj [(''k1'', JStr ''v1''), (''k2'', JStr ''v2'')]) = Inr w"
    by (simp add: put_strings_def)
  then have "fst (Shutdown (ref_json get_strings put_strings) demo_client demo_files) =
      Inr (demo_client\<lparr>cl_initialized := False\<rparr>)"
    by (auto simp: Shutdown_def saveToFileCache_def demo_client_def demo_files_def ref_json_def io_defs thenE_def)
  ultimately show ?thesis
    using cache_survives_restart [OF jt.json_text_axioms, of demo_client None "''a''" "''e''" demo_files
        "demo_client\<lparr>cl_initialized := False\<rparr>"
        "snd (Shutdown (ref_json get_strings put_strings) demo_client demo_files)" "''s''" new_client]
    by (auto simp: demo_client_def GetConfig_def prod_eq_iff)
qed


end
