(* ===== verification/Mysql_Store.thy ===== *)
theory Mysql_Store
  imports Data_Types Cpp_Numbers
begin

text \<open>
  \<^verbatim>\<open>MysqlConfigStore\<close> and \<^verbatim>\<open>MysqlConnectionPool\<close> (\<^verbatim>\<open>src/storage/mysql_config_store.cpp\<close>). The class
  \<^verbatim>\<open>MysqlConnection\<close> is abstract and has no implementation in the repository: it is the record
  \<open>mysql_conn\<close> of the operations of connection \<open>i\<close> on a server state \<open>'m\<close>. The pool is the queue of
  free connections; \<^verbatim>\<open>acquire\<close> blocks on an empty pool, so an operation of the store is a partial
  function of the state and \<open>None\<close> means that it waits for another thread. An exception between
  \<^verbatim>\<open>acquire\<close> and \<^verbatim>\<open>release\<close> keeps the connection out of the pool, as in the code. Statements are
  values of \<open>stmt\<close>; \<open>sql_of\<close> gives the text the code concatenates (in the schema statements white
  space is reduced to single blanks). \<open>now\<close> is the result of \<^verbatim>\<open>getTimestamp\<close>.
\<close>


section \<open>SQL texts\<close>

abbreviation quote :: char where "quote \<equiv> CHR 0x27"
abbreviation backslash :: char where "backslash \<equiv> CHR 0x5C"

fun escape :: "string \<Rightarrow> string" where
  "escape [] = []"
| "escape (c # value) =
     (if c = quote then backslash # quote # escape value
      else if c = backslash then backslash # backslash # escape value
      else c # escape value)"

text \<open>\<open>Raw\<close> text, \<open>Lit\<close> an escaped value in quotes, \<open>Plain\<close> a value put in quotes unescaped.\<close>

datatype piece = Raw string | Lit string | Plain string

fun render_piece :: "piece \<Rightarrow> string" where
  "render_piece (Raw s) = s"
| "render_piece (Lit v) = quote # escape v @ [quote]"
| "render_piece (Plain v) = quote # v @ [quote]"

definition render :: "piece list \<Rightarrow> string" where
  "render ps = concat (map render_piece ps)"

definition opt_lit :: "string option \<Rightarrow> piece" where
  "opt_lit v = (case v of Some s \<Rightarrow> Lit s | None \<Rightarrow> Raw ''NULL'')"

definition num :: "int \<Rightarrow> piece" where
  "num i = Raw (to_string i)"

definition schema :: "piece list list" where
  "schema = [
    [Raw (''CREATE TABLE IF NOT EXISTS applications ( app_id VARCHAR(255) PRIMARY KEY, name '' @
      ''VARCHAR(255) NOT NULL, description TEXT, created_at DATETIME NOT NULL )'')],
    [Raw (''CREATE TABLE IF NOT EXISTS namespaces ( id VARCHAR(255) PRIMARY KEY, app_id '' @
      ''VARCHAR(255) NOT NULL, env VARCHAR(50) NOT NULL, cluster VARCHAR(100) NOT NULL '' @
      ''DEFAULT ''), Lit ''default'', Raw ('', name VARCHAR(255) NOT NULL, type VARCHAR(50) NOT NULL, parent_namespace_id '' @
      ''VARCHAR(255), approval_enabled BOOLEAN DEFAULT FALSE, created_at DATETIME NOT '' @
      ''NULL, FOREIGN KEY (app_id) REFERENCES applications(app_id) ON DELETE CASCADE )'')],
    [Raw (''CREATE TABLE IF NOT EXISTS configs ( namespace_id VARCHAR(255) NOT NULL, `key` '' @
      ''VARCHAR(255) NOT NULL, value TEXT NOT NULL, version INT NOT NULL DEFAULT 1, '' @
      ''status VARCHAR(20) NOT NULL DEFAULT ''), Lit ''live'', Raw ('', created_at DATETIME NOT NULL, updated_at DATETIME NOT NULL, PRIMARY KEY '' @
      ''(namespace_id, `key`), FOREIGN KEY (namespace_id) REFERENCES namespaces(id) ON '' @
      ''DELETE CASCADE )'')],
    [Raw (''CREATE TABLE IF NOT EXISTS config_versions ( version INT NOT NULL, config_id '' @
      ''VARCHAR(512) NOT NULL, value TEXT NOT NULL, change_type VARCHAR(50) NOT NULL, '' @
      ''operator_id VARCHAR(255) NOT NULL, created_at DATETIME NOT NULL )'')],
    [Raw (''CREATE TABLE IF NOT EXISTS change_logs ( id BIGINT AUTO_INCREMENT PRIMARY KEY, '' @
      ''config_id VARCHAR(512) NOT NULL, namespace_id VARCHAR(255) NOT NULL, `key` '' @
      ''VARCHAR(255) NOT NULL, version INT NOT NULL, old_value TEXT, new_value TEXT, '' @
      ''operation VARCHAR(50) NOT NULL, operator_id VARCHAR(255) NOT NULL, created_at '' @
      ''DATETIME NOT NULL )'')],
    [Raw (''CREATE TABLE IF NOT EXISTS releases ( id BIGINT AUTO_INCREMENT PRIMARY KEY, '' @
      ''namespace_id VARCHAR(255) NOT NULL, release_version INT NOT NULL, release_note '' @
      ''TEXT, release_type VARCHAR(50) NOT NULL DEFAULT ''), Lit ''full'', Raw '', status VARCHAR(50) NOT NULL DEFAULT '', Lit ''active'', Raw ('', grayscale_percentage INT, whitelist TEXT, operator_id VARCHAR(255) NOT NULL, '' @
      ''created_at DATETIME NOT NULL, FOREIGN KEY (namespace_id) REFERENCES '' @
      ''namespaces(id) ON DELETE CASCADE )'')],
    [Raw (''CREATE TABLE IF NOT EXISTS approvals ( id BIGINT AUTO_INCREMENT PRIMARY KEY, '' @
      ''namespace_id VARCHAR(255) NOT NULL, submitter_id VARCHAR(255) NOT NULL, '' @
      ''approver_id VARCHAR(255), status VARCHAR(50) NOT NULL DEFAULT ''), Lit ''pending'', Raw ('', comment TEXT, created_at DATETIME NOT NULL, updated_at DATETIME, FOREIGN KEY '' @
      ''(namespace_id) REFERENCES namespaces(id) ON DELETE CASCADE )'')],
    [Raw (''CREATE TABLE IF NOT EXISTS users ( id BIGINT AUTO_INCREMENT PRIMARY KEY, '' @
      ''username VARCHAR(255) UNIQUE NOT NULL, password_hash VARCHAR(255) NOT NULL, '' @
      ''role VARCHAR(50) NOT NULL DEFAULT ''), Lit ''viewer'', Raw '', created_at DATETIME NOT NULL )'']]"

datatype (plugins only: code) stmt =
    Q_InsertApplication Application
  | Q_SelectApplication string
  | Q_SelectApplications
  | Q_DeleteApplication string
  | Q_InsertNamespace Namespace
  | Q_SelectNamespace string
  | Q_SelectNamespaces string string string
  | Q_DeleteNamespace string
  | Q_InsertConfig string string string string
  | Q_InsertVersion int string string string string string
  | Q_LogCreate string string string string string string
  | Q_SelectCurrent string string
  | Q_UpdateConfig string string string int string string
  | Q_LogUpdate string string string int string string string string
  | Q_DeleteConfig string string bool
  | Q_LogDelete string string string string string
  | Q_SelectConfig string string
  | Q_SelectConfigs string bool
  | Q_SelectVersions string
  | Q_SelectVersion string int
  | Q_SelectHistory ChangeLogQuery
  | Q_InsertRelease Release string
  | Q_SelectLastId
  | Q_SelectReleases ReleaseQuery
  | Q_SelectRelease int
  | Q_RetireRelease int
  | Q_GoLive string
  | Q_SelectMaxVersion string
  | Q_InsertPublished string int string string string
  | Q_InsertApproval Approval string
  | Q_UpdateApproval int string string string
  | Q_SelectPending string
  | Q_InsertUser User
  | Q_SelectUser string
  | Q_SelectUsers

definition config_columns :: string where
  "config_columns = ''SELECT namespace_id, `key`, value, version, status, created_at, updated_at '' @
     ''FROM configs WHERE namespace_id = ''"

definition version_columns :: string where
  "version_columns = ''SELECT version, config_id, value, change_type, operator_id, created_at '' @
     ''FROM config_versions WHERE config_id = ''"

definition release_columns :: string where
  "release_columns = ''SELECT id, namespace_id, release_version, release_note, release_type, status, '' @
     ''grayscale_percentage, whitelist, operator_id, created_at FROM releases WHERE ''"

definition namespace_columns :: string where
  "namespace_columns = ''SELECT id, app_id, env, cluster, name, type, parent_namespace_id, '' @
     ''approval_enabled, created_at FROM namespaces WHERE ''"

definition opt_clause :: "string \<Rightarrow> string option \<Rightarrow> piece list" where
  "opt_clause prefix_text v = (case v of None \<Rightarrow> [] | Some s \<Rightarrow> [Raw prefix_text, Lit s])"

definition page_clause :: "int \<Rightarrow> int \<Rightarrow> piece list" where
  "page_clause page page_size = [Raw '' ORDER BY created_at DESC LIMIT '', num page_size, Raw '' OFFSET '',
     num (wrap32 (wrap32 (page - 1) * page_size))]"

primrec pieces :: "stmt \<Rightarrow> piece list" where
  "pieces (Q_InsertApplication a) =
     [Raw ''INSERT INTO applications (app_id, name, description, created_at) VALUES ('',
      Lit (app_app_id a), Raw '', '', Lit (app_name a), Raw '', '', opt_lit (app_description a), Raw '', '',
      Lit (app_created_at a), Raw '')'']"
| "pieces (Q_SelectApplication i) =
     [Raw ''SELECT app_id, name, description, created_at FROM applications WHERE app_id = '', Lit i]"
| "pieces Q_SelectApplications =
     [Raw ''SELECT app_id, name, description, created_at FROM applications'']"
| "pieces (Q_DeleteApplication i) = [Raw ''DELETE FROM applications WHERE app_id = '', Lit i]"
| "pieces (Q_InsertNamespace n) =
     [Raw (''INSERT INTO namespaces (id, app_id, env, cluster, name, type, parent_namespace_id, '' @
        ''approval_enabled, created_at) VALUES (''),
      Lit (ns_id n), Raw '', '', Lit (ns_app_id n), Raw '', '', Lit (ns_env n), Raw '', '',
      Lit (ns_cluster n), Raw '', '', Lit (ns_name n), Raw '', '', Lit (ns_type n), Raw '', '',
      opt_lit (ns_parent_namespace_id n), Raw '', '',
      Raw (if ns_approval_enabled n = Some True then ''TRUE'' else ''FALSE''), Raw '', '',
      Lit (ns_created_at n), Raw '')'']"
| "pieces (Q_SelectNamespace i) = [Raw namespace_columns, Raw ''id = '', Lit i]"
| "pieces (Q_SelectNamespaces a e c) =
     [Raw namespace_columns, Raw ''app_id = '', Lit a, Raw '' AND env = '', Lit e,
      Raw '' AND cluster = '', Lit c]"
| "pieces (Q_DeleteNamespace i) = [Raw ''DELETE FROM namespaces WHERE id = '', Lit i]"
| "pieces (Q_InsertConfig n k v ts) =
     [Raw (''INSERT INTO configs (namespace_id, `key`, value, version, status, created_at, '' @
        ''updated_at) VALUES (''),
      Lit n, Raw '', '', Lit k, Raw '', '', Lit v, Raw '', 1, '', Plain ''draft'', Raw '', '', Plain ts,
      Raw '', '', Plain ts, Raw '')'']"
| "pieces (Q_InsertVersion ver cid v change op ts) =
     [Raw (''INSERT INTO config_versions (version, config_id, value, change_type, operator_id, '' @
        ''created_at) VALUES (''),
      num ver, Raw '', '', Lit cid, Raw '', '', Lit v, Raw '', '', Plain change, Raw '', '', Lit op, Raw '', '',
      Plain ts, Raw '')'']"
| "pieces (Q_LogCreate cid n k v op ts) =
     [Raw (''INSERT INTO change_logs (config_id, namespace_id, `key`, version, new_value, '' @
        ''operation, operator_id, created_at) VALUES (''),
      Lit cid, Raw '', '', Lit n, Raw '', '', Lit k, Raw '', 1, '', Lit v, Raw '', '', Plain ''create'',
      Raw '', '', Lit op, Raw '', '', Plain ts, Raw '')'']"
| "pieces (Q_SelectCurrent n k) =
     [Raw ''SELECT version, value FROM configs WHERE namespace_id = '', Lit n, Raw '' AND `key` = '', Lit k]"
| "pieces (Q_UpdateConfig n k v ver status ts) =
     [Raw ''UPDATE configs SET value = '', Lit v, Raw '', version = '', num ver, Raw '', status = '',
      Plain status, Raw '', updated_at = '', Plain ts, Raw '' WHERE namespace_id = '', Lit n,
      Raw '' AND `key` = '', Lit k]"
| "pieces (Q_LogUpdate cid n k ver old v op ts) =
     [Raw (''INSERT INTO change_logs (config_id, namespace_id, `key`, version, old_value, new_value, '' @
        ''operation, operator_id, created_at) VALUES (''),
      Lit cid, Raw '', '', Lit n, Raw '', '', Lit k, Raw '', '', num ver, Raw '', '', Lit old, Raw '', '',
      Lit v, Raw '', '', Plain ''update'', Raw '', '', Lit op, Raw '', '', Plain ts, Raw '')'']"
| "pieces (Q_DeleteConfig n k draft) =
     [Raw ''DELETE FROM configs WHERE namespace_id = '', Lit n, Raw '' AND `key` = '', Lit k] @
     (if draft then [Raw '' AND status = '', Plain ''draft''] else [])"
| "pieces (Q_LogDelete cid n k op ts) =
     [Raw (''INSERT INTO change_logs (config_id, namespace_id, `key`, version, operation, '' @
        ''operator_id, created_at) VALUES (''),
      Lit cid, Raw '', '', Lit n, Raw '', '', Lit k, Raw '', 0, '', Plain ''delete'', Raw '', '', Lit op,
      Raw '', '', Plain ts, Raw '')'']"
| "pieces (Q_SelectConfig n k) = [Raw config_columns, Lit n, Raw '' AND `key` = '', Lit k]"
| "pieces (Q_SelectConfigs n includeDraft) =
     [Raw config_columns, Lit n] @ (if includeDraft then [] else [Raw '' AND status = '', Plain ''live''])"
| "pieces (Q_SelectVersions cid) = [Raw version_columns, Lit cid, Raw '' ORDER BY version DESC'']"
| "pieces (Q_SelectVersion cid ver) = [Raw version_columns, Lit cid, Raw '' AND version = '', num ver]"
| "pieces (Q_SelectHistory q) =
     [Raw (''SELECT id, config_id, namespace_id, `key`, version, old_value, new_value, operation, '' @
        ''operator_id, created_at FROM change_logs WHERE 1=1'')] @
     opt_clause '' AND `key` = '' (clq_key q) @
     opt_clause '' AND namespace_id = '' (clq_namespace_id q) @
     opt_clause '' AND created_at >= '' (clq_time_from q) @
     opt_clause '' AND created_at <= '' (clq_time_to q) @
     page_clause (clq_page q) (clq_page_size q)"
| "pieces (Q_InsertRelease r ts) =
     [Raw (''INSERT INTO releases (namespace_id, release_version, release_note, release_type, status, '' @
        ''grayscale_percentage, whitelist, operator_id, created_at) VALUES (''),
      Lit (rel_namespace_id r), Raw '', '', num (rel_release_version r), Raw '', '',
      Lit (rel_release_note r), Raw '', '', Lit (rel_release_type r), Raw '', '', Lit (rel_status r),
      Raw '', '', (case rel_grayscale_percentage r of Some p \<Rightarrow> num p | None \<Rightarrow> Raw ''NULL''), Raw '', '',
      opt_lit (rel_whitelist r), Raw '', '', Lit (rel_operator_id r), Raw '', '', Plain ts, Raw '')'']"
| "pieces Q_SelectLastId = [Raw ''SELECT LAST_INSERT_ID()'']"
| "pieces (Q_SelectReleases q) =
     [Raw release_columns, Raw ''namespace_id = '', Lit (rq_namespace_id q)] @
     page_clause (rq_page q) (rq_page_size q)"
| "pieces (Q_SelectRelease i) = [Raw release_columns, Raw ''id = '', num i]"
| "pieces (Q_RetireRelease i) =
     [Raw ''UPDATE releases SET status = '', Plain ''retired'', Raw '' WHERE id = '', num i]"
| "pieces (Q_GoLive n) =
     [Raw ''UPDATE configs SET status = '', Plain ''live'', Raw '' WHERE namespace_id = '', Lit n]"
| "pieces (Q_SelectMaxVersion n) =
     [Raw ''SELECT MAX(release_version) FROM releases WHERE namespace_id = '', Lit n]"
| "pieces (Q_InsertPublished n ver release_note op ts) =
     [Raw (''INSERT INTO releases (namespace_id, release_version, release_note, release_type, status, '' @
        ''operator_id, created_at) VALUES (''),
      Lit n, Raw '', '', num ver, Raw '', '', Lit release_note, Raw '', '', Plain ''full'', Raw '', '',
      Plain ''active'', Raw '', '', Lit op, Raw '', '', Plain ts, Raw '')'']"
| "pieces (Q_InsertApproval a ts) =
     [Raw (''INSERT INTO approvals (namespace_id, submitter_id, approver_id, status, comment, '' @
        ''created_at) VALUES (''),
      Lit (apr_namespace_id a), Raw '', '', Lit (apr_submitter_id a), Raw '', '',
      (if apr_approver_id a = [] then Raw ''NULL'' else Lit (apr_approver_id a)), Raw '', '',
      Lit (apr_status a), Raw '', '', Lit (apr_comment a), Raw '', '', Plain ts, Raw '')'']"
| "pieces (Q_UpdateApproval i status comment ts) =
     [Raw ''UPDATE approvals SET status = '', Lit status, Raw '', comment = '', Lit comment,
      Raw '', updated_at = '', Plain ts, Raw '' WHERE id = '', num i]"
| "pieces (Q_SelectPending n) =
     [Raw (''SELECT id, namespace_id, submitter_id, approver_id, status, comment, created_at, '' @
        ''updated_at FROM approvals WHERE namespace_id = ''), Lit n, Raw '' AND status = '', Plain ''pending'']"
| "pieces (Q_InsertUser u) =
     [Raw ''INSERT INTO users (username, password_hash, role, created_at) VALUES ('',
      Lit (usr_username u), Raw '', '', Lit (usr_password_hash u), Raw '', '', Lit (usr_role u), Raw '', '',
      Lit (usr_created_at u), Raw '')'']"
| "pieces (Q_SelectUser n) =
     [Raw ''SELECT id, username, password_hash, role, created_at FROM users WHERE username = '', Lit n]"
| "pieces Q_SelectUsers = [Raw ''SELECT id, username, password_hash, role, created_at FROM users'']"

definition sql_of :: "stmt \<Rightarrow> string" where
  "sql_of st = render (pieces st)"


section \<open>Connections and the pool\<close>

text \<open>
  The result of \<^verbatim>\<open>query\<close> is the content of the out-parameter \<^verbatim>\<open>rows\<close>; its boolean is ignored
  throughout.
\<close>

record connection_params =
  cp_host :: string
  cp_port :: int
  cp_user :: string
  cp_password :: string
  cp_database :: string

record 'm mysql_conn =
  mc_connect :: "nat \<Rightarrow> connection_params \<Rightarrow> ('m, bool) io"
  mc_execute :: "nat \<Rightarrow> string \<Rightarrow> ('m, bool) io"
  mc_query :: "nat \<Rightarrow> string \<Rightarrow> ('m, string list list) io"
  mc_begin :: "nat \<Rightarrow> ('m, bool) io"
  mc_commit :: "nat \<Rightarrow> ('m, bool) io"
  mc_rollback :: "nat \<Rightarrow> ('m, bool) io"
  mc_isConnected :: "nat \<Rightarrow> ('m, bool) io"
  mc_close :: "nat \<Rightarrow> ('m, unit) io"

record 'm my_state =
  my_pool :: "nat list"
  my_server :: 'm

type_synonym ('m, 'a) my_op = "'m my_state \<Rightarrow> ('a result \<times> 'm my_state) option"

text \<open>
  The constructor connects every new connection, ignoring whether it could, and queues it; the destructor
  closes the connections that are in the queue. A connection is named by its position in the pool.
\<close>

fun connect_all :: "'m mysql_conn \<Rightarrow> connection_params \<Rightarrow> nat list \<Rightarrow> ('m, unit) io" where
  "connect_all C ps [] = ret ()"
| "connect_all C ps (conn # conns) = thenE (mc_connect C conn ps) (connect_all C ps conns)"

definition new_pool :: "'m mysql_conn \<Rightarrow> nat \<Rightarrow> connection_params \<Rightarrow> ('m, nat list) io" where
  "new_pool C poolSize ps = thenE (connect_all C ps [0..<poolSize]) (ret [0..<poolSize])"

fun close_all :: "'m mysql_conn \<Rightarrow> nat list \<Rightarrow> ('m, unit) io" where
  "close_all C [] = ret ()"
| "close_all C (conn # conns) = thenE (mc_close C conn) (close_all C conns)"

definition delete_pool :: "'m mysql_conn \<Rightarrow> 'm my_state \<Rightarrow> unit result \<times> 'm" where
  "delete_pool C s = close_all C (my_pool s) (my_server s)"

definition acquire :: "nat list \<Rightarrow> (nat \<times> nat list) option" where
  "acquire pool = (case pool of [] \<Rightarrow> None | conn # rest \<Rightarrow> Some (conn, rest))"

definition release :: "nat \<Rightarrow> nat list \<Rightarrow> nat list" where
  "release conn pool = pool @ [conn]"

text \<open>\<open>with_conn\<close>: acquire, run, release; \<open>keep_conn\<close>: acquire and run, without a release.\<close>

definition with_conn :: "(nat \<Rightarrow> ('m, 'a) io) \<Rightarrow> ('m, 'a) my_op" where
  "with_conn f s =
     (case acquire (my_pool s) of
        None \<Rightarrow> None
      | Some (conn, rest) \<Rightarrow>
          (case f conn (my_server s) of
             (Inl e, m) \<Rightarrow> Some (Inl e, \<lparr>my_pool = rest, my_server = m\<rparr>)
           | (Inr x, m) \<Rightarrow> Some (Inr x, \<lparr>my_pool = release conn rest, my_server = m\<rparr>)))"

definition keep_conn :: "(nat \<Rightarrow> ('m, 'a) io) \<Rightarrow> ('m, 'a) my_op" where
  "keep_conn f s =
     (case acquire (my_pool s) of
        None \<Rightarrow> None
      | Some (conn, rest) \<Rightarrow>
          (case f conn (my_server s) of (r, m) \<Rightarrow> Some (r, \<lparr>my_pool = rest, my_server = m\<rparr>)))"

text \<open>Decoding the rows after the connection went back to the pool.\<close>

definition decoding :: "('a \<Rightarrow> 'b result) \<Rightarrow> ('m, 'a) my_op \<Rightarrow> ('m, 'b) my_op" where
  "decoding f m s =
     (case m s of
        None \<Rightarrow> None
      | Some (Inl e, t) \<Rightarrow> Some (Inl e, t)
      | Some (Inr x, t) \<Rightarrow> Some (f x, t))"

definition bind_my :: "('m, 'a) my_op \<Rightarrow> ('a \<Rightarrow> ('m, 'b) my_op) \<Rightarrow> ('m, 'b) my_op" where
  "bind_my m f s =
     (case m s of
        None \<Rightarrow> None
      | Some (Inl e, t) \<Rightarrow> Some (Inl e, t)
      | Some (Inr x, t) \<Rightarrow> f x t)"

definition exec :: "'m mysql_conn \<Rightarrow> nat \<Rightarrow> stmt \<Rightarrow> ('m, bool) io" where
  "exec C conn st = mc_execute C conn (sql_of st)"

definition query :: "'m mysql_conn \<Rightarrow> nat \<Rightarrow> stmt \<Rightarrow> ('m, string list list) io" where
  "query C conn st = mc_query C conn (sql_of st)"


section \<open>Rows\<close>

definition rows_first :: "(string list \<Rightarrow> 'a result) \<Rightarrow> string list list \<Rightarrow> 'a option result" where
  "rows_first f rows = (case rows of [] \<Rightarrow> Inr None | row # _ \<Rightarrow> map_sum id Some (f row))"

fun rows_all :: "(string list \<Rightarrow> 'a result) \<Rightarrow> string list list \<Rightarrow> 'a list result" where
  "rows_all f [] = Inr []"
| "rows_all f (row # rows) =
     (case f row of Inl e \<Rightarrow> Inl e | Inr x \<Rightarrow> map_sum id ((#) x) (rows_all f rows))"

definition columns :: "nat \<Rightarrow> string list \<Rightarrow> 'a result \<Rightarrow> 'a result" where
  "columns n row r = (if length row < n then Inl Undefined else r)"

definition nonempty :: "string \<Rightarrow> string option" where
  "nonempty s = (if s = [] then None else Some s)"

definition row_application :: "string list \<Rightarrow> Application result" where
  "row_application row = columns 4 row (Inr \<lparr>app_app_id = row ! 0, app_name = row ! 1,
     app_description = nonempty (row ! 2), app_created_at = row ! 3\<rparr>)"

definition row_namespace :: "string list \<Rightarrow> Namespace result" where
  "row_namespace row = columns 9 row (Inr \<lparr>ns_id = row ! 0, ns_app_id = row ! 1, ns_env = row ! 2,
     ns_cluster = row ! 3, ns_name = row ! 4, ns_type = row ! 5,
     ns_parent_namespace_id = nonempty (row ! 6),
     ns_approval_enabled = map_option (\<lambda>a. a = ''1'' \<or> a = ''true'') (nonempty (row ! 7)),
     ns_created_at = row ! 8\<rparr>)"

definition row_config :: "string list \<Rightarrow> ConfigKey result" where
  "row_config row = columns 7 row (map_sum id (\<lambda>ver. \<lparr>ck_namespace_id = row ! 0, ck_key = row ! 1,
     ck_value = row ! 2, ck_version = ver, ck_status = row ! 4, ck_created_at = row ! 5,
     ck_updated_at = row ! 6\<rparr>) (stoi (row ! 3)))"

definition row_version :: "string list \<Rightarrow> ConfigVersion result" where
  "row_version row = columns 6 row (map_sum id (\<lambda>ver. \<lparr>cv_version = ver, cv_config_id = row ! 1,
     cv_value = row ! 2, cv_change_type = row ! 3, cv_operator_id = row ! 4, cv_created_at = row ! 5\<rparr>)
     (stoi (row ! 0)))"

definition row_log :: "string list \<Rightarrow> ChangeLog result" where
  "row_log row = columns 10 row
     (case stoll (row ! 0) of Inl e \<Rightarrow> Inl e
      | Inr i \<Rightarrow> map_sum id (\<lambda>ver. \<lparr>cl_id = i, cl_config_id = row ! 1, cl_namespace_id = row ! 2,
          cl_key = row ! 3, cl_version = ver, cl_old_value = row ! 5, cl_new_value = row ! 6,
          cl_operation = row ! 7, cl_operator_id = row ! 8, cl_created_at = row ! 9\<rparr>) (stoi (row ! 4)))"

definition row_release :: "string list \<Rightarrow> Release result" where
  "row_release row = columns 10 row
     (case stoll (row ! 0) of Inl e \<Rightarrow> Inl e
      | Inr i \<Rightarrow> (case stoi (row ! 2) of Inl e \<Rightarrow> Inl e
        | Inr ver \<Rightarrow> map_sum id (\<lambda>p. \<lparr>rel_id = i, rel_namespace_id = row ! 1, rel_release_version = ver,
            rel_release_note = row ! 3, rel_release_type = row ! 4, rel_status = row ! 5,
            rel_grayscale_percentage = p, rel_whitelist = nonempty (row ! 7),
            rel_operator_id = row ! 8, rel_created_at = row ! 9\<rparr>)
          (if row ! 6 = [] then Inr None else map_sum id Some (stoi (row ! 6)))))"

definition row_approval :: "string list \<Rightarrow> Approval result" where
  "row_approval row = columns 8 row (map_sum id (\<lambda>i. \<lparr>apr_id = i, apr_namespace_id = row ! 1,
     apr_submitter_id = row ! 2, apr_approver_id = row ! 3, apr_status = row ! 4, apr_comment = row ! 5,
     apr_created_at = row ! 6, apr_updated_at = row ! 7\<rparr>) (stoll (row ! 0)))"

definition row_user :: "string list \<Rightarrow> User result" where
  "row_user row = columns 5 row (map_sum id (\<lambda>i. \<lparr>usr_id = i, usr_username = row ! 1,
     usr_password_hash = row ! 2, usr_role = row ! 3, usr_created_at = row ! 4\<rparr>) (stoll (row ! 0)))"

text \<open>\<^verbatim>\<open>SELECT LAST_INSERT_ID()\<close>: the new identifier, or the old value when there is no cell.\<close>

definition last_id :: "'m mysql_conn \<Rightarrow> nat \<Rightarrow> int \<Rightarrow> ('m, int) io" where
  "last_id C conn old =
     bindE (query C conn Q_SelectLastId) (\<lambda>idRows s.
       (case idRows of (cell # _) # _ \<Rightarrow> (stoll cell, s) | _ \<Rightarrow> (Inr old, s)))"


section \<open>Store operations\<close>

definition autoMigrate :: "'m mysql_conn \<Rightarrow> ('m, bool) my_op" where
  "autoMigrate C = with_conn (\<lambda>conn.
     foldr (\<lambda>ps k. thenE (mc_execute C conn (render ps)) k) schema (ret True))"

definition my_healthCheck :: "'m mysql_conn \<Rightarrow> ('m, bool) my_op" where
  "my_healthCheck C = with_conn (mc_isConnected C)"

definition my_createApplication :: "'m mysql_conn \<Rightarrow> Application \<Rightarrow> ('m, bool) my_op" where
  "my_createApplication C app = with_conn (\<lambda>conn. exec C conn (Q_InsertApplication app))"

definition my_getApplication :: "'m mysql_conn \<Rightarrow> string \<Rightarrow> ('m, Application option) my_op" where
  "my_getApplication C appId =
     decoding (rows_first row_application) (with_conn (\<lambda>conn. query C conn (Q_SelectApplication appId)))"

definition my_listApplications :: "'m mysql_conn \<Rightarrow> ('m, Application list) my_op" where
  "my_listApplications C =
     decoding (rows_all row_application) (with_conn (\<lambda>conn. query C conn Q_SelectApplications))"

definition my_deleteApplication :: "'m mysql_conn \<Rightarrow> string \<Rightarrow> ('m, bool) my_op" where
  "my_deleteApplication C appId = with_conn (\<lambda>conn. exec C conn (Q_DeleteApplication appId))"

definition my_createNamespace :: "'m mysql_conn \<Rightarrow> Namespace \<Rightarrow> ('m, bool) my_op" where
  "my_createNamespace C ns = with_conn (\<lambda>conn. exec C conn (Q_InsertNamespace ns))"

definition my_getNamespace :: "'m mysql_conn \<Rightarrow> string \<Rightarrow> ('m, Namespace option) my_op" where
  "my_getNamespace C nsId =
     decoding (rows_first row_namespace) (with_conn (\<lambda>conn. query C conn (Q_SelectNamespace nsId)))"

definition my_listNamespaces ::
  "'m mysql_conn \<Rightarrow> string \<Rightarrow> string \<Rightarrow> string \<Rightarrow> ('m, Namespace list) my_op" where
  "my_listNamespaces C appId env cluster =
     decoding (rows_all row_namespace)
       (with_conn (\<lambda>conn. query C conn (Q_SelectNamespaces appId env cluster)))"

definition my_deleteNamespace :: "'m mysql_conn \<Rightarrow> string \<Rightarrow> ('m, bool) my_op" where
  "my_deleteNamespace C nsId = with_conn (\<lambda>conn. exec C conn (Q_DeleteNamespace nsId))"

definition my_createConfig ::
  "'m mysql_conn \<Rightarrow> string \<Rightarrow> string \<Rightarrow> string \<Rightarrow> string \<Rightarrow> string \<Rightarrow> ('m, bool) my_op" where
  "my_createConfig C now namespaceId key value operatorId = with_conn (\<lambda>conn.
     let configId = namespaceId @ '':'' @ key
     in thenE (exec C conn (Q_InsertConfig namespaceId key value now))
       (thenE (exec C conn (Q_InsertVersion 1 configId value ''create'' operatorId now))
       (thenE (exec C conn (Q_LogCreate configId namespaceId key value operatorId now))
       (ret True))))"

definition my_updateConfig ::
  "'m mysql_conn \<Rightarrow> string \<Rightarrow> string \<Rightarrow> string \<Rightarrow> string \<Rightarrow> string \<Rightarrow> bool \<Rightarrow> ('m, bool) my_op" where
  "my_updateConfig C now namespaceId key value operatorId draft = with_conn (\<lambda>conn.
     let configId = namespaceId @ '':'' @ key
     in bindE (query C conn (Q_SelectCurrent namespaceId key)) (\<lambda>rows.
       case rows of
         [] \<Rightarrow> ret False
       | row # _ \<Rightarrow>
           bindE (\<lambda>s. (columns 2 row (stoi (row ! 0)), s)) (\<lambda>oldVersion.
             let oldValue = row ! 1; newVersion = wrap32 (oldVersion + 1);
                 status = (if draft then ''draft'' else ''live'')
             in thenE (exec C conn (Q_UpdateConfig namespaceId key value newVersion status now))
               (thenE (exec C conn (Q_InsertVersion newVersion configId value ''update'' operatorId now))
               (thenE (exec C conn (Q_LogUpdate configId namespaceId key newVersion oldValue value operatorId now))
               (ret True))))))"

definition my_deleteConfig ::
  "'m mysql_conn \<Rightarrow> string \<Rightarrow> string \<Rightarrow> string \<Rightarrow> string \<Rightarrow> bool \<Rightarrow> ('m, bool) my_op" where
  "my_deleteConfig C now namespaceId key operatorId draft = with_conn (\<lambda>conn.
     let configId = namespaceId @ '':'' @ key
     in thenE (exec C conn (Q_DeleteConfig namespaceId key draft))
       (thenE (exec C conn (Q_LogDelete configId namespaceId key operatorId now)) (ret True)))"

definition my_getConfig ::
  "'m mysql_conn \<Rightarrow> string \<Rightarrow> string \<Rightarrow> bool \<Rightarrow> ('m, ConfigKey option) my_op" where
  "my_getConfig C namespaceId key includeDraft =
     decoding (\<lambda>rows. case rows of
         [] \<Rightarrow> Inr None
       | row # _ \<Rightarrow>
           if includeDraft then map_sum id Some (row_config row)
           else columns 5 row (if row ! 4 = ''draft'' then Inr None else map_sum id Some (row_config row)))
       (with_conn (\<lambda>conn. query C conn (Q_SelectConfig namespaceId key)))"

definition my_listConfigs :: "'m mysql_conn \<Rightarrow> string \<Rightarrow> bool \<Rightarrow> ('m, ConfigKey list) my_op" where
  "my_listConfigs C namespaceId includeDraft =
     decoding (rows_all row_config) (with_conn (\<lambda>conn. query C conn (Q_SelectConfigs namespaceId includeDraft)))"

definition my_getConfigVersions :: "'m mysql_conn \<Rightarrow> string \<Rightarrow> string \<Rightarrow> ('m, ConfigVersion list) my_op" where
  "my_getConfigVersions C namespaceId key =
     decoding (rows_all row_version)
       (with_conn (\<lambda>conn. query C conn (Q_SelectVersions (namespaceId @ '':'' @ key))))"

definition my_getConfigVersion ::
  "'m mysql_conn \<Rightarrow> string \<Rightarrow> string \<Rightarrow> int \<Rightarrow> ('m, ConfigVersion option) my_op" where
  "my_getConfigVersion C namespaceId key version =
     decoding (rows_first row_version)
       (with_conn (\<lambda>conn. query C conn (Q_SelectVersion (namespaceId @ '':'' @ key) version)))"

definition my_rollbackConfig ::
  "'m mysql_conn \<Rightarrow> string \<Rightarrow> string \<Rightarrow> string \<Rightarrow> int \<Rightarrow> string \<Rightarrow> ('m, bool) my_op" where
  "my_rollbackConfig C now namespaceId key targetVersion operatorId =
     bind_my (my_getConfigVersion C namespaceId key targetVersion) (\<lambda>target s.
       case target of
         None \<Rightarrow> Some (Inr False, s)
       | Some v \<Rightarrow> my_updateConfig C now namespaceId key (cv_value v) operatorId True s)"

definition my_getChangeHistory :: "'m mysql_conn \<Rightarrow> ChangeLogQuery \<Rightarrow> ('m, ChangeLog list) my_op" where
  "my_getChangeHistory C q =
     decoding (rows_all row_log) (with_conn (\<lambda>conn. query C conn (Q_SelectHistory q)))"

definition my_createRelease ::
  "'m mysql_conn \<Rightarrow> string \<Rightarrow> Release \<Rightarrow> ('m, bool \<times> Release) my_op" where
  "my_createRelease C now rel = with_conn (\<lambda>conn.
     let rel1 = rel\<lparr>rel_created_at := now\<rparr>
     in thenE (exec C conn (Q_InsertRelease rel1 now))
       (bindE (last_id C conn (rel_id rel1)) (\<lambda>i. ret (True, rel1\<lparr>rel_id := i\<rparr>))))"

definition my_getReleases :: "'m mysql_conn \<Rightarrow> ReleaseQuery \<Rightarrow> ('m, Release list) my_op" where
  "my_getReleases C q =
     decoding (rows_all row_release) (with_conn (\<lambda>conn. query C conn (Q_SelectReleases q)))"

definition my_getRelease :: "'m mysql_conn \<Rightarrow> int \<Rightarrow> ('m, Release option) my_op" where
  "my_getRelease C releaseId =
     decoding (rows_first row_release) (with_conn (\<lambda>conn. query C conn (Q_SelectRelease releaseId)))"

definition my_retireRelease :: "'m mysql_conn \<Rightarrow> int \<Rightarrow> ('m, bool) my_op" where
  "my_retireRelease C releaseId = with_conn (\<lambda>conn.
     thenE (exec C conn (Q_RetireRelease releaseId)) (ret True))"

text \<open>The \<^verbatim>\<open>try\<close> block of \<^verbatim>\<open>publishRelease\<close> up to the assignment of the out-parameter.\<close>

definition my_publish_body ::
  "'m mysql_conn \<Rightarrow> nat \<Rightarrow> string \<Rightarrow> string \<Rightarrow> string \<Rightarrow> string \<Rightarrow> ('m, Release) io" where
  "my_publish_body C conn now namespaceId releaseNote operatorId =
     thenE (exec C conn (Q_GoLive namespaceId))
     (bindE (query C conn (Q_SelectMaxVersion namespaceId)) (\<lambda>versionRows.
     bindE (\<lambda>s. (case versionRows of
         (cell # _) # _ \<Rightarrow> if cell = [] then Inr 1 else map_sum id (\<lambda>v. wrap32 (v + 1)) (stoi cell)
       | _ \<Rightarrow> Inr 1, s)) (\<lambda>nextVersion.
     let rel = default_Release\<lparr>rel_namespace_id := namespaceId, rel_release_version := nextVersion,
           rel_release_note := releaseNote, rel_release_type := ''full'', rel_status := ''active'',
           rel_operator_id := operatorId, rel_created_at := now\<rparr>
     in thenE (exec C conn (Q_InsertPublished namespaceId nextVersion releaseNote operatorId now))
       (bindE (last_id C conn (rel_id rel)) (\<lambda>i. ret (rel\<lparr>rel_id := i\<rparr>))))))"

definition my_publishRelease ::
  "'m mysql_conn \<Rightarrow> string \<Rightarrow> string \<Rightarrow> string \<Rightarrow> string \<Rightarrow> Release \<Rightarrow> ('m, bool \<times> Release) my_op" where
  "my_publishRelease C now namespaceId releaseNote operatorId outRelease = with_conn (\<lambda>conn.
     thenE (mc_begin C conn)
       (bindE (attemptE (my_publish_body C conn now namespaceId releaseNote operatorId)) (\<lambda>outcome.
          case outcome of
            Inl _ \<Rightarrow> thenE (mc_rollback C conn) (ret (False, outRelease))
          | Inr rel \<Rightarrow>
              catchE (thenE (mc_commit C conn) (ret (True, rel)))
                (thenE (mc_rollback C conn) (ret (False, rel))))))"

definition my_createApproval ::
  "'m mysql_conn \<Rightarrow> string \<Rightarrow> Approval \<Rightarrow> ('m, bool \<times> Approval) my_op" where
  "my_createApproval C now approval = with_conn (\<lambda>conn.
     let a = approval\<lparr>apr_created_at := now\<rparr>
     in thenE (exec C conn (Q_InsertApproval a now))
       (bindE (last_id C conn (apr_id a)) (\<lambda>i. ret (True, a\<lparr>apr_id := i\<rparr>))))"

definition my_updateApprovalStatus ::
  "'m mysql_conn \<Rightarrow> string \<Rightarrow> int \<Rightarrow> string \<Rightarrow> string \<Rightarrow> ('m, bool) my_op" where
  "my_updateApprovalStatus C now approvalId status comment = with_conn (\<lambda>conn.
     thenE (exec C conn (Q_UpdateApproval approvalId status comment now)) (ret True))"

definition my_getPendingApprovals :: "'m mysql_conn \<Rightarrow> string \<Rightarrow> ('m, Approval list) my_op" where
  "my_getPendingApprovals C namespaceId =
     decoding (rows_all row_approval) (with_conn (\<lambda>conn. query C conn (Q_SelectPending namespaceId)))"

definition my_createUser :: "'m mysql_conn \<Rightarrow> User \<Rightarrow> ('m, bool) my_op" where
  "my_createUser C user = with_conn (\<lambda>conn. exec C conn (Q_InsertUser user))"

definition my_getUserByUsername :: "'m mysql_conn \<Rightarrow> string \<Rightarrow> ('m, User option) my_op" where
  "my_getUserByUsername C username =
     decoding (rows_first row_user) (with_conn (\<lambda>conn. query C conn (Q_SelectUser username)))"

definition my_listUsers :: "'m mysql_conn \<Rightarrow> ('m, User list) my_op" where
  "my_listUsers C = decoding (rows_all row_user) (with_conn (\<lambda>conn. query C conn Q_SelectUsers))"

definition my_beginTransaction :: "'m mysql_conn \<Rightarrow> ('m, bool) my_op" where
  "my_beginTransaction C = keep_conn (mc_begin C)"

definition my_commitTransaction :: "'m mysql_conn \<Rightarrow> ('m, bool) my_op" where
  "my_commitTransaction C = keep_conn (mc_commit C)"

definition my_rollbackTransaction :: "'m mysql_conn \<Rightarrow> ('m, bool) my_op" where
  "my_rollbackTransaction C = keep_conn (mc_rollback C)"


section \<open>The connection string\<close>

text \<open>
  \<^verbatim>\<open>size_t\<close> positions: \<^verbatim>\<open>npos\<close> is the largest one and arithmetic wraps; \<^verbatim>\<open>substr\<close> throws when it
  starts past the end.
\<close>

definition npos :: nat where
  "npos = 18446744073709551615"

definition size_add :: "nat \<Rightarrow> nat \<Rightarrow> nat" where
  "size_add a b = (a + b) mod 18446744073709551616"

definition size_sub :: "nat \<Rightarrow> nat \<Rightarrow> nat" where
  "size_sub a b = (a + 18446744073709551616 - b mod 18446744073709551616) mod 18446744073709551616"

definition find_pos :: "char \<Rightarrow> string \<Rightarrow> nat \<Rightarrow> nat" where
  "find_pos c s pos = (case str_find_from [c] s pos of None \<Rightarrow> npos | Some i \<Rightarrow> i)"

definition substr :: "string \<Rightarrow> nat \<Rightarrow> nat \<Rightarrow> string result" where
  "substr s pos n = (if pos > length s then Inl OutOfRange else Inr (str_sub s pos n))"

text \<open>
  The parsing part of \<^verbatim>\<open>initialize\<close> on the members \<open>p\<close> the store had before (user and password stay
  when there is no colon after the slash).
\<close>

definition parse_connection :: "string \<Rightarrow> connection_params \<Rightarrow> connection_params result" where
  "parse_connection cs p =
     (let atPos = find_pos (CHR ''@'') cs 0; slashPos = find_pos (CHR ''/'') cs 0
      in bindR (substr cs 0 slashPos) (\<lambda>hostport.
       let portStart = find_pos (CHR '':'') hostport 0
       in bindR
         (if portStart \<noteq> npos
          then bindR (substr hostport (size_add portStart 1) npos) (\<lambda>digits.
               bindR (stoi digits) (\<lambda>i.
               bindR (substr hostport 0 portStart) (\<lambda>h. Inr (h, i mod 65536))))
          else Inr (hostport, 3306)) (\<lambda>(host, portnum).
       let colonUserPwd = find_pos (CHR '':'') cs (size_add slashPos 1)
       in bindR
         (if colonUserPwd \<noteq> npos
          then bindR (substr cs (size_add slashPos 1) (size_sub (size_sub colonUserPwd slashPos) 1)) (\<lambda>user.
               bindR (substr cs (size_add colonUserPwd 1) (size_sub (size_sub atPos colonUserPwd) 1)) (\<lambda>pw.
                 Inr (user, pw)))
          else Inr (cp_user p, cp_password p)) (\<lambda>(user, pw).
       bindR (substr cs (size_add atPos 1) npos) (\<lambda>db.
         Inr \<lparr>cp_host = host, cp_port = portnum, cp_user = user, cp_password = pw, cp_database = db\<rparr>)))))"

text \<open>
  \<^verbatim>\<open>initialize\<close> of a store that has no pool yet: the connection string, the ten connections of the pool, the
  schema. The state after an exception has no pool.
\<close>

definition my_initialize ::
  "'m mysql_conn \<Rightarrow> string \<Rightarrow> connection_params \<Rightarrow> 'm \<Rightarrow> (bool result \<times> 'm my_state) option" where
  "my_initialize C cs p m =
     (case parse_connection cs p of
        Inl e \<Rightarrow> Some (Inl e, \<lparr>my_pool = [], my_server = m\<rparr>)
      | Inr ps \<Rightarrow>
          (case new_pool C 10 ps m of
             (Inl e, m') \<Rightarrow> Some (Inl e, \<lparr>my_pool = [], my_server = m'\<rparr>)
           | (Inr pool, m') \<Rightarrow> autoMigrate C \<lparr>my_pool = pool, my_server = m'\<rparr>))"

end
