(* ===== verification/Mysql_Facts.thy ===== *)
theory Mysql_Facts
  imports Mysql_Store
begin

text \<open>
  What holds of the MySQL store: the values put into its statements are read back as single string
  literals whatever they contain, rows decode to the records they were written from, and the connection
  string parses as its comment says. The lexical rules of MySQL string literals that the escaping
  relies on are the locale \<open>mysql_literal\<close>, instantiated by a scanner.
\<close>


section \<open>Literals\<close>

text \<open>
  \<open>scan\<close> reads a literal after its opening quote and returns its value and the rest of the text. A
  backslash before a quote or a backslash stands for that character, and a quote not followed by
  another quote ends the literal.
\<close>

locale mysql_literal =
  fixes scan :: "string \<Rightarrow> (string \<times> string) option"
  assumes scan_escaped:
      "c = quote \<or> c = backslash \<Longrightarrow> scan s = Some (v, r) \<Longrightarrow> scan (backslash # c # s) = Some (c # v, r)"
    and scan_other:
      "c \<noteq> quote \<Longrightarrow> c \<noteq> backslash \<Longrightarrow> scan s = Some (v, r) \<Longrightarrow> scan (c # s) = Some (c # v, r)"
    and scan_end: "s = [] \<or> hd s \<noteq> quote \<Longrightarrow> scan (quote # s) = Some ([], s)"
begin

lemma scan_escape:
  assumes "s = [] \<or> hd s \<noteq> quote"
  shows "scan (escape v @ quote # s) = Some (v, s)"
proof (induction v)
  case Nil
  from assms show ?case by (simp add: scan_end)
next
  case (Cons c v)
  then show ?case by (simp add: scan_escaped scan_other)
qed

lemma scan_plain:
  assumes "s = [] \<or> hd s \<noteq> quote" and "quote \<notin> set v" and "backslash \<notin> set v"
  shows "scan (v @ quote # s) = Some (v, s)"
  using assms(2,3)
proof (induction v)
  case Nil
  from assms(1) show ?case by (simp add: scan_end)
next
  case (Cons c v)
  then have "c \<noteq> quote" "c \<noteq> backslash" "scan (v @ quote # s) = Some (v, s)" by auto
  from scan_other [OF this] show ?case by simp
qed

end

text \<open>
  The text of a statement as the server sees it: its skeleton, in which a quote marks each literal,
  and the values of the literals.
\<close>

inductive reads :: "(string \<Rightarrow> (string \<times> string) option) \<Rightarrow> string \<Rightarrow> string \<Rightarrow> string list \<Rightarrow> bool"
  for scan :: "string \<Rightarrow> (string \<times> string) option" where
  reads_end: "reads scan [] [] []"
| reads_char: "c \<noteq> quote \<Longrightarrow> reads scan s k vs \<Longrightarrow> reads scan (c # s) (c # k) vs"
| reads_literal:
    "scan s = Some (v, r) \<Longrightarrow> reads scan r k vs \<Longrightarrow> reads scan (quote # s) (quote # k) (v # vs)"

inductive_cases reads_NilE: "reads scan [] k vs"
inductive_cases reads_ConsE: "reads scan (c # s) k vs"

lemma reads_unique: "reads scan s k vs \<Longrightarrow> reads scan s k' vs' \<Longrightarrow> k' = k \<and> vs' = vs"
proof (induction arbitrary: k' vs' rule: reads.induct)
  case reads_end
  then show ?case by (rule reads_NilE) simp
next
  case (reads_char c s k vs)
  from reads_char.prems show ?case
  proof (rule reads_ConsE)
    fix k2 assume "k' = c # k2" and "reads scan s k2 vs'"
    with reads_char.IH [of k2 vs'] show ?thesis by simp
  qed (use reads_char.hyps in simp)
next
  case (reads_literal s v r k vs)
  from reads_literal.prems show ?case
  proof (rule reads_ConsE)
    fix v2 r2 k2 vs2
    assume "k' = quote # k2" "vs' = v2 # vs2" "scan s = Some (v2, r2)" "reads scan r2 k2 vs2"
    with reads_literal.IH [of k2 vs2] reads_literal.hyps show ?thesis by simp
  qed simp
qed

fun skeleton :: "piece list \<Rightarrow> string" where
  "skeleton [] = []"
| "skeleton (Raw s # ps) = s @ skeleton ps"
| "skeleton (Lit v # ps) = quote # skeleton ps"
| "skeleton (Plain v # ps) = quote # skeleton ps"

fun values_of :: "piece list \<Rightarrow> string list" where
  "values_of [] = []"
| "values_of (Raw s # ps) = values_of ps"
| "values_of (Lit v # ps) = v # values_of ps"
| "values_of (Plain v # ps) = v # values_of ps"

text \<open>
  Statements the escaping protects: no quote in raw text, no quote or backslash in unescaped values,
  and never two quoted values next to each other.
\<close>

fun starts_quoted :: "piece list \<Rightarrow> bool" where
  "starts_quoted [] = False"
| "starts_quoted (Raw s # ps) = (if s = [] then starts_quoted ps else False)"
| "starts_quoted (_ # ps) = True"

fun safe :: "piece list \<Rightarrow> bool" where
  "safe [] = True"
| "safe (Raw s # ps) = (quote \<notin> set s \<and> safe ps)"
| "safe (Lit v # ps) = (\<not> starts_quoted ps \<and> safe ps)"
| "safe (Plain v # ps) = (quote \<notin> set v \<and> backslash \<notin> set v \<and> \<not> starts_quoted ps \<and> safe ps)"

lemma render_Cons: "render (p # ps) = render_piece p @ render ps"
  by (simp add: render_def)

lemma render_Nil [simp]: "render [] = []"
  by (simp add: render_def)

lemma not_starts_quoted:
  "safe ps \<Longrightarrow> \<not> starts_quoted ps \<Longrightarrow> render ps = [] \<or> hd (render ps) \<noteq> quote"
proof (induction ps)
  case (Cons p ps)
  show ?case
  proof (cases p)
    case (Raw s)
    with Cons show ?thesis by (cases s) (auto simp: render_Cons)
  qed (use Cons in simp_all)
qed simp

lemma reads_raw: "quote \<notin> set s \<Longrightarrow> reads scan t k vs \<Longrightarrow> reads scan (s @ t) (s @ k) vs"
  by (induction s) (auto intro: reads_char)

context mysql_literal
begin

lemma reads_render: "safe ps \<Longrightarrow> reads scan (render ps) (skeleton ps) (values_of ps)"
proof (induction ps)
  case Nil
  show ?case by (simp add: reads_end)
next
  case (Cons p ps)
  show ?case
  proof (cases p)
    case (Raw s)
    with Cons show ?thesis by (simp add: render_Cons reads_raw)
  next
    case (Lit v)
    with Cons have "render ps = [] \<or> hd (render ps) \<noteq> quote" by (simp add: not_starts_quoted)
    from scan_escape [OF this, of v] Lit Cons show ?thesis
      by (simp add: render_Cons reads_literal)
  next
    case (Plain v)
    with Cons have "render ps = [] \<or> hd (render ps) \<noteq> quote" by (simp add: not_starts_quoted)
    from scan_plain [OF this, of v] Plain Cons show ?thesis
      by (simp add: render_Cons reads_literal)
  qed
qed

end

text \<open>A scanner with these rules, where a doubled quote stands for a quote.\<close>

fun ref_scan :: "string \<Rightarrow> (string \<times> string) option" where
  "ref_scan (c # d # s) =
     (if c = backslash then map_option (\<lambda>(v, r). (d # v, r)) (ref_scan s)
      else if c = quote then
        (if d = quote then map_option (\<lambda>(v, r). (quote # v, r)) (ref_scan s) else Some ([], d # s))
      else map_option (\<lambda>(v, r). (c # v, r)) (ref_scan (d # s)))"
| "ref_scan [c] = (if c = quote then Some ([], []) else None)"
| "ref_scan [] = None"

interpretation lit: mysql_literal ref_scan
proof
  fix c s v r assume "c \<noteq> quote" "c \<noteq> backslash" "ref_scan s = Some (v, r)"
  then show "ref_scan (c # s) = Some (c # v, r)" by (cases s) simp_all
next
  fix s :: string assume "s = [] \<or> hd s \<noteq> quote"
  then show "ref_scan (quote # s) = Some ([], s)" by (cases s) simp_all
qed auto

text \<open>Every statement of the store is safe, for time stamps without quotes and backslashes.\<close>

definition stamp_ok :: "string \<Rightarrow> bool" where
  "stamp_ok ts \<longleftrightarrow> quote \<notin> set ts \<and> backslash \<notin> set ts"

fun stmt_ok :: "stmt \<Rightarrow> bool" where
  "stmt_ok (Q_InsertConfig n k v ts) = stamp_ok ts"
| "stmt_ok (Q_InsertVersion ver cid v change op ts) = (stamp_ok ts \<and> stamp_ok change)"
| "stmt_ok (Q_LogCreate cid n k v op ts) = stamp_ok ts"
| "stmt_ok (Q_UpdateConfig n k v ver status ts) = (stamp_ok ts \<and> stamp_ok status)"
| "stmt_ok (Q_LogUpdate cid n k ver old v op ts) = stamp_ok ts"
| "stmt_ok (Q_LogDelete cid n k op ts) = stamp_ok ts"
| "stmt_ok (Q_InsertRelease r ts) = stamp_ok ts"
| "stmt_ok (Q_InsertPublished n ver rn op ts) = stamp_ok ts"
| "stmt_ok (Q_InsertApproval a ts) = stamp_ok ts"
| "stmt_ok (Q_UpdateApproval i status comment ts) = stamp_ok ts"
| "stmt_ok _ = True"

lemma to_string_no_quote [simp]: "quote \<notin> set (to_string i)"
proof -
  have "\<not> is_digit quote" by (simp add: is_digit_def)
  then show ?thesis
    using show_nat_digits [of "nat i"] show_nat_digits [of "nat (- i)"]
    by (auto simp: to_string_def list_all_iff)
qed

lemma to_string_nonempty [simp]: "to_string i \<noteq> []"
  by (simp add: to_string_def)

lemma safe_num [simp]: "safe (num i # ps) = safe ps" "\<not> starts_quoted (num i # ps)"
  by (simp_all add: num_def)

lemma safe_opt_lit [simp]: "safe (opt_lit v # Raw (c # s) # ps) = (quote \<notin> set (c # s) \<and> safe ps)"
  by (cases v) (simp_all add: opt_lit_def)

lemma starts_quoted_append: "starts_quoted (ps @ qs) \<Longrightarrow> starts_quoted ps \<or> starts_quoted qs"
  by (induction ps rule: starts_quoted.induct) (auto split: if_splits)

lemma starts_quoted_append_not:
  "\<not> starts_quoted ps \<Longrightarrow> \<not> starts_quoted qs \<Longrightarrow> \<not> starts_quoted (ps @ qs)"
  by (auto dest: starts_quoted_append)

lemma safe_append: "safe ps \<Longrightarrow> safe qs \<Longrightarrow> \<not> starts_quoted qs \<Longrightarrow> safe (ps @ qs)"
  by (induction ps rule: safe.induct) (auto dest: starts_quoted_append)

lemma safe_opt_clause [simp]:
  "quote \<notin> set (c # t) \<Longrightarrow> safe (opt_clause (c # t) v)" "\<not> starts_quoted (opt_clause (c # t) v)"
  by (cases v; simp add: opt_clause_def)+

lemma safe_page_clause [simp]: "safe (page_clause p n)" "\<not> starts_quoted (page_clause p n)"
  by (simp_all add: page_clause_def)

lemmas column_defs = config_columns_def version_columns_def release_columns_def namespace_columns_def

lemma safe_history: "safe (pieces (Q_SelectHistory q))"
  unfolding pieces.simps
  by (intro safe_append safe_page_clause)
    (simp_all add: starts_quoted_append_not)

lemma pieces_safe: "stmt_ok st \<Longrightarrow> safe (pieces st)"
proof (cases st)
  case (Q_SelectHistory q)
  then show ?thesis by (simp only: safe_history)
qed (simp_all add: stamp_ok_def column_defs page_clause_def split: option.split)

lemma schema_safe: "list_all safe schema"
  by (simp add: schema_def)


section \<open>A concrete server\<close>

text \<open>A server on which every statement succeeds and every query is empty.\<close>

definition demo_conn :: "unit mysql_conn" where
  "demo_conn = \<lparr>mc_connect = (\<lambda>_ _. ret True), mc_execute = (\<lambda>_ _. ret True), mc_query = (\<lambda>_ _. ret []), mc_begin = (\<lambda>_. ret True),
     mc_commit = (\<lambda>_. ret True), mc_rollback = (\<lambda>_. ret True), mc_isConnected = (\<lambda>_. ret True),
     mc_close = (\<lambda>_. ret ())\<rparr>"


section \<open>Rows\<close>

definition config_row :: "ConfigKey \<Rightarrow> string list" where
  "config_row c = [ck_namespace_id c, ck_key c, ck_value c, to_string (ck_version c), ck_status c,
     ck_created_at c, ck_updated_at c]"

lemma row_config_row: "int32 (ck_version c) \<Longrightarrow> row_config (config_row c) = Inr c"
  by (simp add: row_config_def config_row_def columns_def stoi_to_string)

lemma rows_all_map: "(\<And>x. x \<in> set xs \<Longrightarrow> f (g x) = Inr x) \<Longrightarrow> rows_all f (map g xs) = Inr xs"
  by (induction xs) simp_all


section \<open>The connection string\<close>

lemma size_add_small: "a + b < 18446744073709551616 \<Longrightarrow> size_add a b = a + b"
  by (simp add: size_add_def)

lemma size_sub_small: "b \<le> a \<Longrightarrow> a < 18446744073709551616 \<Longrightarrow> size_sub a b = a - b"
proof -
  assume ab: "b \<le> a" "a < 18446744073709551616"
  then have "a + 18446744073709551616 - b = (a - b) + 18446744073709551616" by simp
  then have "(a + 18446744073709551616 - b) mod 18446744073709551616 = a - b"
    using ab by (simp only: mod_add_self2) simp
  with ab show ?thesis by (simp add: size_sub_def)
qed

lemma find_pos_first:
  assumes "c \<notin> set u" and "pos = length w"
  shows "find_pos c (w @ u @ c # r) pos = length w + length u"
  using str_find_skip [of c u "[]" r] assms by (simp add: find_pos_def str_find_from_def)

lemma substr_middle:
  "pos = length w \<Longrightarrow> n = length u \<Longrightarrow> substr (w @ u @ r) pos n = Inr u"
  by (simp add: substr_def str_sub_def)

lemma substr_rest: "pos = length w \<Longrightarrow> length u \<le> npos \<Longrightarrow> substr (w @ u) pos npos = Inr u"
  by (simp add: substr_def str_sub_def)

definition connection_text :: "string \<Rightarrow> int \<Rightarrow> string \<Rightarrow> string \<Rightarrow> string \<Rightarrow> string" where
  "connection_text host portnum user pw db =
     host @ '':'' @ to_string portnum @ ''/'' @ user @ '':'' @ pw @ ''@'' @ db"

lemma digits_no_sep: "c \<notin> set (to_string i)" if "\<not> is_digit c" "c \<noteq> CHR ''-''" for c
  using that show_nat_digits [of "nat i"] show_nat_digits [of "nat (- i)"]
  by (auto simp: to_string_def list_all_iff)

lemma separators_not_digits: "\<not> is_digit (CHR ''@'')" "\<not> is_digit (CHR ''/'')" "\<not> is_digit (CHR '':'')"
  by (simp_all add: is_digit_def)

text \<open>The part before the slash: host, colon, port.\<close>

lemma host_port_fields:
  assumes "CHR '':'' \<notin> set host" and "0 \<le> portnum" and "portnum < 65536" and "length (host @ '':'' @ to_string portnum) < npos"
  shows "find_pos (CHR '':'') (host @ '':'' @ to_string portnum) 0 = length host"
    and "substr (host @ '':'' @ to_string portnum) (size_add (length host) 1) npos = Inr (to_string portnum)"
    and "stoi (to_string portnum) = Inr portnum"
    and "substr (host @ '':'' @ to_string portnum) 0 (length host) = Inr host"
proof -
  show "find_pos (CHR '':'') (host @ '':'' @ to_string portnum) 0 = length host"
    using find_pos_first [of "CHR '':''" host 0 "[]" "to_string portnum"] assms by simp
  show "substr (host @ '':'' @ to_string portnum) (size_add (length host) 1) npos = Inr (to_string portnum)"
    using substr_rest [of _ "host @ '':''" "to_string portnum"] assms
    by (simp add: size_add_small npos_def)
  show "stoi (to_string portnum) = Inr portnum" using assms by (intro stoi_to_string) (simp add: int32_def)
  show "substr (host @ '':'' @ to_string portnum) 0 (length host) = Inr host"
    by (simp add: substr_def str_sub_def)
qed

lemma parse_connection_text:
  assumes host: "CHR '':'' \<notin> set host" "CHR ''/'' \<notin> set host" "CHR ''@'' \<notin> set host"
    and user: "CHR '':'' \<notin> set user" "CHR ''@'' \<notin> set user"
    and pw: "CHR ''@'' \<notin> set pw"
    and portnum: "0 \<le> portnum" "portnum < 65536"
    and len: "length (connection_text host portnum user pw db) < npos"
  shows "parse_connection (connection_text host portnum user pw db) p =
    Inr \<lparr>cp_host = host, cp_port = portnum, cp_user = user, cp_password = pw, cp_database = db\<rparr>"
proof -
  let ?hp = "host @ '':'' @ to_string portnum"
  let ?cs = "connection_text host portnum user pw db"
  let ?pre = "?hp @ ''/'' @ user @ '':'' @ pw"
  note dig = digits_no_sep [OF separators_not_digits(1), of portnum] digits_no_sep [OF separators_not_digits(2), of portnum]
  have small: "length ?cs < 18446744073709551615" using len by (simp add: npos_def)
  have at: "find_pos (CHR ''@'') ?cs 0 = length ?pre"
    using find_pos_first [of "CHR ''@''" ?pre 0 "[]" db] host user pw dig
    by (simp add: connection_text_def)
  have slash: "find_pos (CHR ''/'') ?cs 0 = length ?hp"
    using find_pos_first [of "CHR ''/''" ?hp 0 "[]" "user @ '':'' @ pw @ ''@'' @ db"] host dig
    by (simp add: connection_text_def)
  have hp: "substr ?cs 0 (length ?hp) = Inr ?hp"
    by (simp add: substr_def str_sub_def connection_text_def)
  have "length ?hp < npos" using len by (simp add: connection_text_def)
  note hport = host_port_fields [OF host(1) portnum this]
  have sl1: "size_add (length ?hp) 1 = length (?hp @ ''/'')"
    using small by (simp add: size_add_small connection_text_def)
  have ucolon: "find_pos (CHR '':'') ?cs (length (?hp @ ''/'')) = length (?hp @ ''/'' @ user)"
    using find_pos_first [of "CHR '':''" user "length (?hp @ ''/'')" "?hp @ ''/''" "pw @ ''@'' @ db"] user
    by (simp add: connection_text_def)
  have uname: "substr ?cs (length (?hp @ ''/'')) (size_sub (size_sub (length (?hp @ ''/'' @ user)) (length ?hp)) 1) = Inr user"
    using small by (simp add: substr_def str_sub_def size_sub_small connection_text_def)
  have upw: "substr ?cs (size_add (length (?hp @ ''/'' @ user)) 1)
      (size_sub (size_sub (length ?pre) (length (?hp @ ''/'' @ user))) 1) = Inr pw"
    using small substr_middle [of _ "?hp @ ''/'' @ user @ '':''" _ pw "''@'' @ db"]
    by (simp add: size_sub_small size_add_small connection_text_def)
  have db: "substr ?cs (size_add (length ?pre) 1) npos = Inr db"
    using small substr_rest [of _ "?pre @ ''@''" db]
    by (simp add: size_add_small connection_text_def npos_def)
  have "length host \<noteq> npos" "length (?hp @ ''/'' @ user) \<noteq> npos"
    using small by (simp_all add: connection_text_def npos_def)
  then show ?thesis
    unfolding parse_connection_def Let_def at slash hp bindR_simps hport sl1 ucolon
    using uname upw db portnum by (simp only: if_True bindR_simps hport uname upw db prod.case
        simp_thms ucolon sl1 mod_pos_pos_trivial)
qed


section \<open>Properties\<close>

text \<open>
  C37. No value can break out of its literal: the server reads every statement the store builds in
  exactly one way, as the text of the code with the values, unchanged, as its literals. The text around
  the literals of the statements that insert a config, read one, or look a user up is the same for
  all values.
\<close>

theorem no_sql_injection:
  assumes "mysql_literal scan" and "stmt_ok st"
  shows "(reads scan (sql_of st) k vs \<longleftrightarrow> k = skeleton (pieces st) \<and> vs = values_of (pieces st)) \<and>
    skeleton (pieces (Q_InsertConfig n key v ts)) = skeleton (pieces (Q_InsertConfig n' key' v' ts')) \<and>
    skeleton (pieces (Q_SelectConfig n key)) = skeleton (pieces (Q_SelectConfig n' key')) \<and>
    skeleton (pieces (Q_SelectUser n)) = skeleton (pieces (Q_SelectUser n'))"
proof -
  have "reads scan (sql_of st) (skeleton (pieces st)) (values_of (pieces st))"
    unfolding sql_of_def by (rule mysql_literal.reads_render [OF assms(1) pieces_safe [OF assms(2)]])
  with reads_unique [OF this, of k vs]
  have "reads scan (sql_of st) k vs \<longleftrightarrow> k = skeleton (pieces st) \<and> vs = values_of (pieces st)" by blast
  then show ?thesis by (simp only: pieces.simps skeleton.simps simp_thms)
qed

theorem no_sql_injection_witness:
  "reads ref_scan (sql_of (Q_SelectUser (quote # '' OR 1=1 -- '')))
     (''SELECT id, username, password_hash, role, created_at FROM users WHERE username = '' @ [quote])
     [quote # '' OR 1=1 -- '']"
  using no_sql_injection [OF lit.mysql_literal_axioms, of "Q_SelectUser (quote # '' OR 1=1 -- '')"]
  unfolding pieces.simps skeleton.simps values_of.simps stmt_ok.simps append_Nil by blast

end
