(* ===== verification/Mysql_Trace.thy ===== *)
theory Mysql_Trace
  imports Mysql_Facts "HOL-Library.Sublist"
begin

text \<open>
  Which calls the MySQL store makes on which connection. \<open>logging C\<close> is a connection class that
  behaves like \<open>C\<close> and keeps the list of the calls made; the proof rules compute the calls of a
  computation from its parts.
\<close>


section \<open>Recording connections\<close>

datatype call =
    CallConnect connection_params
  | CallClose
  | CallBegin
  | CallCommit
  | CallRollback
  | CallConnected
  | CallExec string
  | CallQuery string

type_synonym 'm logged = "'m \<times> (nat \<times> call) list"

definition record_call :: "nat \<Rightarrow> call \<Rightarrow> ('m, 'a) io \<Rightarrow> ('m logged, 'a) io" where
  "record_call conn c m = (\<lambda>(s, log). case m s of (r, t) \<Rightarrow> (r, (t, log @ [(conn, c)])))"

definition logging :: "'m mysql_conn \<Rightarrow> 'm logged mysql_conn" where
  "logging C = \<lparr>
     mc_connect = (\<lambda>conn ps. record_call conn (CallConnect ps) (mc_connect C conn ps)),
     mc_execute = (\<lambda>conn sql. record_call conn (CallExec sql) (mc_execute C conn sql)),
     mc_query = (\<lambda>conn sql. record_call conn (CallQuery sql) (mc_query C conn sql)),
     mc_begin = (\<lambda>conn. record_call conn CallBegin (mc_begin C conn)),
     mc_commit = (\<lambda>conn. record_call conn CallCommit (mc_commit C conn)),
     mc_rollback = (\<lambda>conn. record_call conn CallRollback (mc_rollback C conn)),
     mc_isConnected = (\<lambda>conn. record_call conn CallConnected (mc_isConnected C conn)),
     mc_close = (\<lambda>conn. record_call conn CallClose (mc_close C conn))\<rparr>"


section \<open>Rules\<close>

text \<open>\<open>emits m Q\<close>: every run of \<open>m\<close> extends the log by calls related by \<open>Q\<close> to its outcome.\<close>

definition emits :: "('m logged, 'a) io \<Rightarrow> ('a result \<Rightarrow> (nat \<times> call) list \<Rightarrow> bool) \<Rightarrow> bool" where
  "emits m Q \<longleftrightarrow> (\<forall>s log. \<exists>t ext. snd (m (s, log)) = (t, log @ ext) \<and> Q (fst (m (s, log))) ext)"

lemma emitsD: "emits m Q \<Longrightarrow> m (s, log) = (r, (t, log')) \<Longrightarrow> \<exists>ext. log' = log @ ext \<and> Q r ext"
  unfolding emits_def by (metis fst_conv snd_conv)

lemma emits_weaken: "emits m Q \<Longrightarrow> (\<And>r ext. Q r ext \<Longrightarrow> R r ext) \<Longrightarrow> emits m R"
  unfolding emits_def by blast

lemma emits_ret: "emits (ret x) (\<lambda>r ext. r = Inr x \<and> ext = [])"
  by (simp add: emits_def ret_def)

lemma emits_pure: "emits (\<lambda>s. (v, s)) (\<lambda>r ext. r = v \<and> ext = [])"
  by (simp add: emits_def)

lemma emits_record: "emits (record_call conn c m) (\<lambda>_ ext. ext = [(conn, c)])"
  by (auto simp: emits_def record_call_def split: prod.splits)

lemma emits_bind:
  assumes "emits m Q" and "\<And>x. emits (f x) (R x)"
  shows "emits (bindE m f) (\<lambda>r ext. (\<exists>e. r = Inl e \<and> Q (Inl e) ext) \<or>
    (\<exists>x e1 e2. Q (Inr x) e1 \<and> R x r e2 \<and> ext = e1 @ e2))"
  unfolding emits_def
proof (intro allI)
  fix s log
  obtain r t ext where m: "m (s, log) = (r, (t, log @ ext))" "Q r ext"
    using assms(1) unfolding emits_def by (metis prod.collapse)
  show "\<exists>t ext. snd (bindE m f (s, log)) = (t, log @ ext) \<and>
      ((\<exists>e. fst (bindE m f (s, log)) = Inl e \<and> Q (Inl e) ext) \<or>
       (\<exists>x e1 e2. Q (Inr x) e1 \<and> R x (fst (bindE m f (s, log))) e2 \<and> ext = e1 @ e2))"
  proof (cases r)
    case (Inl e)
    with m show ?thesis by (simp add: bindE_def)
  next
    case (Inr x)
    obtain u ext2 where "snd (f x (t, log @ ext)) = (u, (log @ ext) @ ext2)" "R x (fst (f x (t, log @ ext))) ext2"
      using assms(2) [of x] unfolding emits_def by blast
    with Inr m show ?thesis by (auto simp: bindE_def)
  qed
qed

lemma emits_then:
  assumes "emits m Q" and "emits k R"
  shows "emits (thenE m k) (\<lambda>r ext. (\<exists>e. r = Inl e \<and> Q (Inl e) ext) \<or>
    (\<exists>x e1 e2. Q (Inr x) e1 \<and> R r e2 \<and> ext = e1 @ e2))"
  unfolding thenE_def by (rule emits_bind [OF assms])

lemma emits_attempt:
  assumes "emits m Q"
  shows "emits (attemptE m) (\<lambda>r ext. \<exists>x. r = Inr x \<and> Q x ext)"
  using assms unfolding emits_def attemptE_def by fastforce

lemma emits_catch:
  assumes "emits m Q" and "emits h R"
  shows "emits (catchE m h) (\<lambda>r ext. (\<exists>x. r = Inr x \<and> Q (Inr x) ext) \<or>
    (\<exists>e e1 e2. Q (Inl e) e1 \<and> R r e2 \<and> ext = e1 @ e2))"
  unfolding emits_def
proof (intro allI)
  fix s log
  obtain r t ext where m: "m (s, log) = (r, (t, log @ ext))" "Q r ext"
    using assms(1) unfolding emits_def by (metis prod.collapse)
  show "\<exists>t ext. snd (catchE m h (s, log)) = (t, log @ ext) \<and>
      ((\<exists>x. fst (catchE m h (s, log)) = Inr x \<and> Q (Inr x) ext) \<or>
       (\<exists>e e1 e2. Q (Inl e) e1 \<and> R (fst (catchE m h (s, log))) e2 \<and> ext = e1 @ e2))"
  proof (cases r)
    case (Inl e)
    obtain u ext2 where "snd (h (t, log @ ext)) = (u, (log @ ext) @ ext2)" "R (fst (h (t, log @ ext))) ext2"
      using assms(2) unfolding emits_def by blast
    with Inl m show ?thesis by (auto simp: catchE_def)
  next
    case (Inr x)
    with m show ?thesis by (simp add: catchE_def)
  qed
qed

lemma emits_exec: "emits (exec (logging C) conn st) (\<lambda>_ ext. ext = [(conn, CallExec (sql_of st))])"
  unfolding exec_def logging_def by (simp add: emits_record)

lemma emits_query: "emits (query (logging C) conn st) (\<lambda>_ ext. ext = [(conn, CallQuery (sql_of st))])"
  unfolding query_def logging_def by (simp add: emits_record)

lemma emits_txn:
  "emits (mc_begin (logging C) conn) (\<lambda>_ ext. ext = [(conn, CallBegin)])"
  "emits (mc_commit (logging C) conn) (\<lambda>_ ext. ext = [(conn, CallCommit)])"
  "emits (mc_rollback (logging C) conn) (\<lambda>_ ext. ext = [(conn, CallRollback)])"
  unfolding logging_def by (simp_all add: emits_record)

lemma emits_last_id: "emits (last_id (logging C) conn old) (\<lambda>_ ext. ext = [(conn, CallQuery (sql_of Q_SelectLastId))])"
proof -
  have "emits (\<lambda>s. case idRows of (cell # _) # _ \<Rightarrow> (stoll cell, s) | _ \<Rightarrow> (Inr old, s)) (\<lambda>_ ext. ext = [])"
    for idRows :: "string list list" by (auto simp: emits_def split: list.splits)
  then show ?thesis unfolding last_id_def by (rule emits_weaken [OF emits_bind [OF emits_query]]) auto
qed


section \<open>Publishing\<close>

definition publish_calls :: "string \<Rightarrow> int \<Rightarrow> string \<Rightarrow> string \<Rightarrow> string \<Rightarrow> call list" where
  "publish_calls n ver nt op now = [CallExec (sql_of (Q_GoLive n)), CallQuery (sql_of (Q_SelectMaxVersion n)),
     CallExec (sql_of (Q_InsertPublished n ver nt op now)), CallQuery (sql_of Q_SelectLastId)]"

definition plain_call :: "call \<Rightarrow> bool" where
  "plain_call c \<longleftrightarrow> c \<noteq> CallBegin \<and> c \<noteq> CallCommit \<and> c \<noteq> CallRollback"

lemma publish_body_tail:
  "emits (thenE (exec (logging C) conn (Q_InsertPublished n (rel_release_version rel) nt op now))
      (bindE (last_id (logging C) conn i) (\<lambda>i. ret (rel\<lparr>rel_id := i\<rparr>))))
    (\<lambda>r ext. list_all (\<lambda>x. fst x = conn \<and> plain_call (snd x)) ext \<and>
       (\<forall>r'. r = Inr r' \<longrightarrow> rel_release_version r' = rel_release_version (rel :: Release) \<and>
          ext = map (Pair conn) (drop 2 (publish_calls n (rel_release_version rel) nt op now))))"
  by (rule emits_weaken [OF emits_then [OF emits_exec emits_bind [OF emits_last_id emits_ret]]])
    (auto simp: plain_call_def publish_calls_def)

lemma publish_body_calls:
  "emits (my_publish_body (logging C) conn now n nt op)
    (\<lambda>r ext. list_all (\<lambda>x. fst x = conn \<and> plain_call (snd x)) ext \<and>
       (\<forall>rel. r = Inr rel \<longrightarrow>
          ext = map (Pair conn) (publish_calls n (rel_release_version rel) nt op now)))"
  unfolding my_publish_body_def Let_def
  by (rule emits_weaken [OF emits_then [OF emits_exec emits_bind [OF emits_query emits_bind [OF emits_pure
        publish_body_tail [of C conn n "default_Release\<lparr>rel_namespace_id := n, rel_release_version := ver,
          rel_release_note := nt, rel_release_type := ''full'', rel_status := ''active'',
          rel_operator_id := op, rel_created_at := now\<rparr>" for ver, simplified]]]]])
    (auto simp: plain_call_def publish_calls_def)

text \<open>The calls of \<^verbatim>\<open>publishRelease\<close> between acquiring and releasing the connection.\<close>

definition publish_trace_ok :: "nat \<Rightarrow> string \<Rightarrow> string \<Rightarrow> string \<Rightarrow> string \<Rightarrow>
    (bool \<times> Release) result \<Rightarrow> (nat \<times> call) list \<Rightarrow> bool" where
  "publish_trace_ok conn n nt op now r ext \<longleftrightarrow>
     list_all (\<lambda>x. fst x = conn) ext \<and> ext \<noteq> [] \<and> hd ext = (conn, CallBegin) \<and>
     (case r of
        Inr (True, rel) \<Rightarrow>
          map snd ext = CallBegin # publish_calls n (rel_release_version rel) nt op now @ [CallCommit]
      | Inr (False, _) \<Rightarrow> last ext = (conn, CallRollback)
      | Inl _ \<Rightarrow> length ext = 1 \<or> last ext = (conn, CallRollback))"

lemma publish_calls_traced:
  "emits (thenE (mc_begin (logging C) conn)
       (bindE (attemptE (my_publish_body (logging C) conn now n nt op)) (\<lambda>outcome.
          case outcome of
            Inl _ \<Rightarrow> thenE (mc_rollback (logging C) conn) (ret (False, out))
          | Inr rel \<Rightarrow>
              catchE (thenE (mc_commit (logging C) conn) (ret (True, rel)))
                (thenE (mc_rollback (logging C) conn) (ret (False, rel))))))
     (publish_trace_ok conn n nt op now)"
proof -
  have fail: "emits (thenE (mc_rollback (logging C) conn) (ret (False, x))) (\<lambda>r ext.
      ext = [(conn, CallRollback)] \<and> (\<forall>v. r = Inr v \<longrightarrow> v = (False, x)))" for x :: Release
    by (rule emits_weaken [OF emits_then [OF emits_txn(3) emits_ret]]) auto
  have done1: "emits (catchE (thenE (mc_commit (logging C) conn) (ret (True, rel)))
      (thenE (mc_rollback (logging C) conn) (ret (False, rel)))) (\<lambda>r ext.
      (r = Inr (True, rel) \<and> ext = [(conn, CallCommit)]) \<or>
      (ext = [(conn, CallCommit), (conn, CallRollback)] \<and> (\<forall>v. r = Inr v \<longrightarrow> v = (False, rel))))" for rel :: Release
    by (rule emits_weaken [OF emits_catch [OF emits_then [OF emits_txn(2) emits_ret] fail]]) auto
  have rest: "emits (case outcome of
        Inl _ \<Rightarrow> thenE (mc_rollback (logging C) conn) (ret (False, out))
      | Inr rel \<Rightarrow> catchE (thenE (mc_commit (logging C) conn) (ret (True, rel)))
          (thenE (mc_rollback (logging C) conn) (ret (False, rel)))) (\<lambda>r ext.
      (\<exists>rel. outcome = Inr rel \<and> r = Inr (True, rel) \<and> ext = [(conn, CallCommit)]) \<or>
      (ext \<noteq> [] \<and> list_all (\<lambda>x. fst x = conn) ext \<and> last ext = (conn, CallRollback) \<and>
       (\<forall>b v. r = Inr (b, v) \<longrightarrow> \<not> b)))" for outcome :: "Release result"
  proof (cases outcome)
    case (Inl e)
    show ?thesis unfolding Inl sum.case by (rule emits_weaken [OF fail]) auto
  next
    case (Inr rel)
    show ?thesis unfolding Inr sum.case by (rule emits_weaken [OF done1]) auto
  qed
  show ?thesis
    by (rule emits_weaken [OF emits_then [OF emits_txn(1) emits_bind [OF emits_attempt [OF publish_body_calls] rest]]])
      (fastforce simp: publish_trace_ok_def list_all_iff comp_def split: sum.splits prod.splits bool.splits)
qed


section \<open>Opening and closing the store\<close>

text \<open>Calls made one after the other: all of them, or a prefix when one throws.\<close>

definition in_order :: "(nat \<times> call) list \<Rightarrow> 'a \<Rightarrow> 'a result \<Rightarrow> (nat \<times> call) list \<Rightarrow> bool" where
  "in_order calls x r ext \<longleftrightarrow> prefix ext calls \<and> (\<forall>y. r = Inr y \<longrightarrow> y = x \<and> ext = calls)"

lemma in_order_append: "in_order calls x r ext \<Longrightarrow> in_order (before @ calls) x r (before @ ext)"
  by (simp add: in_order_def)

lemma emits_in_order_Cons:
  assumes "emits m (\<lambda>_ ext. ext = [c])" and "emits k (in_order calls x)"
  shows "emits (thenE m k) (in_order (c # calls) x)"
  by (rule emits_weaken [OF emits_then [OF assms]]) (auto simp: in_order_def)

lemma emits_in_order_Nil: "emits (ret x) (in_order [] x)"
  by (rule emits_weaken [OF emits_ret]) (simp add: in_order_def)

lemma connect_all_calls:
  "emits (connect_all (logging C) ps conns) (in_order (map (\<lambda>c. (c, CallConnect ps)) conns) ())"
  by (induction conns) (simp_all add: emits_in_order_Nil emits_in_order_Cons emits_record logging_def)

lemma close_all_calls:
  "emits (close_all (logging C) conns) (in_order (map (\<lambda>c. (c, CallClose)) conns) ())"
  by (induction conns) (simp_all add: emits_in_order_Nil emits_in_order_Cons emits_record logging_def)

lemma new_pool_calls:
  "emits (new_pool (logging C) n ps) (in_order (map (\<lambda>c. (c, CallConnect ps)) [0..<n]) [0..<n])"
  unfolding new_pool_def
  by (rule emits_weaken [OF emits_then [OF connect_all_calls emits_ret]]) (auto simp: in_order_def)

lemma migrate_calls:
  "emits (foldr (\<lambda>ps k. thenE (mc_execute (logging C) conn (render ps)) k) stmts (ret True))
     (in_order (map (\<lambda>ps. (conn, CallExec (render ps))) stmts) True)"
  by (induction stmts) (simp_all add: emits_in_order_Nil emits_in_order_Cons emits_record logging_def)

text \<open>The calls of \<^verbatim>\<open>initialize\<close>: ten connections with the parsed parameters, the schema on the first.\<close>

definition open_calls :: "connection_params \<Rightarrow> (nat \<times> call) list" where
  "open_calls ps = map (\<lambda>c. (c, CallConnect ps)) [0..<10] @ map (\<lambda>q. (0, CallExec (render q))) schema"

lemma autoMigrate_calls:
  obtains r m' ext where "autoMigrate (logging C) \<lparr>my_pool = conn # rest, my_server = (m, log)\<rparr> =
      Some (r, \<lparr>my_pool = (case r of Inr _ \<Rightarrow> rest @ [conn] | Inl _ \<Rightarrow> rest), my_server = (m', log @ ext)\<rparr>)"
    and "in_order (map (\<lambda>q. (conn, CallExec (render q))) schema) True r ext"
proof -
  let ?body = "foldr (\<lambda>ps k. thenE (mc_execute (logging C) conn (render ps)) k) schema (ret True)"
  obtain r m' log' where body: "?body (m, log) = (r, (m', log'))" by (metis prod.collapse)
  with emitsD [OF migrate_calls body] that [of r m'] show thesis
    by (cases r) (auto simp: autoMigrate_def with_conn_def acquire_def release_def)
qed

lemma initialize_calls:
  assumes "parse_connection cs p = Inr ps"
  obtains r s m' ext where "my_initialize (logging C) cs p (m, log) = Some (r, s)"
    and "my_server s = (m', log @ ext)" and "in_order (open_calls ps) True r ext"
    and "r = Inr True \<Longrightarrow> my_pool s = [1..<10] @ [0]"
proof -
  obtain x m1 log1 where pool: "new_pool (logging C) 10 ps (m, log) = (x, (m1, log1))" by (metis prod.collapse)
  from emitsD [OF new_pool_calls pool] obtain e1 where e1: "log1 = log @ e1"
    "in_order (map (\<lambda>c. (c, CallConnect ps)) [0..<10]) [0..<10] x e1" by blast
  show thesis
  proof (cases x)
    case (Inl e)
    with e1 pool assms show thesis
      by (intro that [of "Inl e" "\<lparr>my_pool = [], my_server = (m1, log1)\<rparr>" m1 e1])
        (auto simp: my_initialize_def in_order_def open_calls_def)
  next
    case (Inr ids)
    with e1(2) have ids: "ids = 0 # [1..<10]" "e1 = map (\<lambda>c. (c, CallConnect ps)) [0..<10]"
      by (simp_all add: in_order_def upt_conv_Cons)
    obtain r m' e2 where mig: "autoMigrate (logging C) \<lparr>my_pool = 0 # [1..<10], my_server = (m1, log1)\<rparr> =
        Some (r, \<lparr>my_pool = (case r of Inr _ \<Rightarrow> [1..<10] @ [0] | Inl _ \<Rightarrow> [1..<10]), my_server = (m', log1 @ e2)\<rparr>)"
      and e2: "in_order (map (\<lambda>q. (0, CallExec (render q))) schema) True r e2" by (rule autoMigrate_calls)
    with Inr ids(1) pool assms have run: "my_initialize (logging C) cs p (m, log) = Some (r,
        \<lparr>my_pool = (case r of Inr _ \<Rightarrow> [1..<10] @ [0] | Inl _ \<Rightarrow> [1..<10]), my_server = (m', log1 @ e2)\<rparr>)"
      by (simp add: my_initialize_def)
    show thesis
    proof (rule that [OF run])
      show "in_order (open_calls ps) True r (e1 @ e2)"
        using in_order_append [OF e2] by (simp add: open_calls_def ids(2))
    qed (simp_all add: e1(1))
  qed
qed


section \<open>Properties\<close>

text \<open>
  C27. Publishing on MySQL is one transaction on one connection: all calls of \<^verbatim>\<open>publishRelease\<close> go to the
  connection it took from the pool and the first is the begin. When it returns true, the calls are
  exactly begin, the update of the configs, the query for the largest number, the insertion of the
  release it reports, the query for its identifier, and commit; when it returns false the last call is
  the rollback. The connection goes back to the pool unless the call throws.
\<close>

theorem mysql_publish_transaction:
  assumes "my_publishRelease (logging C) now n nt op out \<lparr>my_pool = conn # rest, my_server = (m, log)\<rparr> = Some (r, t)"
  shows "\<exists>m' ext. my_server t = (m', log @ ext) \<and> publish_trace_ok conn n nt op now r ext \<and>
    my_pool t = (case r of Inr _ \<Rightarrow> rest @ [conn] | Inl _ \<Rightarrow> rest)"
proof -
  from assms obtain m' log' where
    "thenE (mc_begin (logging C) conn)
       (bindE (attemptE (my_publish_body (logging C) conn now n nt op)) (\<lambda>outcome.
          case outcome of
            Inl _ \<Rightarrow> thenE (mc_rollback (logging C) conn) (ret (False, out))
          | Inr rel \<Rightarrow>
              catchE (thenE (mc_commit (logging C) conn) (ret (True, rel)))
                (thenE (mc_rollback (logging C) conn) (ret (False, rel))))) (m, log) = (r, (m', log'))"
    and "t = \<lparr>my_pool = (case r of Inr _ \<Rightarrow> rest @ [conn] | Inl _ \<Rightarrow> rest), my_server = (m', log')\<rparr>"
    by (auto simp: my_publishRelease_def with_conn_def acquire_def release_def
        split: prod.splits sum.splits)
  with emitsD [OF publish_calls_traced] show ?thesis by fastforce
qed

theorem mysql_publish_transaction_witness:
  "\<exists>r t ext. my_publishRelease (logging demo_conn) ''t1'' ''ns'' ''first'' ''bob'' default_Release
       \<lparr>my_pool = [7, 8], my_server = ((), [])\<rparr> = Some (Inr (True, r), t) \<and>
     my_server t = ((), ext) \<and> last ext = (7 :: nat, CallCommit) \<and> my_pool t = [8, 7]"
proof -
  let ?rel = "default_Release\<lparr>rel_namespace_id := ''ns'', rel_release_version := 1, rel_release_note := ''first'',
    rel_release_type := ''full'', rel_status := ''active'', rel_operator_id := ''bob'', rel_created_at := ''t1''\<rparr>"
  obtain t where run: "my_publishRelease (logging demo_conn) ''t1'' ''ns'' ''first'' ''bob'' default_Release
      \<lparr>my_pool = [7, 8], my_server = ((), [])\<rparr> = Some (Inr (True, ?rel), t)"
    by (simp add: my_publishRelease_def with_conn_def acquire_def my_publish_body_def exec_def query_def
        last_id_def logging_def record_call_def demo_conn_def default_Release_def io_defs thenE_def Let_def)
  from mysql_publish_transaction [OF run] obtain m' ext where
    "my_server t = (m', ext)" "publish_trace_ok 7 ''ns'' ''first'' ''bob'' ''t1'' (Inr (True, ?rel)) ext"
    "my_pool t = [8, 7]" by auto
  moreover from this(2) have "last ext = (7, CallCommit)"
    by (cases ext rule: rev_cases) (auto simp: publish_trace_ok_def publish_calls_def prod_eq_iff)
  ultimately show ?thesis using run by (intro exI [of _ ?rel] exI [of _ t] exI [of _ ext]) simp
qed

text \<open>
  C39. A MySQL store opened with a connection string in the documented format
  \<^verbatim>\<open>host:port/user:password@database\<close>, whose parts do not contain the separators that follow them, parses
  the string back to exactly these parts, whatever its members were before, and always comes to an end:
  it connects the ten connections in order with these parameters, whether or not they succeed, then
  sends the schema to the first, and stops early only at an exception. Opened without one, all ten are
  idle; destroying the store closes the idle connections in order.
\<close>

theorem mysql_store_opens:
  assumes "CHR '':'' \<notin> set host" "CHR ''/'' \<notin> set host" "CHR ''@'' \<notin> set host"
    and "CHR '':'' \<notin> set user" "CHR ''@'' \<notin> set user" and "CHR ''@'' \<notin> set pw"
    and "0 \<le> portnum" "portnum < 65536"
    and "length (connection_text host portnum user pw db) < npos"
  shows "\<exists>ps r s m' ext. parse_connection (connection_text host portnum user pw db) p = Inr ps \<and>
    ps = \<lparr>cp_host = host, cp_port = portnum, cp_user = user, cp_password = pw, cp_database = db\<rparr> \<and>
    my_initialize (logging C) (connection_text host portnum user pw db) p (m, log) = Some (r, s) \<and>
    my_server s = (m', log @ ext) \<and> in_order (open_calls ps) True r ext \<and>
    (r = Inr True \<longrightarrow> my_pool s = [1..<10] @ [0]) \<and>
    (\<exists>r' m'' ext'. delete_pool (logging C) s = (r', (m'', log @ ext @ ext')) \<and>
       in_order (map (\<lambda>c. (c, CallClose)) (my_pool s)) () r' ext')"
proof -
  note parse = parse_connection_text [OF assms, of p]
  obtain r s m' ext where init: "my_initialize (logging C) (connection_text host portnum user pw db) p (m, log) = Some (r, s)"
    "my_server s = (m', log @ ext)" "in_order (open_calls \<lparr>cp_host = host, cp_port = portnum, cp_user = user,
      cp_password = pw, cp_database = db\<rparr>) True r ext" "r = Inr True \<longrightarrow> my_pool s = [1..<10] @ [0]"
    using initialize_calls [OF parse, where C = C and m = m and log = log] by metis
  obtain r' m'' log'' where close: "close_all (logging C) (my_pool s) (m', log @ ext) = (r', (m'', log''))"
    by (metis prod.collapse)
  with init(2) have "delete_pool (logging C) s = (r', (m'', log''))" by (simp add: delete_pool_def)
  with emitsD [OF close_all_calls close] init parse show ?thesis by fastforce
qed

text \<open>The example: a server on which everything succeeds.\<close>

lemma demo_connects: "fst (connect_all (logging demo_conn) ps conns s) = Inr ()"
  by (induction conns arbitrary: s)
    (auto simp: logging_def record_call_def demo_conn_def io_defs thenE_def split: prod.splits)

lemma demo_migrates:
  "fst (foldr (\<lambda>ps k. thenE (mc_execute (logging demo_conn) conn (render ps)) k) stmts (ret True) s) = Inr True"
  by (induction stmts arbitrary: s)
    (auto simp: logging_def record_call_def demo_conn_def io_defs thenE_def split: prod.splits)

lemma demo_opens:
  assumes "parse_connection cs p = Inr ps" and "my_initialize (logging demo_conn) cs p m = Some (r, s)"
  shows "r = Inr True"
proof -
  from demo_connects [of ps "[0..<10]" m] obtain m1 where
    "new_pool (logging demo_conn) 10 ps m = (Inr [0..<10], m1)"
    by (cases "connect_all (logging demo_conn) ps [0..<10] m") (simp add: new_pool_def thenE_Inr ret_def)
  with assms demo_migrates [of 0 schema m1] show ?thesis
    by (auto simp: my_initialize_def autoMigrate_def with_conn_def acquire_def upt_conv_Cons
        split: prod.splits sum.splits)
qed

theorem mysql_store_opens_witness:
  "\<exists>s ext. my_initialize (logging demo_conn) ''db.local:3306/root:p:w/d@config_center'' \<lparr>cp_host = [], cp_port = 0,
       cp_user = [], cp_password = [], cp_database = []\<rparr> ((), []) = Some (Inr True, s) \<and>
     my_pool s = [1..<10] @ [0] \<and> my_server s = ((), ext) \<and>
     ext ! 9 = (9, CallConnect \<lparr>cp_host = ''db.local'', cp_port = 3306, cp_user = ''root'', cp_password = ''p:w/d'',
       cp_database = ''config_center''\<rparr>)"
proof -
  let ?ps = "\<lparr>cp_host = ''db.local'', cp_port = 3306, cp_user = ''root'', cp_password = ''p:w/d'',
       cp_database = ''config_center''\<rparr>"
  let ?p = "\<lparr>cp_host = [], cp_port = 0, cp_user = [], cp_password = [], cp_database = []\<rparr>"
  have cs: "connection_text ''db.local'' 3306 ''root'' ''p:w/d'' ''config_center'' =
      ''db.local:3306/root:p:w/d@config_center''" by code_simp
  have parts: "CHR '':'' \<notin> set ''db.local''" "CHR ''/'' \<notin> set ''db.local''" "CHR ''@'' \<notin> set ''db.local''"
    "CHR '':'' \<notin> set ''root''" "CHR ''@'' \<notin> set ''root''" "CHR ''@'' \<notin> set ''p:w/d''"
    "0 \<le> (3306 :: int)" "(3306 :: int) < 65536" by simp_all
  have len: "length (connection_text ''db.local'' 3306 ''root'' ''p:w/d'' ''config_center'') < npos"
    by (simp add: cs npos_def)
  obtain ps r s m' ext where ps: "ps = ?ps"
    and init: "parse_connection ''db.local:3306/root:p:w/d@config_center'' ?p = Inr ps"
    "my_initialize (logging demo_conn) ''db.local:3306/root:p:w/d@config_center'' ?p ((), []) = Some (r, s)"
    "my_server s = (m', [] @ ext)" "in_order (open_calls ps) True r ext" "r = Inr True \<longrightarrow> my_pool s = [1..<10] @ [0]"
    using mysql_store_opens [OF parts len, unfolded cs, of ?p demo_conn "()" "[]"] by blast
  from demo_opens [OF init(1,2)] have "r = Inr True" .
  moreover from this init(4) have ext: "ext = open_calls ps" by (simp add: in_order_def) blast
  have "ext ! 9 = (9, CallConnect ?ps)" unfolding ext ps by (simp add: open_calls_def nth_append del: upt_Suc)
  ultimately show ?thesis using init by auto
qed

end
