(* ===== verification/Backend_View.thy ===== *)
theory Backend_View
  imports Mysql_Trace Sqlite_Contract
begin

text \<open>
  What a client of a \<^verbatim>\<open>ConfigStore\<close> can see of it: the applications, the namespaces, and value, version and
  status of each key, and what the operations do to this view. The locale \<open>config_backend\<close> is what an
  implementation promises; \<^verbatim>\<open>Backend_Sqlite\<close> and \<^verbatim>\<open>Backend_Mysql\<close> show it for the two stores. Time stamps are left
  out, and an empty text and no text are the same, as for the MySQL store.
\<close>


section \<open>The abstract view\<close>

record space =
  vs_app :: string
  vs_env :: string
  vs_cluster :: string
  vs_name :: string
  vs_type :: string
  vs_parent :: "string option"
  vs_approval :: bool

record view =
  v_apps :: "string \<rightharpoonup> string \<times> string option"
  v_spaces :: "string \<rightharpoonup> space"
  v_configs :: "string \<times> string \<rightharpoonup> string \<times> int \<times> string"

definition some_text :: "string option \<Rightarrow> string option" where
  "some_text v = Option.bind v nonempty"

definition app_core :: "Application \<Rightarrow> string \<times> string option" where
  "app_core a = (app_name a, some_text (app_description a))"

definition space_core :: "Namespace \<Rightarrow> space" where
  "space_core n = \<lparr>vs_app = ns_app_id n, vs_env = ns_env n, vs_cluster = ns_cluster n, vs_name = ns_name n,
     vs_type = ns_type n, vs_parent = some_text (ns_parent_namespace_id n),
     vs_approval = (ns_approval_enabled n = Some True)\<rparr>"

definition core :: "ConfigKey \<Rightarrow> string \<times> int \<times> string" where
  "core c = (ck_value c, ck_version c, ck_status c)"

definition seen :: "bool \<Rightarrow> (string \<times> int \<times> string) option \<Rightarrow> (string \<times> int \<times> string) option" where
  "seen includeDraft r =
     (case r of None \<Rightarrow> None
      | Some (v, ver, st) \<Rightarrow> if \<not> includeDraft \<and> st = ''draft'' then None else Some (v, ver, st))"

datatype backend_op =
    CreateAppOp Application
  | DeleteAppOp string
  | CreateSpaceOp Namespace
  | DeleteSpaceOp string
  | CreateOp string string string string
  | UpdateOp string string string string bool
  | DeleteOp string string string bool
  | PublishOp string string string

text \<open>The time stamps an operation brings along.\<close>

fun stamps_ok :: "string \<Rightarrow> backend_op \<Rightarrow> bool" where
  "stamps_ok now (CreateAppOp a) = stamp_ok (app_created_at a)"
| "stamps_ok now (CreateSpaceOp n) = stamp_ok (ns_created_at n)"
| "stamps_ok now _ = stamp_ok now"

text \<open>
  The effect of an operation, with and without the foreign keys of the MySQL schema: a config needs its
  namespace there, and deletions cascade.
\<close>

definition drop_spaces :: "(string \<Rightarrow> bool) \<Rightarrow> view \<Rightarrow> view" where
  "drop_spaces gone V = V\<lparr>v_spaces := (\<lambda>i. if gone i then None else v_spaces V i),
     v_configs := (\<lambda>i. if gone (fst i) then None else v_configs V i)\<rparr>"

definition in_app :: "string \<Rightarrow> view \<Rightarrow> string \<Rightarrow> bool" where
  "in_app a V i = (case v_spaces V i of None \<Rightarrow> False | Some x \<Rightarrow> vs_app x = a)"

fun effect :: "bool \<Rightarrow> backend_op \<Rightarrow> view \<Rightarrow> view" where
  "effect fk (CreateAppOp a) V =
     (if v_apps V (app_app_id a) = None then V\<lparr>v_apps := (v_apps V)(app_app_id a \<mapsto> app_core a)\<rparr> else V)"
| "effect fk (DeleteAppOp a) V =
     (let W = V\<lparr>v_apps := (v_apps V)(a := None)\<rparr> in if fk then drop_spaces (in_app a V) W else W)"
| "effect fk (CreateSpaceOp n) V =
     (if v_spaces V (ns_id n) = None \<and> v_apps V (ns_app_id n) \<noteq> None
      then V\<lparr>v_spaces := (v_spaces V)(ns_id n \<mapsto> space_core n)\<rparr> else V)"
| "effect fk (DeleteSpaceOp n) V =
     (if fk then drop_spaces (\<lambda>i. i = n) V else V\<lparr>v_spaces := (v_spaces V)(n := None)\<rparr>)"
| "effect fk (CreateOp n k v op) V =
     (if v_configs V (n, k) = None \<and> (fk \<longrightarrow> v_spaces V n \<noteq> None)
      then V\<lparr>v_configs := (v_configs V)((n, k) \<mapsto> (v, 1, ''draft''))\<rparr> else V)"
| "effect fk (UpdateOp n k v op d) V =
     (case v_configs V (n, k) of None \<Rightarrow> V
      | Some (old, ver, st) \<Rightarrow> V\<lparr>v_configs := (v_configs V)((n, k) \<mapsto>
          (v, wrap32 (ver + 1), if d then ''draft'' else ''live''))\<rparr>)"
| "effect fk (DeleteOp n k op d) V =
     (case v_configs V (n, k) of None \<Rightarrow> V
      | Some (old, ver, st) \<Rightarrow> if d \<and> st \<noteq> ''draft'' then V
          else V\<lparr>v_configs := (v_configs V)((n, k) := None)\<rparr>)"
| "effect fk (PublishOp n nt op) V = V\<lparr>v_configs :=
     (\<lambda>i. if fst i = n then map_option (\<lambda>(v, ver, st). (v, ver, ''live'')) (v_configs V i) else v_configs V i)\<rparr>"

text \<open>The answer: whether there was something to do; publishing and deleting always succeed.\<close>

fun says :: "backend_op \<Rightarrow> view \<Rightarrow> bool" where
  "says (CreateAppOp a) V = (v_apps V (app_app_id a) = None)"
| "says (CreateSpaceOp n) V = (v_spaces V (ns_id n) = None \<and> v_apps V (ns_app_id n) \<noteq> None)"
| "says (CreateOp n k v op) V = (v_configs V (n, k) = None)"
| "says (UpdateOp n k v op d) V = (v_configs V (n, k) \<noteq> None)"
| "says _ V = True"

text \<open>
  Operations on which the foreign keys make no difference: no config without a namespace, no deletion of
  what others refer to.
\<close>

fun plain :: "backend_op \<Rightarrow> view \<Rightarrow> bool" where
  "plain (DeleteAppOp a) V = (\<forall>i. \<not> in_app a V i)"
| "plain (DeleteSpaceOp n) V = (\<forall>k. v_configs V (n, k) = None)"
| "plain (CreateOp n k v op) V = (v_spaces V n \<noteq> None)"
| "plain _ V = True"

lemma effect_plain: "plain x V \<Longrightarrow> effect fk x V = effect False x V"
proof (cases x)
  case (DeleteSpaceOp n)
  assume "plain x V"
  with DeleteSpaceOp have "(\<lambda>i. if fst i = n then None else v_configs V i) = v_configs V"
    by (auto simp: fun_eq_iff)
  moreover have "(\<lambda>i. if i = n then None else v_spaces V i) = (v_spaces V)(n := None)" by auto
  ultimately show ?thesis by (simp add: DeleteSpaceOp drop_spaces_def)
qed (simp_all add: drop_spaces_def Let_def)

fun run_ops :: "(string \<Rightarrow> backend_op \<Rightarrow> 's \<Rightarrow> (bool \<times> 's) option) \<Rightarrow> (string \<times> backend_op) list \<Rightarrow> 's \<Rightarrow> (bool list \<times> 's) option" where
  "run_ops run [] s = Some ([], s)"
| "run_ops run ((now, x) # ops) s =
     (case run now x s of None \<Rightarrow> None
      | Some (b, t) \<Rightarrow> map_option (\<lambda>(bs, u). (b # bs, u)) (run_ops run ops t))"

fun answers :: "(backend_op \<Rightarrow> view \<Rightarrow> bool) \<Rightarrow> bool \<Rightarrow> (string \<times> backend_op) list \<Rightarrow> view \<Rightarrow> bool list" where
  "answers ans fk [] V = []"
| "answers ans fk ((now, x) # ops) V = ans x V # answers ans fk ops (effect fk x V)"

fun legal :: "(backend_op \<Rightarrow> view \<Rightarrow> bool) \<Rightarrow> bool \<Rightarrow> (string \<times> backend_op) list \<Rightarrow> view \<Rightarrow> bool" where
  "legal can fk [] V = True"
| "legal can fk ((now, x) # ops) V = (stamps_ok now x \<and> can x V \<and> legal can fk ops (effect fk x V))"

lemma legal_mono: "legal can fk ops V \<Longrightarrow> (\<And>x V. can x V \<Longrightarrow> can' x V) \<Longrightarrow> legal can' fk ops V"
  by (induction can fk ops V rule: legal.induct) simp_all

lemma plain_ops:
  "legal plain fk ops V \<Longrightarrow> legal plain fk' ops V \<and> answers ans fk ops V = answers ans fk' ops V \<and>
   fold (effect fk \<circ> snd) ops V = fold (effect fk' \<circ> snd) ops V"
proof (induction plain fk ops V rule: legal.induct)
  case (2 fk now x ops V)
  then have x: "plain x V" by simp
  have "effect fk x V = effect fk' x V" by (simp only: effect_plain [OF x, of fk] effect_plain [OF x, of fk'])
  with 2 show ?case by simp
qed simp


section \<open>Backends\<close>

text \<open>A backend runs each operation it can run to an answer, and has the effect on its view.\<close>

locale config_backend =
  fixes ok :: "'s \<Rightarrow> bool" and view_of :: "'s \<Rightarrow> view" and fk :: bool
    and can :: "backend_op \<Rightarrow> view \<Rightarrow> bool" and ans :: "backend_op \<Rightarrow> view \<Rightarrow> bool"
    and run :: "string \<Rightarrow> backend_op \<Rightarrow> 's \<Rightarrow> (bool \<times> 's) option"
    and look :: "string \<Rightarrow> string \<Rightarrow> bool \<Rightarrow> 's \<Rightarrow> (string \<times> int \<times> string) option option"
    and look_app :: "string \<Rightarrow> 's \<Rightarrow> (string \<times> string option) option option"
    and look_space :: "string \<Rightarrow> 's \<Rightarrow> space option option"
  assumes run_op: "ok s \<Longrightarrow> stamps_ok now x \<Longrightarrow> can x (view_of s) \<Longrightarrow>
      \<exists>t. run now x s = Some (ans x (view_of s), t) \<and> ok t \<and> view_of t = effect fk x (view_of s)"
    and look_op: "ok s \<Longrightarrow> look n k d s = Some (seen d (v_configs (view_of s) (n, k)))"
    and look_app_op: "ok s \<Longrightarrow> look_app a s = Some (v_apps (view_of s) a)"
    and look_space_op: "ok s \<Longrightarrow> look_space n s = Some (v_spaces (view_of s) n)"
begin

lemma run_ops_effect:
  assumes "ok s" and "legal can fk ops (view_of s)"
  shows "\<exists>t. run_ops run ops s = Some (answers ans fk ops (view_of s), t) \<and> ok t \<and>
    view_of t = fold (effect fk \<circ> snd) ops (view_of s)"
  using assms
proof (induction ops arbitrary: s)
  case (Cons y ops)
  obtain now x where y: "y = (now, x)" by fastforce
  from Cons.prems y run_op [of s now x] obtain t where
    t: "run now x s = Some (ans x (view_of s), t)" "ok t" "view_of t = effect fk x (view_of s)" by auto
  from Cons.IH [OF t(2)] Cons.prems t y show ?case by auto
qed simp

end

end
