(* ===== verification/Backend_Sqlite.thy ===== *)
theory Backend_Sqlite
  imports Backend_View
begin

text \<open>The SQLite store as a backend: the operations of \<^verbatim>\<open>SqliteConfigStore\<close> on the view of its tables.\<close>


section \<open>Operations\<close>

definition answered :: "bool result \<times> 's \<Rightarrow> (bool \<times> 's) option" where
  "answered r = (case r of (Inr b, t) \<Rightarrow> Some (b, t) | (Inl _, t) \<Rightarrow> None)"

fun sqlite_op :: "orm \<Rightarrow> string \<Rightarrow> backend_op \<Rightarrow> storage \<Rightarrow> (bool \<times> storage) option" where
  "sqlite_op E now (CreateAppOp a) s = answered (createApplication E a s)"
| "sqlite_op E now (DeleteAppOp a) s = answered (deleteApplication E a s)"
| "sqlite_op E now (CreateSpaceOp n) s = answered (createNamespace E n s)"
| "sqlite_op E now (DeleteSpaceOp n) s = answered (deleteNamespace E n s)"
| "sqlite_op E now (CreateOp n k v op) s = answered (createConfig E now n k v op s)"
| "sqlite_op E now (UpdateOp n k v op d) s = answered (updateConfig E now n k v op d s)"
| "sqlite_op E now (DeleteOp n k op d) s = answered (deleteConfig E now n k op d s)"
| "sqlite_op E now (PublishOp n nt op) s =
     answered (apfst (map_sum id fst) (publishRelease E now n nt op default_Release s))"

definition found :: "('a \<Rightarrow> 'b) \<Rightarrow> 'a option result \<times> 's \<Rightarrow> 'b option option" where
  "found f r = (case r of (Inr x, _) \<Rightarrow> Some (map_option f x) | (Inl _, _) \<Rightarrow> None)"

definition sqlite_look :: "orm \<Rightarrow> string \<Rightarrow> string \<Rightarrow> bool \<Rightarrow> storage \<Rightarrow> (string \<times> int \<times> string) option option" where
  "sqlite_look E n k d s = found core (getConfig E n k d s)"

definition sqlite_look_app :: "orm \<Rightarrow> string \<Rightarrow> storage \<Rightarrow> (string \<times> string option) option option" where
  "sqlite_look_app E a s = found app_core (getApplication E a s)"

definition sqlite_look_space :: "orm \<Rightarrow> string \<Rightarrow> storage \<Rightarrow> space option option" where
  "sqlite_look_space E n s = found space_core (getNamespace E n s)"

definition sqlite_view :: "storage \<Rightarrow> view" where
  "sqlite_view s = \<lparr>v_apps = map_option app_core \<circ> app_map s, v_spaces = map_option space_core \<circ> ns_map s,
     v_configs = map_option core \<circ> cfg_map s\<rparr>"

text \<open>A deletion that would leave a namespace without its application throws.\<close>

fun sqlite_can :: "backend_op \<Rightarrow> view \<Rightarrow> bool" where
  "sqlite_can (DeleteAppOp a) V = (\<forall>i. \<not> in_app a V i)"
| "sqlite_can _ V = True"

lemma sqlite_can_plain: "plain x V \<Longrightarrow> sqlite_can x V"
  by (cases x) simp_all

lemma seen_visible: "seen d (map_option core r) = map_option core (visible d r)"
  by (cases r) (simp_all add: seen_def visible_def core_def)

lemma sqlite_view_simps [simp]:
  "v_apps (sqlite_view s) = map_option app_core \<circ> app_map s"
  "v_spaces (sqlite_view s) = map_option space_core \<circ> ns_map s"
  "v_configs (sqlite_view s) = map_option core \<circ> cfg_map s"
  by (simp_all add: sqlite_view_def)

lemma backend_view_eqI: "v_apps V = v_apps W \<Longrightarrow> v_spaces V = v_spaces W \<Longrightarrow> v_configs V = v_configs W \<Longrightarrow> V = (W :: view)"
  by simp


section \<open>The view of the tables\<close>

context reliable_engine
begin

lemma sqlite_create_app:
  assumes "store_inv s"
  shows "\<exists>t. createApplication E a s = (Inr (says (CreateAppOp a) (sqlite_view s)), t) \<and>
    store_inv t \<and> sqlite_view t = effect False (CreateAppOp a) (sqlite_view s)"
proof -
  obtain b t where t: "createApplication E a s = (Inr b, t)"
    by (cases "createApplication E a s"; cases "fst (createApplication E a s)")
      (auto simp: createApplication_def catchE_def ret_def split: prod.splits sum.splits)
  with store.createApplication [OF assms, of a b t] store.createApplication_total [OF assms, of a]
  show ?thesis by (auto simp: sqlite_view_def fun_eq_iff split: if_splits)
qed

lemma sqlite_create_space:
  assumes "store_inv s"
  shows "\<exists>t. createNamespace E n s = (Inr (says (CreateSpaceOp n) (sqlite_view s)), t) \<and>
    store_inv t \<and> sqlite_view t = effect False (CreateSpaceOp n) (sqlite_view s)"
proof -
  obtain b t where t: "createNamespace E n s = (Inr b, t)"
    by (cases "createNamespace E n s"; cases "fst (createNamespace E n s)")
      (auto simp: createNamespace_def catchE_def ret_def split: prod.splits sum.splits)
  with store.createNamespace [OF assms, of n b t] store.createNamespace_total [OF assms, of n]
  show ?thesis by (auto simp: sqlite_view_def fun_eq_iff split: if_splits)
qed

lemma sqlite_delete_app:
  assumes "store_inv s" and "sqlite_can (DeleteAppOp a) (sqlite_view s)"
  shows "\<exists>t. deleteApplication E a s = (Inr True, t) \<and>
    store_inv t \<and> sqlite_view t = effect False (DeleteAppOp a) (sqlite_view s)"
proof -
  have "ns_app_id x \<noteq> a" if "x \<in> set (namespaces (tabs s))" for x
  proof -
    from that store_invD(6) [OF assms(1)] have "ns_map s (ns_id x) = Some x" by (simp add: ns_map_def key_map_Some)
    with assms(2) show ?thesis by (auto simp: in_app_def space_core_def dest: spec [of _ "ns_id x"])
  qed
  with store_invD(3) [OF assms(1)] have "refs_ok (applications_update (filter (\<lambda>x. app_app_id x \<noteq> a)) (tabs s))"
    by (auto simp: refs_ok_def) metis
  from rapp.remove_all_total [of "\<lambda>x. app_app_id x = a" s, OF this]
  obtain t where t: "deleteApplication E a s = (Inr True, t)"
    by (auto simp: deleteApplication_def thenE_def bindE_def ret_def)
  with store.deleteApplication [OF assms(1), of a True t] show ?thesis
    by (auto simp: sqlite_view_def fun_eq_iff)
qed

lemma sqlite_delete_space:
  assumes "store_inv s"
  shows "\<exists>t. deleteNamespace E n s = (Inr True, t) \<and>
    store_inv t \<and> sqlite_view t = effect False (DeleteSpaceOp n) (sqlite_view s)"
proof -
  have "refs_ok (namespaces_update (filter (\<lambda>x. ns_id x \<noteq> n)) (tabs s))"
    using store_invD(3) [OF assms] by (auto simp: refs_ok_def)
  from rns.remove_all_total [of "\<lambda>x. ns_id x = n" s, OF this]
  obtain t where t: "deleteNamespace E n s = (Inr True, t)"
    by (auto simp: deleteNamespace_def thenE_def bindE_def ret_def)
  with store.deleteNamespace [OF assms, of n True t] show ?thesis
    by (auto simp: sqlite_view_def fun_eq_iff)
qed

lemma sqlite_create:
  assumes "store_inv s"
  shows "\<exists>t. createConfig E now n k v op s = (Inr (says (CreateOp n k v op) (sqlite_view s)), t) \<and>
    store_inv t \<and> sqlite_view t = effect False (CreateOp n k v op) (sqlite_view s)"
proof -
  from createConfig_total [OF assms] obtain t where t: "createConfig E now n k v op s = (Inr (cfg_map s (n, k) = None), t)"
    by blast
  with store.createConfig [OF assms, of now n k v op] show ?thesis
    by (auto simp: sqlite_view_def core_def fun_eq_iff)
qed

lemma sqlite_update:
  assumes "store_inv s"
  shows "\<exists>t. updateConfig E now n k v op d s = (Inr (says (UpdateOp n k v op d) (sqlite_view s)), t) \<and>
    store_inv t \<and> sqlite_view t = effect False (UpdateOp n k v op d) (sqlite_view s)"
proof -
  from updateConfig_total [OF assms] obtain b t where t: "updateConfig E now n k v op d s = (Inr b, t)" by blast
  with store.updateConfig [OF assms, of now n k v op d b t] show ?thesis
    by (cases "cfg_map s (n, k)") (auto simp: sqlite_view_def core_def fun_eq_iff)
qed

lemma sqlite_delete:
  assumes "store_inv s"
  shows "\<exists>t. deleteConfig E now n k op d s = (Inr True, t) \<and>
    store_inv t \<and> sqlite_view t = effect False (DeleteOp n k op d) (sqlite_view s)"
proof -
  from deleteConfig_total [OF assms] obtain b t where t: "deleteConfig E now n k op d s = (Inr b, t)" by blast
  with store.deleteConfig [OF assms, of now n k op d b t] show ?thesis
    by (cases "cfg_map s (n, k)") (auto simp: sqlite_view_def core_def fun_eq_iff)
qed

lemma sqlite_publish:
  assumes "store_inv s"
  shows "\<exists>r t. publishRelease E now n nt op out s = (Inr (True, r), t) \<and>
    store_inv t \<and> sqlite_view t = effect False (PublishOp n nt op) (sqlite_view s)"
proof -
  from publishRelease_total [OF assms] obtain r t where t: "publishRelease E now n nt op out s = (Inr (True, r), t)" by blast
  with store.publishRelease [OF assms, of now n nt op out True r t] have
    inv: "store_inv t" "app_map t = app_map s" "ns_map t = ns_map s" and cfg: "cfg_map t = published n (cfg_map s)" by simp_all
  have "v_configs (sqlite_view t) = v_configs (effect False (PublishOp n nt op) (sqlite_view s))"
  proof
    fix i
    show "v_configs (sqlite_view t) i = v_configs (effect False (PublishOp n nt op) (sqlite_view s)) i"
      by (cases "cfg_map s i") (simp_all add: cfg published_def core_def)
  qed
  with inv have "sqlite_view t = effect False (PublishOp n nt op) (sqlite_view s)" by (intro backend_view_eqI) simp_all
  with t inv show ?thesis by blast
qed

end

sublocale reliable_engine \<subseteq>
  backend: config_backend store_inv sqlite_view False sqlite_can says "sqlite_op E" "sqlite_look E"
    "sqlite_look_app E" "sqlite_look_space E"
proof
  fix s x now assume inv: "store_inv s" and can: "sqlite_can x (sqlite_view s)"
  show "\<exists>t. sqlite_op E now x s = Some (says x (sqlite_view s), t) \<and> store_inv t \<and> sqlite_view t = effect False x (sqlite_view s)"
  proof (cases x)
    case (CreateAppOp a)
    with sqlite_create_app [OF inv, of a] show ?thesis by (auto simp: answered_def simp del: says.simps effect.simps)
  next
    case (DeleteAppOp a)
    with sqlite_delete_app [OF inv, of a] can show ?thesis by (auto simp: answered_def)
  next
    case (CreateSpaceOp n)
    with sqlite_create_space [OF inv, of n] show ?thesis by (auto simp: answered_def simp del: says.simps effect.simps)
  next
    case (DeleteSpaceOp n)
    with sqlite_delete_space [OF inv, of n] show ?thesis by (auto simp: answered_def)
  next
    case (CreateOp n k v op)
    with sqlite_create [OF inv, of now n k v op] show ?thesis by (auto simp: answered_def)
  next
    case (UpdateOp n k v op d)
    with sqlite_update [OF inv, of now n k v op d] show ?thesis by (auto simp: answered_def)
  next
    case (DeleteOp n k op d)
    with sqlite_delete [OF inv, of now n k op d] show ?thesis by (auto simp: answered_def)
  next
    case (PublishOp n nt op)
    with sqlite_publish [OF inv, of now n nt op default_Release] show ?thesis by (auto simp: answered_def)
  qed
next
  fix s n k d assume inv: "store_inv s"
  from store.getConfig_total [OF inv, of n k d] store.getConfig [OF inv, of n k d]
  show "sqlite_look E n k d s = Some (seen d (v_configs (sqlite_view s) (n, k)))"
    by (auto simp: sqlite_look_def found_def seen_visible)
next
  fix s a assume inv: "store_inv s"
  from store.getApplication_total [OF inv, of a] store.getApplication [OF inv, of a]
  show "sqlite_look_app E a s = Some (v_apps (sqlite_view s) a)" by (auto simp: sqlite_look_app_def found_def)
next
  fix s n assume inv: "store_inv s"
  from store.getNamespace_total [OF inv, of n] store.getNamespace [OF inv, of n]
  show "sqlite_look_space E n s = Some (v_spaces (sqlite_view s) n)" by (auto simp: sqlite_look_space_def found_def)
qed

context reliable_engine
begin

lemmas sqlite_backend = backend.config_backend_axioms

text \<open>The foreign key on applications: a deletion that a namespace forbids throws.\<close>

lemma sqlite_refuses:
  assumes "store_inv s" and "in_app a (sqlite_view s) i"
  shows "sqlite_op E now (DeleteAppOp a) s = None"
proof -
  from assms(2) obtain n where "ns_map s i = Some n" "ns_app_id n = a"
    by (auto simp: in_app_def space_core_def split: option.splits)
  with store.deleteApplication [OF assms(1), of a] have "deleteApplication E a s \<noteq> (Inr b, t)" for b t by auto
  then show ?thesis by (auto simp: answered_def split: prod.splits sum.splits)
qed

end

end
