(* ===== verification/Backend_Mysql.thy ===== *)
theory Backend_Mysql
  imports Backend_View
begin

text \<open>
  The MySQL store as a backend. What it relies on is the locale \<open>mysql_tables\<close>: the meaning of its statements on
  the tables \<^verbatim>\<open>applications\<close>, \<^verbatim>\<open>namespaces\<close> and \<^verbatim>\<open>configs\<close>, with the foreign keys of \<^verbatim>\<open>autoMigrate\<close>, for a server
  that accepts them and a column collation that compares texts exactly. An instance reads the texts of the
  statements with the scanner of \<^verbatim>\<open>Mysql_Facts\<close>.
\<close>


section \<open>Statements\<close>

text \<open>
  What the statements mean for the tables: inserting a row with an existing key or without the row it
  refers to changes nothing, deleting a row deletes the rows that refer to it.
\<close>

fun accepted :: "stmt \<Rightarrow> view \<Rightarrow> bool" where
  "accepted (Q_InsertApplication a) V = (v_apps V (app_app_id a) = None)"
| "accepted (Q_InsertNamespace n) V = (v_spaces V (ns_id n) = None \<and> v_apps V (ns_app_id n) \<noteq> None)"
| "accepted (Q_InsertConfig n k v ts) V = (v_configs V (n, k) = None \<and> v_spaces V n \<noteq> None)"
| "accepted _ V = True"

fun stmt_effect :: "stmt \<Rightarrow> view \<Rightarrow> view" where
  "stmt_effect (Q_InsertApplication a) V =
     (if accepted (Q_InsertApplication a) V then V\<lparr>v_apps := (v_apps V)(app_app_id a \<mapsto> app_core a)\<rparr> else V)"
| "stmt_effect (Q_DeleteApplication a) V = drop_spaces (in_app a V) (V\<lparr>v_apps := (v_apps V)(a := None)\<rparr>)"
| "stmt_effect (Q_InsertNamespace n) V =
     (if accepted (Q_InsertNamespace n) V then V\<lparr>v_spaces := (v_spaces V)(ns_id n \<mapsto> space_core n)\<rparr> else V)"
| "stmt_effect (Q_DeleteNamespace n) V = drop_spaces (\<lambda>i. i = n) V"
| "stmt_effect (Q_InsertConfig n k v ts) V =
     (if accepted (Q_InsertConfig n k v ts) V then V\<lparr>v_configs := (v_configs V)((n, k) \<mapsto> (v, 1, ''draft''))\<rparr> else V)"
| "stmt_effect (Q_UpdateConfig n k v ver st ts) V =
     (if v_configs V (n, k) = None then V else V\<lparr>v_configs := (v_configs V)((n, k) \<mapsto> (v, ver, st))\<rparr>)"
| "stmt_effect (Q_DeleteConfig n k d) V =
     (case v_configs V (n, k) of None \<Rightarrow> V
      | Some (old, ver, st) \<Rightarrow> if d \<and> st \<noteq> ''draft'' then V else V\<lparr>v_configs := (v_configs V)((n, k) := None)\<rparr>)"
| "stmt_effect (Q_GoLive n) V = V\<lparr>v_configs :=
     (\<lambda>i. if fst i = n then map_option (\<lambda>(v, ver, st). (v, ver, ''live'')) (v_configs V i) else v_configs V i)\<rparr>"
| "stmt_effect _ V = V"

text \<open>The statements that the operations send; those on applications and namespaces report their success.\<close>

fun reported :: "stmt \<Rightarrow> bool" where
  "reported (Q_InsertApplication a) = True"
| "reported (Q_DeleteApplication a) = True"
| "reported (Q_InsertNamespace n) = True"
| "reported (Q_DeleteNamespace n) = True"
| "reported _ = False"

fun cfg_stmt :: "stmt \<Rightarrow> bool" where
  "cfg_stmt (Q_InsertApplication a) = stamp_ok (app_created_at a)"
| "cfg_stmt (Q_DeleteApplication a) = True"
| "cfg_stmt (Q_InsertNamespace n) = stamp_ok (ns_created_at n)"
| "cfg_stmt (Q_DeleteNamespace n) = True"
| "cfg_stmt (Q_InsertConfig n k v ts) = stamp_ok ts"
| "cfg_stmt (Q_UpdateConfig n k v ver st ts) = (int32 ver \<and> st \<in> {''draft'', ''live''} \<and> stamp_ok ts)"
| "cfg_stmt (Q_DeleteConfig n k d) = True"
| "cfg_stmt (Q_GoLive n) = True"
| "cfg_stmt (Q_InsertVersion ver cid v change op ts) = (change \<in> {''create'', ''update''} \<and> stamp_ok ts)"
| "cfg_stmt (Q_LogCreate cid n k v op ts) = stamp_ok ts"
| "cfg_stmt (Q_LogUpdate cid n k ver old v op ts) = stamp_ok ts"
| "cfg_stmt (Q_LogDelete cid n k op ts) = stamp_ok ts"
| "cfg_stmt (Q_InsertPublished n ver nt op ts) = stamp_ok ts"
| "cfg_stmt _ = False"

text \<open>The rows that a lookup returns: absent texts are empty, truth values are digits.\<close>

definition text_of :: "string option \<Rightarrow> string" where
  "text_of v = (case v of None \<Rightarrow> [] | Some s \<Rightarrow> s)"

definition app_row :: "string \<Rightarrow> string \<Rightarrow> string \<times> string option \<Rightarrow> string list" where
  "app_row ts a x = [a, fst x, text_of (snd x), ts]"

definition space_row :: "string \<Rightarrow> string \<Rightarrow> space \<Rightarrow> string list" where
  "space_row ts n x = [n, vs_app x, vs_env x, vs_cluster x, vs_name x, vs_type x, text_of (vs_parent x),
     (if vs_approval x then ''1'' else ''0''), ts]"

definition rows_of :: "('a \<Rightarrow> string list) \<Rightarrow> 'a option \<Rightarrow> string list list" where
  "rows_of f r = (case r of None \<Rightarrow> [] | Some x \<Rightarrow> [f x])"

definition current_row :: "string \<times> int \<times> string \<Rightarrow> string list" where
  "current_row x = (case x of (v, ver, st) \<Rightarrow> [to_string ver, v])"

definition config_cells :: "string \<Rightarrow> string \<Rightarrow> string \<Rightarrow> string \<Rightarrow> string \<times> int \<times> string \<Rightarrow> string list" where
  "config_cells ts us n k x = (case x of (v, ver, st) \<Rightarrow> [n, k, v, to_string ver, st, ts, us])"

text \<open>
  A server that keeps working: it executes these statements with their meaning (where the store ignores
  the result it is not constrained), and queries return the columns as texts.
\<close>

locale mysql_tables =
  fixes C :: "'m mysql_conn" and table :: "'m \<Rightarrow> view"
  assumes execs: "cfg_stmt st \<Longrightarrow> \<exists>b m'. exec C conn st m = (Inr b, m') \<and> table m' = stmt_effect st (table m) \<and>
      (reported st \<longrightarrow> b = accepted st (table m))"
    and selects_app: "\<exists>m' ts. query C conn (Q_SelectApplication a) m =
      (Inr (rows_of (app_row ts a) (v_apps (table m) a)), m') \<and> table m' = table m"
    and selects_space: "\<exists>m' ts. query C conn (Q_SelectNamespace n) m =
      (Inr (rows_of (space_row ts n) (v_spaces (table m) n)), m') \<and> table m' = table m"
    and selects_current: "\<exists>m'. query C conn (Q_SelectCurrent n k) m =
      (Inr (rows_of current_row (v_configs (table m) (n, k))), m') \<and> table m' = table m"
    and selects_config: "\<exists>m' ts us. query C conn (Q_SelectConfig n k) m =
      (Inr (rows_of (config_cells ts us n k) (v_configs (table m) (n, k))), m') \<and> table m' = table m"
    and selects_max: "\<exists>m' cell. query C conn (Q_SelectMaxVersion n) m = (Inr [[cell]], m') \<and> table m' = table m \<and>
      (cell = [] \<or> (\<exists>i. int32 i \<and> cell = to_string i))"
    and selects_id: "\<exists>m' i. query C conn Q_SelectLastId m = (Inr [[to_string i]], m') \<and> table m' = table m \<and>
      0 \<le> i \<and> i \<le> 9223372036854775807"
    and begins: "\<exists>b m'. mc_begin C conn m = (Inr b, m') \<and> table m' = table m"
    and commits: "\<exists>b m'. mc_commit C conn m = (Inr b, m') \<and> table m' = table m"

definition my_answered :: "(bool result \<times> 's) option \<Rightarrow> (bool \<times> 's) option" where
  "my_answered r = (case r of Some (Inr b, t) \<Rightarrow> Some (b, t) | _ \<Rightarrow> None)"

fun mysql_op :: "'m mysql_conn \<Rightarrow> string \<Rightarrow> backend_op \<Rightarrow> 'm my_state \<Rightarrow> (bool \<times> 'm my_state) option" where
  "mysql_op C now (CreateAppOp a) s = my_answered (my_createApplication C a s)"
| "mysql_op C now (DeleteAppOp a) s = my_answered (my_deleteApplication C a s)"
| "mysql_op C now (CreateSpaceOp n) s = my_answered (my_createNamespace C n s)"
| "mysql_op C now (DeleteSpaceOp n) s = my_answered (my_deleteNamespace C n s)"
| "mysql_op C now (CreateOp n k v op) s = my_answered (my_createConfig C now n k v op s)"
| "mysql_op C now (UpdateOp n k v op d) s = my_answered (my_updateConfig C now n k v op d s)"
| "mysql_op C now (DeleteOp n k op d) s = my_answered (my_deleteConfig C now n k op d s)"
| "mysql_op C now (PublishOp n nt op) s =
     my_answered (map_option (apfst (map_sum id fst)) (my_publishRelease C now n nt op default_Release s))"

definition my_found :: "('a \<Rightarrow> 'b) \<Rightarrow> ('a option result \<times> 's) option \<Rightarrow> 'b option option" where
  "my_found f r = (case r of Some (Inr x, _) \<Rightarrow> Some (map_option f x) | _ \<Rightarrow> None)"

definition mysql_look ::
  "'m mysql_conn \<Rightarrow> string \<Rightarrow> string \<Rightarrow> bool \<Rightarrow> 'm my_state \<Rightarrow> (string \<times> int \<times> string) option option" where
  "mysql_look C n k d s = my_found core (my_getConfig C n k d s)"

definition mysql_look_app :: "'m mysql_conn \<Rightarrow> string \<Rightarrow> 'm my_state \<Rightarrow> (string \<times> string option) option option" where
  "mysql_look_app C a s = my_found app_core (my_getApplication C a s)"

definition mysql_look_space :: "'m mysql_conn \<Rightarrow> string \<Rightarrow> 'm my_state \<Rightarrow> space option option" where
  "mysql_look_space C n s = my_found space_core (my_getNamespace C n s)"

text \<open>The MySQL store acknowledges a creation also when the key exists.\<close>

fun my_says :: "backend_op \<Rightarrow> view \<Rightarrow> bool" where
  "my_says (CreateOp n k v op) V = True"
| "my_says x V = says x V"

text \<open>Versions are 32-bit numbers, and absent texts are not stored as empty ones.\<close>

definition rows_ok :: "view \<Rightarrow> bool" where
  "rows_ok V \<longleftrightarrow> (\<forall>i v ver st. v_configs V i = Some (v, ver, st) \<longrightarrow> int32 ver) \<and>
     (\<forall>a x. v_apps V a = Some x \<longrightarrow> snd x \<noteq> Some []) \<and> (\<forall>n x. v_spaces V n = Some x \<longrightarrow> vs_parent x \<noteq> Some [])"

definition my_ok :: "('m \<Rightarrow> view) \<Rightarrow> 'm my_state \<Rightarrow> bool" where
  "my_ok table s \<longleftrightarrow> my_pool s \<noteq> [] \<and> rows_ok (table (my_server s))"

lemma rows_okD:
  "rows_ok V \<Longrightarrow> v_configs V i = Some (v, ver, st) \<Longrightarrow> int32 ver"
  "rows_ok V \<Longrightarrow> v_apps V a = Some x \<Longrightarrow> snd x \<noteq> Some []"
  "rows_ok V \<Longrightarrow> v_spaces V n = Some y \<Longrightarrow> vs_parent y \<noteq> Some []"
  unfolding rows_ok_def by blast+

lemma some_text_simps [simp]:
  "some_text v \<noteq> Some []" "some_text (nonempty (text_of v)) = some_text v" "v \<noteq> Some [] \<Longrightarrow> some_text v = v"
  by (cases v; auto simp: some_text_def nonempty_def text_of_def)+

text \<open>A row that is decoded is what was stored.\<close>

lemma decoded_space:
  assumes "vs_parent x \<noteq> Some []"
  shows "\<exists>m. row_namespace (space_row ts n x) = Inr m \<and> space_core m = x"
proof -
  obtain a e c nm ty p b where x: "x = \<lparr>vs_app = a, vs_env = e, vs_cluster = c, vs_name = nm, vs_type = ty,
      vs_parent = p, vs_approval = b\<rparr>" by (cases x) auto
  with assms show ?thesis
    by (cases p) (auto simp: row_namespace_def columns_def space_row_def space_core_def nonempty_def text_of_def some_text_def)
qed

lemma rows_ok_effect: "rows_ok V \<Longrightarrow> rows_ok (effect fk x V)"
  by (cases x) (auto simp: rows_ok_def int32_one drop_spaces_def app_core_def space_core_def Let_def
      split: option.splits if_splits)

lemma with_conn_returns:
  assumes "my_pool s = conn # rest" and "f conn (my_server s) = (Inr x, m)"
  shows "with_conn f s = Some (Inr x, \<lparr>my_pool = rest @ [conn], my_server = m\<rparr>)"
  using assms by (simp add: with_conn_def acquire_def release_def)

text \<open>\<open>ends m s Q\<close>: \<open>m\<close> returns from \<open>s\<close> without an exception, with a result and a state that satisfy \<open>Q\<close>.\<close>

definition ends :: "('s, 'a) io \<Rightarrow> 's \<Rightarrow> ('a \<Rightarrow> 's \<Rightarrow> bool) \<Rightarrow> bool" where
  "ends m s Q \<longleftrightarrow> (\<exists>x t. m s = (Inr x, t) \<and> Q x t)"

lemma ends_bind: "ends m s (\<lambda>x t. ends (f x) t Q) \<Longrightarrow> ends (bindE m f) s Q"
  by (auto simp: ends_def bindE_def)

lemma ends_then: "ends m s (\<lambda>_ t. ends k t Q) \<Longrightarrow> ends (thenE m k) s Q"
  unfolding thenE_def by (rule ends_bind)

lemma ends_ret: "Q x s \<Longrightarrow> ends (ret x) s Q"
  by (simp add: ends_def ret_def)

lemma ends_attempt: "ends m s (\<lambda>x t. Q (Inr x) t) \<Longrightarrow> ends (attemptE m) s Q"
  by (auto simp: ends_def attemptE_def)

lemma ends_catch: "ends m s Q \<Longrightarrow> ends (catchE m h) s Q"
  by (auto simp: ends_def catchE_def)

lemma ends_pure: "r = Inr x \<Longrightarrow> Q x s \<Longrightarrow> ends (\<lambda>s. (r, s)) s Q"
  by (simp add: ends_def)

lemma ends_mono: "ends m s Q \<Longrightarrow> (\<And>x t. Q x t \<Longrightarrow> R x t) \<Longrightarrow> ends m s R"
  by (auto simp: ends_def)

lemmas ends_rules = ends_bind ends_then ends_ret ends_attempt ends_catch

context mysql_tables
begin

lemma ends_exec:
  assumes "cfg_stmt st" and "\<And>b m'. table m' = stmt_effect st (table m) \<Longrightarrow>
    reported st \<longrightarrow> b = accepted st (table m) \<Longrightarrow> Q b m'"
  shows "ends (exec C conn st) m Q"
  unfolding ends_def using execs [OF assms(1), of conn m] assms(2) by blast

lemma ends_current:
  assumes "\<And>m'. table m' = table m \<Longrightarrow> Q (rows_of current_row (v_configs (table m) (n, k))) m'"
  shows "ends (query C conn (Q_SelectCurrent n k)) m Q"
  unfolding ends_def using selects_current [of conn n k m] assms by blast

lemma ends_txn:
  assumes "\<And>b m'. table m' = table m \<Longrightarrow> Q b m'"
  shows "ends (mc_begin C conn) m Q" "ends (mc_commit C conn) m Q"
  unfolding ends_def using begins [of conn m] commits [of conn m] assms by blast+

lemma ends_max:
  assumes "\<And>cell m'. table m' = table m \<Longrightarrow> cell = [] \<or> (\<exists>i. int32 i \<and> cell = to_string i) \<Longrightarrow> Q [[cell]] m'"
  shows "ends (query C conn (Q_SelectMaxVersion n)) m Q"
  unfolding ends_def using selects_max [of conn n m] assms by blast

lemma ends_last_id:
  assumes "\<And>i m'. table m' = table m \<Longrightarrow> Q i m'"
  shows "ends (last_id C conn old) m Q"
proof -
  from selects_id [of conn m] obtain m' i where "query C conn Q_SelectLastId m = (Inr [[to_string i]], m')"
    "table m' = table m" "0 \<le> i" "i \<le> 9223372036854775807" by blast
  with assms show ?thesis
    by (auto simp: ends_def last_id_def bindE_def stoll_def parse_to_string)
qed

lemma op_ends:
  assumes "my_ok table s"
    and "\<And>conn m. rows_ok (table m) \<Longrightarrow>
      ends (f conn) m (\<lambda>r m'. g r = my_says x (table m) \<and> table m' = effect True x (table m))"
  shows "\<exists>t. my_answered (map_option (apfst (map_sum id g)) (with_conn f s)) = Some (my_says x (table (my_server s)), t) \<and>
    my_ok table t \<and> table (my_server t) = effect True x (table (my_server s))"
proof -
  from assms(1) obtain conn rest where pool: "my_pool s = conn # rest" by (cases "my_pool s") (auto simp: my_ok_def)
  from assms have "ends (f conn) (my_server s)
      (\<lambda>r m'. g r = my_says x (table (my_server s)) \<and> table m' = effect True x (table (my_server s)))" by (simp add: my_ok_def)
  then obtain r m' where "f conn (my_server s) = (Inr r, m')" "g r = my_says x (table (my_server s))"
    "table m' = effect True x (table (my_server s))" by (auto simp: ends_def)
  with with_conn_returns [of s conn rest f r m', OF pool] assms(1) show ?thesis
    by (simp add: my_answered_def my_ok_def rows_ok_effect)
qed

lemma bool_op_ends:
  assumes "my_ok table s"
    and "\<And>conn m. rows_ok (table m) \<Longrightarrow>
      ends (f conn) m (\<lambda>r m'. r = my_says x (table m) \<and> table m' = effect True x (table m))"
  shows "\<exists>t. my_answered (with_conn f s) = Some (my_says x (table (my_server s)), t) \<and>
    my_ok table t \<and> table (my_server t) = effect True x (table (my_server s))"
proof -
  have "map_option (apfst (map_sum id (\<lambda>b. b))) (with_conn f s) = with_conn f s"
    by (cases "with_conn f s") (simp_all add: apfst_def map_prod_def sum.map_ident id_def)
  with op_ends [OF assms(1), where g = "\<lambda>b. b" and f = f and x = x] assms(2) show ?thesis by simp
qed

lemma create_ends:
  assumes "stamp_ok now"
  shows "ends (thenE (exec C conn (Q_InsertConfig n k v now))
      (thenE (exec C conn (Q_InsertVersion 1 cid v ''create'' op now))
      (thenE (exec C conn (Q_LogCreate cid n k v op now)) (ret True)))) m
    (\<lambda>r m'. r = my_says (CreateOp n k v op) (table m) \<and> table m' = effect True (CreateOp n k v op) (table m))"
  by (intro ends_rules ends_exec) (simp_all add: assms)

lemma delete_ends:
  assumes "stamp_ok now"
  shows "ends (thenE (exec C conn (Q_DeleteConfig n k d)) (thenE (exec C conn (Q_LogDelete cid n k op now)) (ret True))) m
    (\<lambda>r m'. r = my_says (DeleteOp n k op d) (table m) \<and> table m' = effect True (DeleteOp n k op d) (table m))"
  by (intro ends_rules ends_exec) (simp_all add: assms)

lemma update_ends:
  assumes "stamp_ok now" and "rows_ok (table m)"
  shows "ends (bindE (query C conn (Q_SelectCurrent n k)) (\<lambda>rows.
      case rows of
        [] \<Rightarrow> ret False
      | row # _ \<Rightarrow>
          bindE (\<lambda>s. (columns 2 row (stoi (row ! 0)), s)) (\<lambda>oldVersion.
            let oldValue = row ! 1; newVersion = wrap32 (oldVersion + 1);
                status = (if d then ''draft'' else ''live'')
            in thenE (exec C conn (Q_UpdateConfig n k v newVersion status now))
              (thenE (exec C conn (Q_InsertVersion newVersion cid v ''update'' op now))
              (thenE (exec C conn (Q_LogUpdate cid n k newVersion oldValue v op now))
              (ret True)))))) m
    (\<lambda>r m'. r = my_says (UpdateOp n k v op d) (table m) \<and> table m' = effect True (UpdateOp n k v op d) (table m))"
proof (cases "v_configs (table m) (n, k)")
  case None
  show ?thesis by (intro ends_rules ends_current) (simp add: None rows_of_def ends_ret)
next
  case (Some c)
  obtain w ver st where c: "c = (w, ver, st)" by (cases c) auto
  have ver: "stoi (to_string ver) = Inr ver"
    by (rule stoi_to_string) (rule rows_okD(1) [OF assms(2) Some [unfolded c]])
  show ?thesis
  proof (intro ends_bind ends_current, goal_cases)
    case (1 m1)
    then show ?case unfolding Some c rows_of_def current_row_def option.case prod.case list.case Let_def
      by (intro ends_bind ends_pure [where x = ver] ends_then ends_exec ends_ret)
        (simp_all add: columns_def ver assms Some c)
  qed
qed

lemma publish_ends:
  assumes "stamp_ok now"
  shows "ends (my_publish_body C conn now n nt op) m (\<lambda>_ m'. table m' = effect True (PublishOp n nt op) (table m))"
proof -
  have next_version: "\<exists>j. (if cell = [] then Inr 1 else map_sum id (\<lambda>v. wrap32 (v + 1)) (stoi cell)) = (Inr j :: int result)"
    if "cell = [] \<or> (\<exists>i. int32 i \<and> cell = to_string i)" for cell
    using that by (auto simp: stoi_to_string)
  show ?thesis unfolding my_publish_body_def Let_def
  proof (intro ends_then ends_exec ends_bind ends_max, goal_cases)
    case (2 b m1 cell m2)
    from next_version [OF 2(4)] obtain j where
      "(if cell = [] then Inr 1 else map_sum id (\<lambda>v. wrap32 (v + 1)) (stoi cell)) = (Inr j :: int result)" by blast
    then show ?case
      by (intro ends_pure [where x = j] ends_then ends_exec ends_bind ends_last_id ends_ret) (simp_all add: assms 2)
  qed simp
qed

end

context mysql_tables
begin

lemma lookup_returns:
  assumes "my_ok table s" and "\<And>conn. \<exists>rs m'. query C conn st (my_server s) = (Inr rs, m') \<and> P rs"
  obtains rs t where "with_conn (\<lambda>conn. query C conn st) s = Some (Inr rs, t)" and "P rs"
proof -
  from assms(1) obtain conn rest where pool: "my_pool s = conn # rest" by (cases "my_pool s") (auto simp: my_ok_def)
  from assms(2) obtain rs m' where "query C conn st (my_server s) = (Inr rs, m')" "P rs" by blast
  with with_conn_returns [of s conn rest "\<lambda>conn. query C conn st", OF pool] that show thesis by blast
qed

lemma look_seen:
  assumes "my_ok table s"
  shows "mysql_look C n k d s = Some (seen d (v_configs (table (my_server s)) (n, k)))"
proof -
  let ?r = "v_configs (table (my_server s)) (n, k)"
  obtain rs t where run: "with_conn (\<lambda>conn. query C conn (Q_SelectConfig n k)) s = Some (Inr rs, t)"
    and rs: "\<exists>ts us. rs = rows_of (config_cells ts us n k) ?r"
    using lookup_returns [OF assms, of "Q_SelectConfig n k" "\<lambda>rs. \<exists>ts us. rs = rows_of (config_cells ts us n k) ?r"]
      selects_config [of _ n k "my_server s"] by blast
  show ?thesis
  proof (cases ?r)
    case None
    with run rs show ?thesis
      by (auto simp: mysql_look_def my_found_def my_getConfig_def decoding_def seen_def rows_of_def)
  next
    case (Some c)
    obtain v ver st where c: "c = (v, ver, st)" by (cases c) auto
    with Some assms rows_okD(1) [of "table (my_server s)" "(n, k)" v ver st] have "int32 ver" by (simp add: my_ok_def)
    with run rs Some c show ?thesis
      by (auto simp: mysql_look_def my_found_def my_getConfig_def decoding_def seen_def rows_of_def config_cells_def
          row_config_def columns_def stoi_to_string core_def)
  qed
qed

lemma look_app_seen:
  assumes "my_ok table s"
  shows "mysql_look_app C a s = Some (v_apps (table (my_server s)) a)"
proof -
  let ?r = "v_apps (table (my_server s)) a"
  obtain rs t where run: "with_conn (\<lambda>conn. query C conn (Q_SelectApplication a)) s = Some (Inr rs, t)"
    and rs: "\<exists>ts. rs = rows_of (app_row ts a) ?r"
    using lookup_returns [OF assms, of "Q_SelectApplication a" "\<lambda>rs. \<exists>ts. rs = rows_of (app_row ts a) ?r"]
      selects_app [of _ a "my_server s"] by blast
  from assms rows_okD(2) [of "table (my_server s)" a] have "snd x \<noteq> Some []" if "?r = Some x" for x
    using that by (simp add: my_ok_def)
  with run rs show ?thesis
    by (cases ?r) (auto simp: mysql_look_app_def my_found_def my_getApplication_def decoding_def rows_of_def
        rows_first_def row_application_def columns_def app_row_def app_core_def)
qed

lemma look_space_seen:
  assumes "my_ok table s"
  shows "mysql_look_space C n s = Some (v_spaces (table (my_server s)) n)"
proof -
  let ?r = "v_spaces (table (my_server s)) n"
  obtain rs t where run: "with_conn (\<lambda>conn. query C conn (Q_SelectNamespace n)) s = Some (Inr rs, t)"
    and rs: "\<exists>ts. rs = rows_of (space_row ts n) ?r"
    using lookup_returns [OF assms, of "Q_SelectNamespace n" "\<lambda>rs. \<exists>ts. rs = rows_of (space_row ts n) ?r"]
      selects_space [of _ n "my_server s"] by blast
  show ?thesis
  proof (cases ?r)
    case None
    with run rs show ?thesis
      by (auto simp: mysql_look_space_def my_found_def my_getNamespace_def decoding_def rows_of_def rows_first_def)
  next
    case (Some x)
    from rs obtain ts where "rs = rows_of (space_row ts n) ?r" ..
    moreover from Some assms rows_okD(3) [of "table (my_server s)" n x]
    obtain m where "row_namespace (space_row ts n x) = Inr m" "space_core m = x"
      using decoded_space [of x ts n] by (auto simp: my_ok_def)
    ultimately show ?thesis using run Some
      by (simp add: mysql_look_space_def my_found_def my_getNamespace_def decoding_def rows_of_def rows_first_def)
  qed
qed

text \<open>The operations that are one statement.\<close>

lemma registry_ends:
  assumes "cfg_stmt st" and "reported st" and "\<And>V. accepted st V = my_says x V" and "\<And>V. stmt_effect st V = effect True x V"
  shows "ends (exec C conn st) m (\<lambda>r m'. r = my_says x (table m) \<and> table m' = effect True x (table m))"
  using assms by (intro ends_exec) simp_all

lemma publish_op_ends:
  assumes "stamp_ok now"
  shows "ends (thenE (mc_begin C conn) (bindE (attemptE (my_publish_body C conn now n nt op)) (\<lambda>published.
      case published of
        Inl _ \<Rightarrow> thenE (mc_rollback C conn) (ret (False, out))
      | Inr rel \<Rightarrow> catchE (thenE (mc_commit C conn) (ret (True, rel)))
          (thenE (mc_rollback C conn) (ret (False, rel)))))) m
    (\<lambda>r m'. fst r = my_says (PublishOp n nt op) (table m) \<and> table m' = effect True (PublishOp n nt op) (table m))"
proof (intro ends_then ends_txn ends_bind ends_attempt, goal_cases)
  case (1 b m1)
  show ?case
  proof (rule ends_mono [OF publish_ends [OF assms]], unfold sum.case)
    fix rel m2 assume "table m2 = effect True (PublishOp n nt op) (table m1)"
    with 1 show "ends (catchE (thenE (mc_commit C conn) (ret (True, rel)))
        (thenE (mc_rollback C conn) (ret (False, rel)))) m2
        (\<lambda>r m'. fst r = my_says (PublishOp n nt op) (table m) \<and> table m' = effect True (PublishOp n nt op) (table m))"
      by (intro ends_catch ends_then ends_txn ends_ret) simp
  qed
qed

end

sublocale mysql_tables \<subseteq>
  backend: config_backend "my_ok table" "\<lambda>s. table (my_server s)" True "\<lambda>_ _. True" my_says
    "mysql_op C" "mysql_look C" "mysql_look_app C" "mysql_look_space C"
proof
  fix s x now assume ok: "my_ok table s" and stamp: "stamps_ok now x"
  show "\<exists>t. mysql_op C now x s = Some (my_says x (table (my_server s)), t) \<and> my_ok table t \<and>
      table (my_server t) = effect True x (table (my_server s))"
  proof (cases x)
    case (CreateAppOp a)
    with stamp show ?thesis unfolding CreateAppOp mysql_op.simps my_createApplication_def
      by (intro bool_op_ends [OF ok] registry_ends) simp_all
  next
    case (DeleteAppOp a)
    then show ?thesis unfolding DeleteAppOp mysql_op.simps my_deleteApplication_def
      by (intro bool_op_ends [OF ok] registry_ends) simp_all
  next
    case (CreateSpaceOp n)
    with stamp show ?thesis unfolding CreateSpaceOp mysql_op.simps my_createNamespace_def
      by (intro bool_op_ends [OF ok] registry_ends) simp_all
  next
    case (DeleteSpaceOp n)
    then show ?thesis unfolding DeleteSpaceOp mysql_op.simps my_deleteNamespace_def
      by (intro bool_op_ends [OF ok] registry_ends) simp_all
  next
    case (CreateOp n k v op)
    with stamp show ?thesis unfolding CreateOp mysql_op.simps my_createConfig_def Let_def
      by (intro bool_op_ends [OF ok] create_ends) simp
  next
    case (UpdateOp n k v op d)
    with stamp show ?thesis unfolding UpdateOp mysql_op.simps my_updateConfig_def Let_def
      by (intro bool_op_ends [OF ok] update_ends [unfolded Let_def]) simp_all
  next
    case (DeleteOp n k op d)
    with stamp show ?thesis unfolding DeleteOp mysql_op.simps my_deleteConfig_def Let_def
      by (intro bool_op_ends [OF ok] delete_ends) simp
  next
    case (PublishOp n nt op)
    with stamp show ?thesis unfolding PublishOp mysql_op.simps my_publishRelease_def
      by (intro op_ends [OF ok] publish_op_ends) simp
  qed
next
  fix s n k d assume ok: "my_ok table s"
  show "mysql_look C n k d s = Some (seen d (v_configs (table (my_server s)) (n, k)))" by (rule look_seen [OF ok])
next
  fix s a assume ok: "my_ok table s"
  show "mysql_look_app C a s = Some (v_apps (table (my_server s)) a)" by (rule look_app_seen [OF ok])
next
  fix s n assume ok: "my_ok table s"
  show "mysql_look_space C n s = Some (v_spaces (table (my_server s)) n)" by (rule look_space_seen [OF ok])
qed

context mysql_tables
begin

lemmas mysql_backend = backend.config_backend_axioms

end

end
