(* ===== verification/Backend_Server.thy ===== *)
theory Backend_Server
  imports Backend_Mysql
begin

text \<open>
  A MySQL server in small: it reads the texts of the statements with the scanner of \<^verbatim>\<open>Mysql_Facts\<close>, recognises
  them by their skeletons, and executes them on a view. It satisfies the laws of \<open>mysql_tables\<close>.
\<close>


section \<open>Reading statements\<close>

text \<open>The skeleton of a text and the values of its literals, computed.\<close>

lemma ref_scan_shorter: "ref_scan s = Some (v, r) \<Longrightarrow> length r < length s"
  by (induction s arbitrary: v r rule: ref_scan.induct) (fastforce split: if_splits)+

function read_sql :: "string \<Rightarrow> (string \<times> string list) option" where
  "read_sql [] = Some ([], [])"
| "read_sql (c # s) =
     (if c = quote
      then (case ref_scan s of None \<Rightarrow> None
            | Some (v, r) \<Rightarrow> map_option (\<lambda>(k, vs). (quote # k, v # vs)) (read_sql r))
      else map_option (\<lambda>(k, vs). (c # k, vs)) (read_sql s))"
  by pat_completeness auto
termination by (relation "measure length") (auto dest: ref_scan_shorter)

lemma read_reads: "reads ref_scan s k vs \<Longrightarrow> read_sql s = Some (k, vs)"
  by (induction rule: reads.induct) auto

lemma read_stmt: "stmt_ok st \<Longrightarrow> read_sql (sql_of st) = Some (skeleton (pieces st), values_of (pieces st))"
  unfolding sql_of_def by (rule read_reads [OF lit.reads_render [OF pieces_safe]])

fun strip :: "string \<Rightarrow> string \<Rightarrow> string option" where
  "strip [] s = Some s"
| "strip (p # ps) [] = None"
| "strip (p # ps) (c # s) = (if p = c then strip ps s else None)"

lemma strip_append [simp]: "strip p (p @ s) = Some s"
  by (induction p) simp_all

definition update_prefix :: string where
  "update_prefix = ''UPDATE configs SET value = '' @ [quote] @ '', version = ''"

definition new_version :: "string \<Rightarrow> int option" where
  "new_version k =
     (case strip update_prefix k of None \<Rightarrow> None
      | Some r \<Rightarrow> (case stoi (takeWhile (\<lambda>c. c \<noteq> CHR '','') r) of Inr ver \<Rightarrow> Some ver | Inl _ \<Rightarrow> None))"

text \<open>
  The values of a new application or namespace: the description and the parent may be absent, and the
  approval flag is part of the skeleton.
\<close>

definition app_values :: "bool \<Rightarrow> string list \<Rightarrow> Application" where
  "app_values described vs = \<lparr>app_app_id = vs ! 0, app_name = vs ! 1,
     app_description = (if described then Some (vs ! 2) else None),
     app_created_at = vs ! (if described then 3 else 2)\<rparr>"

definition space_values :: "bool \<Rightarrow> bool \<Rightarrow> string list \<Rightarrow> Namespace" where
  "space_values child approval vs = \<lparr>ns_id = vs ! 0, ns_app_id = vs ! 1, ns_env = vs ! 2, ns_cluster = vs ! 3,
     ns_name = vs ! 4, ns_type = vs ! 5, ns_parent_namespace_id = (if child then Some (vs ! 6) else None),
     ns_approval_enabled = Some approval, ns_created_at = vs ! (if child then 7 else 6)\<rparr>"

definition frame :: "stmt \<Rightarrow> string" where
  "frame st = skeleton (pieces st)"

definition blank_app :: "bool \<Rightarrow> Application" where
  "blank_app described = app_values described [[], [], [], []]"

definition blank_space :: "bool \<Rightarrow> bool \<Rightarrow> Namespace" where
  "blank_space child approval = space_values child approval [[], [], [], [], [], [], [], []]"

definition read_stmt_text :: "string \<Rightarrow> string list \<Rightarrow> stmt option" where
  "read_stmt_text k vs =
     (if k = frame (Q_InsertApplication (blank_app True)) then Some (Q_InsertApplication (app_values True vs))
      else if k = frame (Q_InsertApplication (blank_app False)) then Some (Q_InsertApplication (app_values False vs))
      else if k = frame (Q_DeleteApplication []) then Some (Q_DeleteApplication (vs ! 0))
      else if k = frame (Q_InsertNamespace (blank_space True True)) then Some (Q_InsertNamespace (space_values True True vs))
      else if k = frame (Q_InsertNamespace (blank_space True False)) then Some (Q_InsertNamespace (space_values True False vs))
      else if k = frame (Q_InsertNamespace (blank_space False True)) then Some (Q_InsertNamespace (space_values False True vs))
      else if k = frame (Q_InsertNamespace (blank_space False False)) then Some (Q_InsertNamespace (space_values False False vs))
      else if k = frame (Q_DeleteNamespace []) then Some (Q_DeleteNamespace (vs ! 0))
      else if k = frame (Q_InsertConfig [] [] [] []) then Some (Q_InsertConfig (vs ! 0) (vs ! 1) (vs ! 2) [])
      else if k = frame (Q_DeleteConfig [] [] False) then Some (Q_DeleteConfig (vs ! 0) (vs ! 1) False)
      else if k = frame (Q_DeleteConfig [] [] True) then Some (Q_DeleteConfig (vs ! 0) (vs ! 1) True)
      else if k = frame (Q_GoLive []) then Some (Q_GoLive (vs ! 1))
      else map_option (\<lambda>ver. Q_UpdateConfig (vs ! 3) (vs ! 4) (vs ! 0) ver (vs ! 1) []) (new_version k))"

definition text_rows :: "string \<Rightarrow> string list \<Rightarrow> view \<Rightarrow> string list list" where
  "text_rows k vs V =
     (if k = frame (Q_SelectApplication []) then rows_of (app_row [] (vs ! 0)) (v_apps V (vs ! 0))
      else if k = frame (Q_SelectNamespace []) then rows_of (space_row [] (vs ! 0)) (v_spaces V (vs ! 0))
      else if k = frame (Q_SelectCurrent [] []) then rows_of current_row (v_configs V (vs ! 0, vs ! 1))
      else if k = frame (Q_SelectConfig [] []) then
        rows_of (config_cells [] [] (vs ! 0) (vs ! 1)) (v_configs V (vs ! 0, vs ! 1))
      else if k = frame (Q_SelectMaxVersion []) then [[[]]]
      else if k = frame Q_SelectLastId then [[to_string 1]]
      else [])"

definition ref_server :: "view mysql_conn" where
  "ref_server = \<lparr>
     mc_connect = (\<lambda>_ _. ret True),
     mc_execute = (\<lambda>_ sql V.
       case read_sql sql of None \<Rightarrow> (Inr False, V)
       | Some (k, vs) \<Rightarrow> (case read_stmt_text k vs of None \<Rightarrow> (Inr True, V)
           | Some st \<Rightarrow> (Inr (accepted st V), stmt_effect st V))),
     mc_query = (\<lambda>_ sql V. (Inr (case read_sql sql of None \<Rightarrow> [] | Some (k, vs) \<Rightarrow> text_rows k vs V), V)),
     mc_begin = (\<lambda>_. ret True), mc_commit = (\<lambda>_. ret True), mc_rollback = (\<lambda>_. ret True),
     mc_isConnected = (\<lambda>_. ret True), mc_close = (\<lambda>_. ret ())\<rparr>"

lemma new_version_update:
  assumes "int32 ver"
  shows "new_version (skeleton (pieces (Q_UpdateConfig n k v ver st ts))) = Some ver"
proof -
  have "CHR '','' \<notin> set (to_string ver)" by (rule digits_no_sep) (simp_all add: is_digit_def)
  then have "takeWhile (\<lambda>c. c \<noteq> CHR '','') (to_string ver @ CHR '','' # r) = to_string ver" for r
    by (subst takeWhile_append2) auto
  moreover have "skeleton (pieces (Q_UpdateConfig n k v ver st ts)) = update_prefix @ to_string ver @ CHR '','' #
      '' status = '' @ quote # '', updated_at = '' @ quote # '' WHERE namespace_id = '' @ quote # '' AND `key` = '' @ [quote]"
    by (simp add: update_prefix_def num_def)
  ultimately show ?thesis by (simp add: new_version_def stoi_to_string [OF assms])
qed

text \<open>A statement is read as one that does the same.\<close>

definition same_stmt :: "stmt \<Rightarrow> stmt option \<Rightarrow> bool" where
  "same_stmt st r = (case r of None \<Rightarrow> \<not> reported st \<and> (\<forall>V. stmt_effect st V = V)
     | Some st' \<Rightarrow> (\<forall>V. stmt_effect st' V = stmt_effect st V \<and> accepted st' V = accepted st V))"

lemmas frame_simps = frame_def read_stmt_text_def same_stmt_def num_def opt_lit_def blank_app_def blank_space_def
  app_values_def space_values_def

lemma read_app: "same_stmt (Q_InsertApplication a)
    (read_stmt_text (frame (Q_InsertApplication a)) (values_of (pieces (Q_InsertApplication a))))"
  by (cases "app_description a") (simp_all add: frame_simps app_core_def)

lemma read_space: "same_stmt (Q_InsertNamespace n)
    (read_stmt_text (frame (Q_InsertNamespace n)) (values_of (pieces (Q_InsertNamespace n))))"
  by (cases "ns_parent_namespace_id n"; cases "ns_approval_enabled n = Some True")
    (simp_all add: frame_simps space_core_def)

lemma read_same:
  assumes "cfg_stmt st"
  shows "same_stmt st (read_stmt_text (frame st) (values_of (pieces st)))"
proof (cases st)
  case (Q_InsertApplication a)
  show ?thesis unfolding Q_InsertApplication by (rule read_app)
next
  case (Q_InsertNamespace n)
  show ?thesis unfolding Q_InsertNamespace by (rule read_space)
next
  case (Q_UpdateConfig n k v ver status ts)
  with assms new_version_update [of ver n k v status ts] show ?thesis
    by (simp add: frame_simps)
next
  case (Q_DeleteConfig n k d)
  then show ?thesis by (cases d) (simp_all add: frame_simps)
qed (use assms in \<open>simp_all add: frame_simps new_version_def update_prefix_def\<close>)

lemma cfg_stmt_ok: "cfg_stmt st \<Longrightarrow> stmt_ok st"
  by (cases st) (auto simp: stamp_ok_def)

lemma ref_query: "stmt_ok st \<Longrightarrow> query ref_server conn st V = (Inr (text_rows (frame st) (values_of (pieces st)) V), V)"
  by (simp add: query_def ref_server_def read_stmt frame_def)

lemma ref_exec:
  assumes "cfg_stmt st"
  shows "\<exists>b. exec ref_server conn st V = (Inr b, stmt_effect st V) \<and> (reported st \<longrightarrow> b = accepted st V)"
  using read_same [OF assms]
  by (auto simp: exec_def ref_server_def read_stmt [OF cfg_stmt_ok [OF assms]] same_stmt_def frame_def split: option.splits)

interpretation ref_tables: mysql_tables ref_server "\<lambda>V. V"
proof
  fix st conn V assume "cfg_stmt st"
  from ref_exec [OF this, of conn V] show "\<exists>b m'. exec ref_server conn st V = (Inr b, m') \<and> m' = stmt_effect st V \<and>
      (reported st \<longrightarrow> b = accepted st V)" by blast
next
  fix conn a V
  show "\<exists>m' ts. query ref_server conn (Q_SelectApplication a) V = (Inr (rows_of (app_row ts a) (v_apps V a)), m') \<and> m' = V"
    by (rule exI [of _ V], rule exI [of _ "[]"]) (simp add: ref_query text_rows_def frame_def)
next
  fix conn n V
  show "\<exists>m' ts. query ref_server conn (Q_SelectNamespace n) V = (Inr (rows_of (space_row ts n) (v_spaces V n)), m') \<and> m' = V"
    by (rule exI [of _ V], rule exI [of _ "[]"]) (simp add: ref_query text_rows_def frame_def namespace_columns_def)
next
  fix conn n k V
  show "\<exists>m'. query ref_server conn (Q_SelectCurrent n k) V = (Inr (rows_of current_row (v_configs V (n, k))), m') \<and> m' = V"
    by (simp add: ref_query text_rows_def frame_def namespace_columns_def)
  show "\<exists>m' ts us. query ref_server conn (Q_SelectConfig n k) V =
      (Inr (rows_of (config_cells ts us n k) (v_configs V (n, k))), m') \<and> m' = V"
    by (rule exI [of _ V], rule exI [of _ "[]"], rule exI [of _ "[]"])
      (simp add: ref_query text_rows_def frame_def namespace_columns_def config_columns_def)
  show "\<exists>m' cell. query ref_server conn (Q_SelectMaxVersion n) V = (Inr [[cell]], m') \<and> m' = V \<and>
      (cell = [] \<or> (\<exists>i. int32 i \<and> cell = to_string i))"
    by (simp add: ref_query text_rows_def frame_def namespace_columns_def config_columns_def)
  show "\<exists>m' i. query ref_server conn Q_SelectLastId V = (Inr [[to_string i]], m') \<and> m' = V \<and>
      0 \<le> i \<and> i \<le> 9223372036854775807"
    by (rule exI [of _ V], rule exI [of _ 1]) (simp add: ref_query text_rows_def frame_def namespace_columns_def config_columns_def)
qed (auto simp: ref_server_def ret_def)

end
