(* ===== verification/Backend_Agreement.thy ===== *)
theory Backend_Agreement
  imports Backend_Sqlite Backend_Server
begin

text \<open>
  The two implementations of \<^verbatim>\<open>ConfigStore\<close> side by side: where \<^verbatim>\<open>Backend_Sqlite\<close> and \<^verbatim>\<open>Backend_Mysql\<close> give the same
  effects, and where the foreign keys of the MySQL schema part them.
\<close>

lemma stamp_delete: "stamp_ok now \<Longrightarrow> stamps_ok now (DeleteAppOp a) \<and> stamps_ok now (DeleteSpaceOp n)"
  by simp

text \<open>What a deletion does to a namespace with configs, and to an application with namespaces, on MySQL.\<close>

context mysql_tables
begin

lemma delete_space_cascades:
  assumes "my_ok table u" and "stamp_ok now"
  shows "\<exists>u'. mysql_op C now (DeleteSpaceOp n) u = Some (True, u') \<and> mysql_look C n k d u' = Some None"
proof -
  from backend.run_op [OF assms(1), of now "DeleteSpaceOp n"] assms(2) obtain u' where
    u': "mysql_op C now (DeleteSpaceOp n) u = Some (True, u')" "my_ok table u'"
      "table (my_server u') = effect True (DeleteSpaceOp n) (table (my_server u))" by auto
  from backend.look_op [OF u'(2), of n k d] u' show ?thesis by (auto simp: drop_spaces_def seen_def)
qed

lemma delete_app_cascades:
  assumes "my_ok table u" and "stamp_ok now" and "in_app a (table (my_server u)) i"
  shows "\<exists>u'. mysql_op C now (DeleteAppOp a) u = Some (True, u') \<and> mysql_look_space C i u' = Some None"
proof -
  from backend.run_op [OF assms(1), of now "DeleteAppOp a"] assms(2) obtain u' where
    u': "mysql_op C now (DeleteAppOp a) u = Some (True, u')" "my_ok table u'"
      "table (my_server u') = effect True (DeleteAppOp a) (table (my_server u))" by auto
  from backend.look_space_op [OF u'(2), of i] u' assms(3) show ?thesis by (auto simp: drop_spaces_def Let_def)
qed

end

context reliable_engine
begin

lemma delete_space_keeps:
  assumes "store_inv s" and "stamp_ok now"
  shows "\<exists>s'. sqlite_op E now (DeleteSpaceOp n) s = Some (True, s') \<and>
    sqlite_look E n k d s' = Some (seen d (v_configs (sqlite_view s) (n, k)))"
proof -
  from backend.run_op [OF assms(1), of now "DeleteSpaceOp n"] assms(2) obtain s' where
    s': "sqlite_op E now (DeleteSpaceOp n) s = Some (True, s')" "store_inv s'"
      "sqlite_view s' = effect False (DeleteSpaceOp n) (sqlite_view s)" by auto
  from backend.look_op [OF s'(2), of n k d] s' show ?thesis by simp
qed

end


section \<open>Properties\<close>


text \<open>
  The example: an application with an empty description, a namespace in it, a key created twice, published,
  and edited; then both are deleted.
\<close>

definition demo_app :: Application where
  "demo_app = \<lparr>app_app_id = ''shop'', app_name = ''Shop'', app_description = Some [], app_created_at = ''t0''\<rparr>"

definition demo_space :: Namespace where
  "demo_space = default_Namespace\<lparr>ns_id := ''ns'', ns_app_id := ''shop'', ns_name := ''application'',
     ns_created_at := ''t0''\<rparr>"

definition demo_ops :: "(string \<times> backend_op) list" where
  "demo_ops = [(''t0'', CreateAppOp demo_app), (''t0'', CreateSpaceOp demo_space),
     (''t1'', CreateOp ''ns'' ''k'' ''v1'' ''bob''), (''t2'', CreateOp ''ns'' ''k'' ''v2'' ''eve''),
     (''t3'', PublishOp ''ns'' [] ''bob''), (''t4'', UpdateOp ''ns'' ''k'' ''v3'' ''bob'' True)]"

definition empty_view :: view where
  "empty_view = \<lparr>v_apps = Map.empty, v_spaces = Map.empty, v_configs = Map.empty\<rparr>"

lemma demo_ops_facts:
  "legal plain True demo_ops empty_view"
  "answers says True demo_ops empty_view = [True, True, True, False, True, True]"
  "answers my_says True demo_ops empty_view = [True, True, True, True, True, True]"
  "v_configs (fold (effect True \<circ> snd) demo_ops empty_view) (''ns'', ''k'') = Some (''v3'', 2, ''draft'')"
  "v_apps (fold (effect True \<circ> snd) demo_ops empty_view) ''shop'' = Some (''Shop'', None)"
  "in_app ''shop'' (fold (effect True \<circ> snd) demo_ops empty_view) ''ns''"
  by (simp_all add: demo_ops_def demo_app_def demo_space_def default_Namespace_def empty_view_def app_core_def
      space_core_def some_text_def nonempty_def in_app_def wrap32_def stamp_ok_def)


end
