(* ===== verification/Mysql_Calls.thy ===== *)
theory Mysql_Calls
  imports Mysql_Facts "HOL-Library.Multiset"
begin

text \<open>
  The class \<^verbatim>\<open>MysqlConfigStore\<close> (\<^verbatim>\<open>include/config-center/storage/mysql_config_store.h\<close>) as its callers use it: one
  constructor of \<open>my_call\<close> per virtual function, their dispatch, and what any sequence of calls does to
  the connections of the pool.
\<close>


section \<open>The virtual functions\<close>

datatype my_call =
    HealthCheck
  | CreateApplication Application
  | GetApplication string
  | ListApplications
  | DeleteApplication string
  | CreateNamespace Namespace
  | GetNamespace string
  | ListNamespaces string string string
  | DeleteNamespace string
  | CreateConfig string string string string
  | UpdateConfig string string string string bool
  | DeleteConfig string string string bool
  | GetConfig string string bool
  | ListConfigs string bool
  | GetConfigVersions string string
  | GetConfigVersion string string int
  | RollbackConfig string string int string
  | GetChangeHistory ChangeLogQuery
  | CreateRelease Release
  | GetReleases ReleaseQuery
  | GetRelease int
  | RetireRelease int
  | PublishRelease string string string Release
  | CreateApproval Approval
  | UpdateApprovalStatus int string string
  | GetPendingApprovals string
  | CreateUser User
  | GetUserByUsername string
  | ListUsers
  | BeginTransaction
  | CommitTransaction
  | RollbackTransaction

text \<open>The values they return, an out-parameter with the \<^verbatim>\<open>bool\<close>.\<close>

datatype my_reply =
    Said bool
  | SaidApplication "Application option"
  | SaidApplications "Application list"
  | SaidNamespace "Namespace option"
  | SaidNamespaces "Namespace list"
  | SaidConfig "ConfigKey option"
  | SaidConfigs "ConfigKey list"
  | SaidVersion "ConfigVersion option"
  | SaidVersions "ConfigVersion list"
  | SaidHistory "ChangeLog list"
  | SaidOutRelease bool Release
  | SaidRelease "Release option"
  | SaidReleases "Release list"
  | SaidOutApproval bool Approval
  | SaidApprovals "Approval list"
  | SaidUser "User option"
  | SaidUsers "User list"

definition saying :: "('a \<Rightarrow> 'b) \<Rightarrow> ('m, 'a) my_op \<Rightarrow> ('m, 'b) my_op" where
  "saying f m s = map_option (\<lambda>(r, t). (map_sum id f r, t)) (m s)"

fun my_run :: "'m mysql_conn \<Rightarrow> string \<Rightarrow> my_call \<Rightarrow> ('m, my_reply) my_op" where
  "my_run C now HealthCheck = saying Said (my_healthCheck C)"
| "my_run C now (CreateApplication a) = saying Said (my_createApplication C a)"
| "my_run C now (GetApplication i) = saying SaidApplication (my_getApplication C i)"
| "my_run C now ListApplications = saying SaidApplications (my_listApplications C)"
| "my_run C now (DeleteApplication i) = saying Said (my_deleteApplication C i)"
| "my_run C now (CreateNamespace ns) = saying Said (my_createNamespace C ns)"
| "my_run C now (GetNamespace i) = saying SaidNamespace (my_getNamespace C i)"
| "my_run C now (ListNamespaces a e c) = saying SaidNamespaces (my_listNamespaces C a e c)"
| "my_run C now (DeleteNamespace i) = saying Said (my_deleteNamespace C i)"
| "my_run C now (CreateConfig n k v op) = saying Said (my_createConfig C now n k v op)"
| "my_run C now (UpdateConfig n k v op d) = saying Said (my_updateConfig C now n k v op d)"
| "my_run C now (DeleteConfig n k op d) = saying Said (my_deleteConfig C now n k op d)"
| "my_run C now (GetConfig n k d) = saying SaidConfig (my_getConfig C n k d)"
| "my_run C now (ListConfigs n d) = saying SaidConfigs (my_listConfigs C n d)"
| "my_run C now (GetConfigVersions n k) = saying SaidVersions (my_getConfigVersions C n k)"
| "my_run C now (GetConfigVersion n k i) = saying SaidVersion (my_getConfigVersion C n k i)"
| "my_run C now (RollbackConfig n k i op) = saying Said (my_rollbackConfig C now n k i op)"
| "my_run C now (GetChangeHistory q) = saying SaidHistory (my_getChangeHistory C q)"
| "my_run C now (CreateRelease r) = saying (case_prod SaidOutRelease) (my_createRelease C now r)"
| "my_run C now (GetReleases q) = saying SaidReleases (my_getReleases C q)"
| "my_run C now (GetRelease i) = saying SaidRelease (my_getRelease C i)"
| "my_run C now (RetireRelease i) = saying Said (my_retireRelease C i)"
| "my_run C now (PublishRelease n nt op r) = saying (case_prod SaidOutRelease) (my_publishRelease C now n nt op r)"
| "my_run C now (CreateApproval a) = saying (case_prod SaidOutApproval) (my_createApproval C now a)"
| "my_run C now (UpdateApprovalStatus i st cm) = saying Said (my_updateApprovalStatus C now i st cm)"
| "my_run C now (GetPendingApprovals n) = saying SaidApprovals (my_getPendingApprovals C n)"
| "my_run C now (CreateUser u) = saying Said (my_createUser C u)"
| "my_run C now (GetUserByUsername n) = saying SaidUser (my_getUserByUsername C n)"
| "my_run C now ListUsers = saying SaidUsers (my_listUsers C)"
| "my_run C now BeginTransaction = saying Said (my_beginTransaction C)"
| "my_run C now CommitTransaction = saying Said (my_commitTransaction C)"
| "my_run C now RollbackTransaction = saying Said (my_rollbackTransaction C)"

text \<open>
  Calls of one thread, each at a time of its own, until one waits: the answers and exceptions of those
  that ended, and the store then.
\<close>

fun my_calls ::
  "'m mysql_conn \<Rightarrow> (string \<times> my_call) list \<Rightarrow> 'm my_state \<Rightarrow> my_reply result list \<times> 'm my_state" where
  "my_calls C [] s = ([], s)"
| "my_calls C ((now, c) # cs) s =
     (case my_run C now c s of
        None \<Rightarrow> ([], s)
      | Some (r, t) \<Rightarrow> (case my_calls C cs t of (rs, u) \<Rightarrow> (r # rs, u)))"


section \<open>What an operation does to the pool\<close>

text \<open>Connections only leave the pool, and at most \<open>n\<close> of them.\<close>

definition drops :: "nat \<Rightarrow> 'm my_state \<Rightarrow> 'm my_state \<Rightarrow> bool" where
  "drops n s t \<longleftrightarrow> mset (my_pool t) \<subseteq># mset (my_pool s) \<and> length (my_pool s) \<le> length (my_pool t) + n"

fun throws :: "'a result \<Rightarrow> nat" where
  "throws (Inl _) = 1"
| "throws (Inr _) = 0"

definition gives_back :: "('m, 'a) my_op \<Rightarrow> bool" where
  "gives_back m \<longleftrightarrow> (\<forall>s. (m s = None) = (my_pool s = [])) \<and> (\<forall>s r t. m s = Some (r, t) \<longrightarrow> drops (throws r) s t)"

definition loses_one :: "('m, 'a) my_op \<Rightarrow> bool" where
  "loses_one m \<longleftrightarrow> (\<forall>s. (m s = None) = (my_pool s = [])) \<and>
     (\<forall>s r t. m s = Some (r, t) \<longrightarrow> drops 1 s t \<and> length (my_pool s) = Suc (length (my_pool t)))"

lemma drops_refl [simp]: "drops n s s"
  by (simp add: drops_def)

lemma drops_trans: "drops i s t \<Longrightarrow> drops j t u \<Longrightarrow> drops (i + j) s u"
  by (auto simp: drops_def intro: subset_mset.order_trans)

lemma drops_mono: "drops i s t \<Longrightarrow> i \<le> j \<Longrightarrow> drops j s t"
  by (simp add: drops_def)

lemma drops_0: "drops 0 s t \<longleftrightarrow> mset (my_pool t) = mset (my_pool s)"
proof
  assume "drops 0 s t"
  then show "mset (my_pool t) = mset (my_pool s)"
    by (metis add.right_neutral drops_def le_antisym size_mset size_mset_mono mset_subset_size
        subset_mset.le_less nat_less_le)
qed (metis drops_def mset_eq_length order_refl subset_mset.order_refl add.right_neutral)

lemma gives_backI:
  "(\<And>s. (m s = None) = (my_pool s = [])) \<Longrightarrow> (\<And>s r t. m s = Some (r, t) \<Longrightarrow> drops (throws r) s t) \<Longrightarrow> gives_back m"
  by (simp add: gives_back_def)

lemma gives_backD:
  assumes "gives_back m"
  shows "m s = None \<longleftrightarrow> my_pool s = []" and "m s = Some (r, t) \<Longrightarrow> drops (throws r) s t"
  using assms by (auto simp: gives_back_def)

lemma gives_back_Inr:
  assumes "gives_back m" and "m s = Some (Inr x, t)"
  shows "drops 0 s t" and "my_pool t \<noteq> []"
proof -
  from gives_backD(2) [OF assms] show kept: "drops 0 s t" by simp
  from gives_backD(1) [OF assms(1), of s] assms(2) have "my_pool s \<noteq> []" by simp
  with kept show "my_pool t \<noteq> []" by (metis drops_0 mset_zero_iff)
qed

lemma throws_map_sum [simp]: "throws (map_sum id f r) = throws r"
  by (cases r) simp_all

lemma gives_back_with_conn: "gives_back (with_conn f)"
  by (auto simp: gives_back_def with_conn_def acquire_def release_def drops_def
      split: list.splits prod.splits sum.splits)

lemma loses_one_keep_conn: "loses_one (keep_conn f)"
  by (auto simp: loses_one_def keep_conn_def acquire_def drops_def split: list.splits prod.splits)

lemma gives_back_saying: "gives_back m \<Longrightarrow> gives_back (saying f m)"
  by (auto simp: gives_back_def saying_def)

lemma loses_one_saying: "loses_one m \<Longrightarrow> loses_one (saying f m)"
  by (auto simp: loses_one_def saying_def)

lemma gives_back_decoding:
  assumes m: "gives_back m"
  shows "gives_back (decoding f m)"
proof (rule gives_backI)
  show "decoding f m s = None \<longleftrightarrow> my_pool s = []" for s
    using gives_backD(1) [OF m, of s] by (auto simp: decoding_def split: option.splits sum.splits)
next
  fix s r t assume "decoding f m s = Some (r, t)"
  then consider e where "m s = Some (Inl e, t)" "r = Inl e" | x where "m s = Some (Inr x, t)"
    by (auto simp: decoding_def split: option.splits sum.splits)
  then show "drops (throws r) s t"
    by cases (use gives_backD(2) [OF m] gives_back_Inr(1) [OF m] drops_mono in fastforce)+
qed

lemma gives_back_bind:
  assumes m: "gives_back m"
    and f: "\<And>x s. f x s = None \<Longrightarrow> my_pool s = []" "\<And>x s r t. f x s = Some (r, t) \<Longrightarrow> drops (throws r) s t"
  shows "gives_back (bind_my m f)"
proof (rule gives_backI)
  show "bind_my m f s = None \<longleftrightarrow> my_pool s = []" for s
    using gives_backD(1) [OF m, of s] gives_back_Inr(2) [OF m, of s] f(1)
    by (auto simp: bind_my_def split: option.splits sum.splits)
next
  fix s r t assume "bind_my m f s = Some (r, t)"
  then consider e where "m s = Some (Inl e, t)" "r = Inl e" | x u where "m s = Some (Inr x, u)" "f x u = Some (r, t)"
    by (auto simp: bind_my_def split: option.splits sum.splits)
  then show "drops (throws r) s t"
  proof cases
    case 1
    then show ?thesis using gives_backD(2) [OF m, of s] by simp
  next
    case 2
    then show ?thesis using drops_trans [OF gives_back_Inr(1) [OF m] f(2)] by simp
  qed
qed

lemma gives_back_updates:
  "gives_back (autoMigrate C)"
  "gives_back (my_healthCheck C)"
  "gives_back (my_createApplication C a)"
  "gives_back (my_deleteApplication C i)"
  "gives_back (my_createNamespace C ns)"
  "gives_back (my_deleteNamespace C i)"
  "gives_back (my_createConfig C now n k v op)"
  "gives_back (my_updateConfig C now n k v op d)"
  "gives_back (my_deleteConfig C now n k op d)"
  "gives_back (my_createRelease C now r)"
  "gives_back (my_retireRelease C j)"
  "gives_back (my_publishRelease C now n nt op r)"
  "gives_back (my_createApproval C now apr)"
  "gives_back (my_updateApprovalStatus C now j st cm)"
  "gives_back (my_createUser C u)"
  unfolding autoMigrate_def my_healthCheck_def my_createApplication_def
    my_deleteApplication_def my_createNamespace_def my_deleteNamespace_def
    my_createConfig_def my_updateConfig_def my_deleteConfig_def
    my_createRelease_def my_retireRelease_def my_publishRelease_def
    my_createApproval_def my_updateApprovalStatus_def my_createUser_def
  by (rule gives_back_with_conn)+

lemma gives_back_queries:
  "gives_back (my_getApplication C i)"
  "gives_back (my_listApplications C)"
  "gives_back (my_getNamespace C i)"
  "gives_back (my_listNamespaces C i env cl)"
  "gives_back (my_getConfig C n k d)"
  "gives_back (my_listConfigs C n d)"
  "gives_back (my_getConfigVersions C n k)"
  "gives_back (my_getConfigVersion C n k ver)"
  "gives_back (my_getChangeHistory C q)"
  "gives_back (my_getReleases C rq)"
  "gives_back (my_getRelease C j)"
  "gives_back (my_getPendingApprovals C n)"
  "gives_back (my_getUserByUsername C n)"
  "gives_back (my_listUsers C)"
  unfolding my_getApplication_def my_listApplications_def my_getNamespace_def
    my_listNamespaces_def my_getConfig_def my_listConfigs_def
    my_getConfigVersions_def my_getConfigVersion_def my_getChangeHistory_def
    my_getReleases_def my_getRelease_def my_getPendingApprovals_def
    my_getUserByUsername_def my_listUsers_def
  by (rule gives_back_decoding [OF gives_back_with_conn])+

lemma gives_back_rollback: "gives_back (my_rollbackConfig C now n k v op)"
  unfolding my_rollbackConfig_def
proof (rule gives_back_bind)
  show "gives_back (my_getConfigVersion C n k v)"
    by (rule gives_back_queries)
next
  note upd = gives_backD [OF gives_back_updates(8)]
  show "(case target of None \<Rightarrow> Some (Inr False, s)
      | Some w \<Rightarrow> my_updateConfig C now n k (cv_value w) op True s) = None \<Longrightarrow> my_pool s = []" for target and s :: "'a my_state"
    by (cases target) (auto simp: upd(1))
  show "(case target of None \<Rightarrow> Some (Inr False, s)
      | Some w \<Rightarrow> my_updateConfig C now n k (cv_value w) op True s) = Some (r, t) \<Longrightarrow> drops (throws r) s t"
    for target r t and s :: "'a my_state"
    by (cases target) (auto dest: upd(2))
qed

lemmas gives_back_ops = gives_back_updates gives_back_queries gives_back_rollback

lemma loses_one_ops:
  "loses_one (my_beginTransaction C)" "loses_one (my_commitTransaction C)" "loses_one (my_rollbackTransaction C)"
  unfolding my_beginTransaction_def my_commitTransaction_def my_rollbackTransaction_def
  by (rule loses_one_keep_conn)+


section \<open>Sequences of calls\<close>

fun transactional :: "my_call \<Rightarrow> bool" where
  "transactional BeginTransaction = True"
| "transactional CommitTransaction = True"
| "transactional RollbackTransaction = True"
| "transactional _ = False"

lemma my_run_cases:
  shows my_run_gives_back: "\<not> transactional c \<Longrightarrow> gives_back (my_run C now c)"
    and my_run_loses_one: "transactional c \<Longrightarrow> loses_one (my_run C now c)"
  by (cases c; simp add: gives_back_ops gives_back_saying loses_one_ops loses_one_saying)+

lemma my_run_waits: "my_run C now c s = None \<longleftrightarrow> my_pool s = []"
  using my_run_gives_back [of c C now] my_run_loses_one [of c C now]
  by (cases "transactional c") (auto simp: gives_back_def loses_one_def)

text \<open>The calls that may keep a connection: those of transactions, and those that throw.\<close>

definition may_keep :: "my_call \<Rightarrow> my_reply result \<Rightarrow> nat" where
  "may_keep c r = (if transactional c then 1 else throws r)"

definition must_keep :: "my_call \<Rightarrow> nat" where
  "must_keep c = (if transactional c then 1 else 0)"

lemma my_run_pool:
  assumes "my_run C now c s = Some (r, t)"
  shows "drops (may_keep c r) s t" and "length (my_pool t) + must_keep c \<le> length (my_pool s)"
proof -
  show "drops (may_keep c r) s t"
    using my_run_gives_back [of c C now] my_run_loses_one [of c C now] assms
    by (cases "transactional c") (auto simp: gives_back_def loses_one_def may_keep_def)
  then have "length (my_pool t) \<le> length (my_pool s)"
    using size_mset_mono [of "mset (my_pool t)" "mset (my_pool s)"] by (simp add: drops_def)
  then show "length (my_pool t) + must_keep c \<le> length (my_pool s)"
    using my_run_loses_one [of c C now] assms by (cases "transactional c") (auto simp: loses_one_def must_keep_def)
qed

definition kept :: "(string \<times> my_call) list \<Rightarrow> my_reply result list \<Rightarrow> nat" where
  "kept cs rs = sum_list (map (\<lambda>((now, c), r). may_keep c r) (zip cs rs))"

definition transactions :: "(string \<times> my_call) list \<Rightarrow> nat" where
  "transactions cs = length (filter (\<lambda>(now, c). transactional c) cs)"

lemma my_calls_pool:
  "my_calls C cs s = (rs, t) \<Longrightarrow> drops (kept cs rs) s t \<and> length rs \<le> length cs \<and>
     length (my_pool t) + transactions (take (length rs) cs) \<le> length (my_pool s) \<and>
     (length rs < length cs \<longrightarrow> my_pool t = [])"
proof (induction C cs s arbitrary: rs t rule: my_calls.induct)
  case (1 C s)
  then show ?case by (simp add: transactions_def)
next
  case (2 C now c cs s)
  show ?case
  proof (cases "my_run C now c s")
    case None
    with 2(2) show ?thesis by (auto simp: transactions_def my_run_waits)
  next
    case (Some p)
    obtain r u where run: "my_run C now c s = Some (r, u)" using Some by (cases p) simp
    obtain rs' where rs: "rs = r # rs'" and rest: "my_calls C cs u = (rs', t)"
      using 2(2) run by (auto split: prod.splits)
    have sums: "kept ((now, c) # cs) rs = may_keep c r + kept cs rs'"
      "transactions (take (length rs) ((now, c) # cs)) = must_keep c + transactions (take (length rs') cs)"
      by (simp_all add: rs kept_def transactions_def must_keep_def)
    from 2(1) [OF run refl rest] my_run_pool [OF run] show ?thesis
      unfolding sums using drops_trans [of "may_keep c r" s u] by (auto simp: rs)
  qed
qed

lemma transactions_drain:
  assumes "my_calls C cs s = (rs, t)" and "length (my_pool s) \<le> transactions cs"
  shows "my_pool t = []"
proof (cases "length rs < length cs")
  case False
  with my_calls_pool [OF assms(1)] have "length (my_pool t) + transactions cs \<le> length (my_pool s)" by simp
  with assms(2) have "length (my_pool t) = 0" by linarith
  then show ?thesis by simp
qed (use my_calls_pool [OF assms(1)] in simp)

end
