(* ===== verification/Mysql_Pool.thy ===== *)
theory Mysql_Pool
  imports Mysql_Calls
begin

text \<open>
  The connection pool of \<^verbatim>\<open>storage/mysql_config_store.cpp\<close> with the threads that use it. \<^verbatim>\<open>acquire\<close> waits on the
  condition variable \<^verbatim>\<open>cv_\<close> until the pool is not empty, \<^verbatim>\<open>release\<close> notifies one of the waiting threads; both
  hold the mutex, so each is one step, and a thread that was notified competes for the mutex again.
\<close>


section \<open>Threads and the condition variable\<close>

text \<open>
  A thread does not use the pool, wants a connection and competes for the mutex, is blocked in
  \<^verbatim>\<open>cv_.wait\<close>, or has a connection. \<open>ps_lost\<close> are the connections that are never released, after an exception
  of an operation or by the transaction operations.
\<close>

datatype pool_thread = Idle | Wanting | Waiting | Holding nat

record pool_state =
  ps_pool :: "nat list"
  ps_threads :: "pool_thread list"
  ps_lost :: "nat list"

definition set_thread :: "nat \<Rightarrow> pool_thread \<Rightarrow> pool_state \<Rightarrow> pool_state" where
  "set_thread i x q = q\<lparr>ps_threads := (ps_threads q)[i := x]\<rparr>"

definition at_thread :: "pool_state \<Rightarrow> nat \<Rightarrow> pool_thread \<Rightarrow> bool" where
  "at_thread q i x \<longleftrightarrow> i < length (ps_threads q) \<and> ps_threads q ! i = x"

inductive monitor_step :: "pool_state \<Rightarrow> pool_state \<Rightarrow> bool" where
  wants: "at_thread q i Idle \<Longrightarrow> monitor_step q (set_thread i Wanting q)"
| takes: "at_thread q i Wanting \<Longrightarrow> acquire (ps_pool q) = Some (conn, rest) \<Longrightarrow>
    monitor_step q (set_thread i (Holding conn) (q\<lparr>ps_pool := rest\<rparr>))"
| blocks: "at_thread q i Wanting \<Longrightarrow> acquire (ps_pool q) = None \<Longrightarrow> monitor_step q (set_thread i Waiting q)"
| wakes: "at_thread q i Waiting \<Longrightarrow> monitor_step q (set_thread i Wanting q)"
| gives: "at_thread q i (Holding conn) \<Longrightarrow> Waiting \<notin> set (ps_threads q) \<Longrightarrow>
    monitor_step q (set_thread i Idle (q\<lparr>ps_pool := release conn (ps_pool q)\<rparr>))"
| gives_notify: "at_thread q i (Holding conn) \<Longrightarrow> at_thread q j Waiting \<Longrightarrow>
    monitor_step q (set_thread j Wanting (set_thread i Idle (q\<lparr>ps_pool := release conn (ps_pool q)\<rparr>)))"
| loses: "at_thread q i (Holding conn) \<Longrightarrow>
    monitor_step q (set_thread i Idle (q\<lparr>ps_lost := conn # ps_lost q\<rparr>))"

definition new_monitor :: "nat \<Rightarrow> nat \<Rightarrow> pool_state" where
  "new_monitor poolSize threads = \<lparr>ps_pool = [0..<poolSize], ps_threads = replicate threads Idle, ps_lost = []\<rparr>"


section \<open>Invariant\<close>

fun held_by :: "pool_thread \<Rightarrow> nat list" where
  "held_by (Holding conn) = [conn]"
| "held_by _ = []"

definition held :: "pool_state \<Rightarrow> nat list" where
  "held q = concat (map held_by (ps_threads q))"

definition wanting :: "pool_state \<Rightarrow> nat" where
  "wanting q = length (filter (\<lambda>x. x = Wanting) (ps_threads q))"

text \<open>
  Every connection is in the pool, held by one thread, or lost; and no wake-up is lost: while a thread
  waits, at least as many threads compete for the mutex as there are free connections.
\<close>

definition monitor_inv :: "nat \<Rightarrow> pool_state \<Rightarrow> bool" where
  "monitor_inv poolSize q \<longleftrightarrow>
     mset (ps_pool q) + mset (held q) + mset (ps_lost q) = mset [0..<poolSize] \<and>
     (Waiting \<in> set (ps_threads q) \<longrightarrow> length (ps_pool q) \<le> wanting q)"

lemma set_thread_sel [simp]:
  "ps_pool (set_thread i x q) = ps_pool q" "ps_lost (set_thread i x q) = ps_lost q"
  "ps_threads (set_thread i x q) = (ps_threads q)[i := x]"
  by (simp_all add: set_thread_def)

lemma held_set_thread:
  assumes "at_thread q i x"
  shows "mset (held (set_thread i y q)) + mset (held_by x) = mset (held q) + mset (held_by y)"
proof -
  from assms have i: "i < length (ps_threads q)" "ps_threads q ! i = x" by (auto simp: at_thread_def)
  have "held q = concat (map held_by (take i (ps_threads q) @ ps_threads q ! i # drop (Suc i) (ps_threads q)))"
    using i(1) by (simp add: held_def id_take_nth_drop [symmetric])
  with i show ?thesis by (simp add: held_def upd_conv_take_nth_drop)
qed

lemma wanting_set_thread:
  "at_thread q i x \<Longrightarrow> wanting (set_thread i y q) + (if x = Wanting then 1 else 0) = wanting q + (if y = Wanting then 1 else 0)"
  using length_filter_update [of i "ps_threads q" "\<lambda>x. x = Wanting" y] by (auto simp: wanting_def at_thread_def)

lemma waiting_set_thread: "Waiting \<in> set (ps_threads (set_thread i y q)) \<Longrightarrow> y \<noteq> Waiting \<Longrightarrow> Waiting \<in> set (ps_threads q)"
  using set_update_subset_insert [of "ps_threads q" i y] by auto

lemma pool_update [simp]:
  "held (q\<lparr>ps_pool := p\<rparr>) = held q" "held (q\<lparr>ps_lost := l\<rparr>) = held q"
  "wanting (q\<lparr>ps_pool := p\<rparr>) = wanting q" "wanting (q\<lparr>ps_lost := l\<rparr>) = wanting q"
  "at_thread (q\<lparr>ps_pool := p\<rparr>) i x = at_thread q i x" "at_thread (q\<lparr>ps_lost := l\<rparr>) i x = at_thread q i x"
  by (simp_all add: held_def wanting_def at_thread_def)

lemma monitor_inv_step: "monitor_step q q' \<Longrightarrow> monitor_inv n q \<Longrightarrow> monitor_inv n q'"
proof (induction rule: monitor_step.induct)
  case (wants q i)
  then show ?case
    using held_set_thread [OF wants(1), of Wanting] wanting_set_thread [OF wants(1), of Wanting]
      waiting_set_thread [of i Wanting q] by (auto simp: monitor_inv_def)
next
  case (takes q i conn rest)
  let ?q = "q\<lparr>ps_pool := rest\<rparr>"
  from takes(1) have at: "at_thread ?q i Wanting" by simp
  from takes(2) have "ps_pool q = conn # rest" by (auto simp: acquire_def split: list.splits)
  with takes(3) show ?case
    using held_set_thread [OF at, of "Holding conn"] wanting_set_thread [OF at, of "Holding conn"]
      waiting_set_thread [of i "Holding conn" ?q] by (auto simp: monitor_inv_def)
next
  case (blocks q i)
  then have "ps_pool q = []" by (auto simp: acquire_def split: list.splits)
  with blocks show ?case using held_set_thread [OF blocks(1), of Waiting] by (simp add: monitor_inv_def)
next
  case (wakes q i)
  then have "Waiting \<in> set (ps_threads q)" by (metis at_thread_def nth_mem)
  with wakes show ?case
    using held_set_thread [OF wakes(1), of Wanting] wanting_set_thread [OF wakes(1), of Wanting]
    by (auto simp: monitor_inv_def)
next
  case (gives q i conn)
  let ?q = "q\<lparr>ps_pool := release conn (ps_pool q)\<rparr>"
  from gives(1) have at: "at_thread ?q i (Holding conn)" by simp
  then have eq: "mset (held q) = add_mset conn (mset (held (set_thread i Idle ?q)))"
    using held_set_thread [of ?q i "Holding conn" Idle] by simp
  from gives(2,3) show ?case
    using waiting_set_thread [of i Idle ?q] by (auto simp: monitor_inv_def release_def eq)
next
  case (gives_notify q i conn j)
  let ?q = "q\<lparr>ps_pool := release conn (ps_pool q)\<rparr>"
  let ?r = "set_thread i Idle ?q"
  from gives_notify(1) have at: "at_thread ?q i (Holding conn)" by simp
  from gives_notify(1,2) have "j \<noteq> i" by (auto simp: at_thread_def)
  with gives_notify(2) have at': "at_thread ?r j Waiting" by (simp add: at_thread_def)
  have "Waiting \<in> set (ps_threads q)" using gives_notify(2) by (metis at_thread_def nth_mem)
  moreover have eq: "mset (held q) = add_mset conn (mset (held (set_thread j Wanting ?r)))"
    using held_set_thread [OF at, of Idle] held_set_thread [OF at', of Wanting] by simp
  moreover have "wanting (set_thread j Wanting ?r) = Suc (wanting q)"
    using wanting_set_thread [OF at, of Idle] wanting_set_thread [OF at', of Wanting] by simp
  ultimately show ?case using gives_notify(3) by (simp add: monitor_inv_def release_def)
next
  case (loses q i conn)
  let ?q = "q\<lparr>ps_lost := conn # ps_lost q\<rparr>"
  from loses(1) have at: "at_thread ?q i (Holding conn)" by simp
  then have eq: "mset (held q) = add_mset conn (mset (held (set_thread i Idle ?q)))"
    using held_set_thread [of ?q i "Holding conn" Idle] by simp
  from loses(2) show ?case
    using wanting_set_thread [OF at, of Idle] waiting_set_thread [of i Idle ?q]
    by (auto simp: monitor_inv_def eq)
qed

lemma monitor_run: "monitor_step\<^sup>*\<^sup>* (new_monitor n k) q \<Longrightarrow> monitor_inv n q"
proof (induction rule: rtranclp_induct)
  case base
  have "held (new_monitor n k) = []" by (simp add: held_def new_monitor_def)
  then show ?case by (auto simp: monitor_inv_def new_monitor_def)
qed (rule monitor_inv_step)

lemma monitor_facts:
  assumes "monitor_step\<^sup>*\<^sup>* (new_monitor n k) p"
  shows "distinct (held p)" and "set (held p) \<inter> set (ps_pool p) = {}"
    and "length (ps_pool p) + length (held p) + length (ps_lost p) = n"
    and "Waiting \<in> set (ps_threads p) \<and> Wanting \<notin> set (ps_threads p) \<longrightarrow>
      ps_pool p = [] \<and> length (held p) + length (ps_lost p) = n"
proof -
  from monitor_run [OF assms] have all: "mset (ps_pool p @ held p @ ps_lost p) = mset [0..<n]"
    and wake: "Waiting \<in> set (ps_threads p) \<longrightarrow> length (ps_pool p) \<le> wanting p"
    by (simp_all add: monitor_inv_def ac_simps)
  from all have "distinct (ps_pool p @ held p @ ps_lost p)" by (metis distinct_upt mset_eq_imp_distinct_iff)
  then show "distinct (held p)" and "set (held p) \<inter> set (ps_pool p) = {}" by auto
  from mset_eq_length [OF all] show len: "length (ps_pool p) + length (held p) + length (ps_lost p) = n" by simp
  have "wanting p = 0" if "Wanting \<notin> set (ps_threads p)" using that by (auto simp: wanting_def filter_empty_conv)
  with wake len show "Waiting \<in> set (ps_threads p) \<and> Wanting \<notin> set (ps_threads p) \<longrightarrow>
      ps_pool p = [] \<and> length (held p) + length (ps_lost p) = n" by auto
qed


section \<open>Property\<close>

text \<open>
  C38. The connection pool. A virtual function of the MySQL store waits if and only if the pool is empty.
  Whatever functions one thread calls in whatever order, until one of them waits: connections only leave the
  pool, at most one for each call of a transaction operation and for each call that ends in an exception,
  and exactly one for each of the former; so without exceptions and transaction operations the pool is
  whole again after every call, and as many \<^verbatim>\<open>beginTransaction\<close>, \<^verbatim>\<open>commitTransaction\<close> or
  \<^verbatim>\<open>rollbackTransaction\<close> as there are connections, with any other calls between them, empty it for good. With
  several threads, whatever they do in whatever order (spurious wake-ups, exceptions that lose a
  connection): no connection is held by two threads or is both held and free, none disappears but by such
  a loss, and no wake-up is missed: a thread that waits while no other is about to look at the pool does so
  because every connection is held or lost.
\<close>

theorem pool_accounting:
  fixes C :: "'m mysql_conn" and s t :: "'m my_state"
  shows "(my_run C now c s = None \<longleftrightarrow> my_pool s = []) \<and>
    (my_calls C cs s = (rs, t) \<longrightarrow>
       mset (my_pool t) \<subseteq># mset (my_pool s) \<and>
       length (my_pool s) \<le> length (my_pool t) + kept cs rs \<and>
       length (my_pool t) + transactions (take (length rs) cs) \<le> length (my_pool s) \<and>
       (kept cs rs = 0 \<longrightarrow> mset (my_pool t) = mset (my_pool s)) \<and>
       (length rs < length cs \<longrightarrow> my_pool t = []) \<and>
       (length (my_pool s) \<le> transactions cs \<longrightarrow> my_pool t = [] \<and> (\<forall>now c. my_run C now c t = None))) \<and>
    (monitor_step\<^sup>*\<^sup>* (new_monitor poolSize threads) p \<longrightarrow>
       distinct (held p) \<and> set (held p) \<inter> set (ps_pool p) = {} \<and>
       length (ps_pool p) + length (held p) + length (ps_lost p) = poolSize \<and>
       (Waiting \<in> set (ps_threads p) \<and> Wanting \<notin> set (ps_threads p) \<longrightarrow>
          ps_pool p = [] \<and> length (held p) + length (ps_lost p) = poolSize))"
proof (intro conjI my_run_waits impI [of "my_calls _ _ _ = _"] impI [of "monitor_step\<^sup>*\<^sup>* _ _"] monitor_facts)
  assume run: "my_calls C cs s = (rs, t)"
  note pool = my_calls_pool [OF run]
  from pool show "mset (my_pool t) \<subseteq># mset (my_pool s)"
    and "length (my_pool s) \<le> length (my_pool t) + kept cs rs" by (simp_all add: drops_def)
  from pool show "length (my_pool t) + transactions (take (length rs) cs) \<le> length (my_pool s)"
    and "length rs < length cs \<longrightarrow> my_pool t = []" by simp_all
  from pool show "kept cs rs = 0 \<longrightarrow> mset (my_pool t) = mset (my_pool s)" by (metis drops_0)
  from transactions_drain [OF run]
  show "length (my_pool s) \<le> transactions cs \<longrightarrow> my_pool t = [] \<and> (\<forall>now c. my_run C now c t = None)"
    by (simp add: my_run_waits)
qed

text \<open>Two threads and one connection: the second waits for the first.\<close>

definition demo_waiting :: pool_state where
  "demo_waiting = \<lparr>ps_pool = [], ps_threads = [Holding 0, Waiting], ps_lost = []\<rparr>"

lemma demo_waits: "monitor_step\<^sup>*\<^sup>* (new_monitor 1 2) demo_waiting"
proof -
  let ?q = "\<lambda>p ts. \<lparr>ps_pool = p, ps_threads = ts, ps_lost = []\<rparr>"
  have "monitor_step (?q [0] [Idle, Idle]) (?q [0] [Wanting, Idle])"
    using wants [of "?q [0] [Idle, Idle]" 0] by (simp add: at_thread_def set_thread_def)
  moreover have "monitor_step (?q [0] [Wanting, Idle]) (?q [] [Holding 0, Idle])"
    using takes [of "?q [0] [Wanting, Idle]" 0 0 "[]"] by (simp add: at_thread_def set_thread_def acquire_def)
  moreover have "monitor_step (?q [] [Holding 0, Idle]) (?q [] [Holding 0, Wanting])"
    using wants [of "?q [] [Holding 0, Idle]" 1] by (simp add: at_thread_def set_thread_def)
  moreover have "monitor_step (?q [] [Holding 0, Wanting]) demo_waiting"
    using blocks [of "?q [] [Holding 0, Wanting]" 1] by (simp add: at_thread_def set_thread_def acquire_def demo_waiting_def)
  moreover have "new_monitor 1 2 = ?q [0] [Idle, Idle]" by (simp add: new_monitor_def numeral_2_eq_2)
  ultimately show ?thesis by simp
qed

text \<open>Ten connections, and five transactions with a read in each.\<close>

definition demo_calls :: "(string \<times> my_call) list" where
  "demo_calls = concat (replicate 5 [(''t'', BeginTransaction), (''t'', GetConfig ''ns'' ''k'' False), (''t'', CommitTransaction)])"

theorem pool_accounting_witness:
  "(\<exists>rs t. my_calls demo_conn demo_calls \<lparr>my_pool = [0..<10], my_server = ()\<rparr> = (rs, t) \<and>
     my_pool t = [] \<and> my_run demo_conn ''t'' HealthCheck t = None) \<and>
   distinct (held demo_waiting) \<and> length (held demo_waiting) + length (ps_lost demo_waiting) = 1"
proof -
  let ?s = "\<lparr>my_pool = [0..<10], my_server = ()\<rparr>"
  obtain rs t where run: "my_calls demo_conn demo_calls ?s = (rs, t)" by fastforce
  have many: "length (my_pool ?s) \<le> transactions demo_calls"
    by (simp add: demo_calls_def transactions_def numeral_eq_Suc)
  note all = pool_accounting [where C = demo_conn and cs = demo_calls and s = ?s and rs = rs and t = t and
      poolSize = 1 and threads = 2 and p = demo_waiting]
  from all run many have "my_pool t = []" "my_run demo_conn ''t'' HealthCheck t = None" by blast+
  moreover have "Waiting \<in> set (ps_threads demo_waiting)" "Wanting \<notin> set (ps_threads demo_waiting)"
    by (simp_all add: demo_waiting_def)
  then have "distinct (held demo_waiting)" "length (held demo_waiting) + length (ps_lost demo_waiting) = 1"
    by (simp_all only: all demo_waits not_False_eq_True HOL.simp_thms)
  ultimately show ?thesis using run by blast
qed

end
