(* ===== verification/Timestamps.thy ===== *)
theory Timestamps
  imports Cpp_Numbers "HOL-Library.List_Lexorder" "HOL-Library.Char_ord"
begin

text \<open>
  \<^verbatim>\<open>getTimestamp\<close> of \<^verbatim>\<open>SqliteConfigStore\<close>, \<^verbatim>\<open>MysqlConfigStore\<close> and \<^verbatim>\<open>NamespaceManager\<close>: the whole seconds
  of a system clock reading, broken down by \<^verbatim>\<open>std::gmtime\<close> in the Gregorian calendar and printed by
  \<^verbatim>\<open>std::put_time\<close> with the format \<^verbatim>\<open>%Y-%m-%dT%H:%M:%SZ\<close>. The other theories take the printed time as
  their argument \<open>now\<close>. The clock reading is in nanoseconds since 1970.
\<close>


section \<open>The calendar\<close>

text \<open>\<^verbatim>\<open>std::tm\<close>: years count from 1900, months from 0, days of the month from 1.\<close>

record tm =
  tm_year :: nat
  tm_mon :: nat
  tm_mday :: nat
  tm_hour :: nat
  tm_min :: nat
  tm_sec :: nat

definition leap :: "nat \<Rightarrow> bool" where
  "leap y \<longleftrightarrow> y mod 4 = 0 \<and> (y mod 100 \<noteq> 0 \<or> y mod 400 = 0)"

definition year_days :: "nat \<Rightarrow> nat" where
  "year_days y = (if leap y then 366 else 365)"

definition month_days :: "nat \<Rightarrow> nat list" where
  "month_days y = [31, if leap y then 29 else 28, 31, 30, 31, 30, 31, 31, 30, 31, 30, 31]"

text \<open>The year and the day within it of day \<open>n\<close> counted from the first of January of year \<open>y\<close>.\<close>

function split_year :: "nat \<Rightarrow> nat \<Rightarrow> nat \<times> nat" where
  "split_year y n = (if n < year_days y then (y, n) else split_year (Suc y) (n - year_days y))"
  by auto
termination by (relation "measure snd") (auto simp: year_days_def split: if_splits)

declare split_year.simps [simp del]

fun split_month :: "nat list \<Rightarrow> nat \<Rightarrow> nat \<times> nat" where
  "split_month [] n = (0, n)"
| "split_month (d # ds) n =
     (if n < d then (0, n) else case split_month ds (n - d) of (m, r) \<Rightarrow> (Suc m, r))"

definition gmtime :: "nat \<Rightarrow> tm" where
  "gmtime t =
     (let (y, yday) = split_year 1970 (t div 86400);
          (m, mday) = split_month (month_days y) yday;
          sec = t mod 86400
      in \<lparr>tm_year = y - 1900, tm_mon = m, tm_mday = Suc mday, tm_hour = sec div 3600,
          tm_min = sec mod 3600 div 60, tm_sec = sec mod 3600 mod 60\<rparr>)"

definition pad2 :: "nat \<Rightarrow> string" where
  "pad2 n = [digit_char (n div 10), digit_char (n mod 10)]"

definition put_time :: "tm \<Rightarrow> string" where
  "put_time b = show_nat (1900 + tm_year b) @ ''-'' @ pad2 (Suc (tm_mon b)) @ ''-'' @ pad2 (tm_mday b) @ ''T'' @
     pad2 (tm_hour b) @ '':'' @ pad2 (tm_min b) @ '':'' @ pad2 (tm_sec b) @ ''Z''"

definition to_time_t :: "nat \<Rightarrow> nat" where
  "to_time_t ns = ns div 1000000000"

definition getTimestamp :: "nat \<Rightarrow> string" where
  "getTimestamp clock = put_time (gmtime (to_time_t clock))"

text \<open>The copies of the function in \<^verbatim>\<open>NamespaceManager\<close> and in the MySQL store.\<close>

definition nm_getTimestamp :: "nat \<Rightarrow> string" where
  "nm_getTimestamp clock = put_time (gmtime (to_time_t clock))"

definition my_getTimestamp :: "nat \<Rightarrow> string" where
  "my_getTimestamp clock = put_time (gmtime (to_time_t clock))"

text \<open>The seconds before the year 10000, for which the year has four digits.\<close>

definition four_digit_years :: nat where
  "four_digit_years = 253402300800"


section \<open>Order of the fields\<close>

lemma divmod_less:
  fixes a b k :: nat
  assumes "a < b"
  shows "a div k < b div k \<or> a div k = b div k \<and> a mod k < b mod k"
proof (cases "a div k = b div k")
  case True
  have "a = a div k * k + a mod k" "b = b div k * k + b mod k" by simp_all
  with assms True show ?thesis by (metis add_less_cancel_left)
next
  case False
  with div_le_mono [of a b k] assms show ?thesis by simp
qed

lemma split_year_in: "n < year_days y \<Longrightarrow> split_year y n = (y, n)"
  and split_year_out: "\<not> n < year_days y \<Longrightarrow> split_year y n = split_year (Suc y) (n - year_days y)"
  by (simp_all add: split_year.simps [of y n])

lemma split_year_ge: "split_year y n = (z, r) \<Longrightarrow> y \<le> z \<and> r < year_days z"
proof (induction y n rule: split_year.induct)
  case (1 y n)
  then show ?case by (subst (asm) (2) split_year.simps) (auto split: if_splits)
qed

text \<open>Within a list of month lengths, a later day is in a later month or later in the same month.\<close>

lemma split_month_bounds:
  "n < sum_list ds \<Longrightarrow> split_month ds n = (m, r) \<Longrightarrow> m < length ds \<and> r < ds ! m"
proof (induction ds arbitrary: n m r)
  case (Cons d ds)
  show ?case
  proof (cases "n < d")
    case False
    with Cons.prems obtain k where "split_month ds (n - d) = (k, r)" "m = Suc k"
      by (auto split: prod.splits)
    with Cons.IH [of "n - d" k r] Cons.prems False show ?thesis by auto
  qed (use Cons.prems in auto)
qed simp

lemma split_month_less:
  assumes "n < n'" and "n' < sum_list ds" and "split_month ds n = (m, r)" and "split_month ds n' = (m', r')"
  shows "m < m' \<or> m = m' \<and> r < r'"
  using assms
proof (induction ds arbitrary: n n' m r m' r')
  case (Cons d ds)
  show ?case
  proof (cases "n < d")
    case True
    with Cons.prems show ?thesis by (auto split: if_splits prod.splits)
  next
    case False
    with Cons.prems obtain k k' where "split_month ds (n - d) = (k, r)" "m = Suc k"
      "split_month ds (n' - d) = (k', r')" "m' = Suc k'" by (auto split: prod.splits)
    with Cons.IH [of "n - d" "n' - d" k r k' r'] Cons.prems False show ?thesis by auto
  qed
qed simp

lemma split_year_less:
  assumes "n < n'" and "split_year y n = (z, r)" and "split_year y n' = (z', r')"
  shows "z < z' \<or> z = z' \<and> r < r'"
  using assms
proof (induction y n arbitrary: n' rule: split_year.induct)
  case (1 y n)
  consider "n' < year_days y" | "n < year_days y" "\<not> n' < year_days y" | "\<not> n < year_days y"
    by linarith
  then show ?case
  proof cases
    case 1
    with "1.prems"(1) have "n < year_days y" by simp
    from split_year_in [OF this] split_year_in [OF 1] "1.prems" show ?thesis by auto
  next
    case 2
    with "1.prems"(2,3) have "split_year (Suc y) (n' - year_days y) = (z', r')" "z = y"
      by (simp_all add: split_year_in split_year_out)
    with split_year_ge [of "Suc y" "n' - year_days y" z' r'] show ?thesis by simp
  next
    case 3
    with "1.prems" have "split_year (Suc y) (n - year_days y) = (z, r)"
      "split_year (Suc y) (n' - year_days y) = (z', r')" by (simp_all add: split_year_out)
    with "1.IH" [of "n' - year_days y"] "1.prems"(1) 3 show ?thesis by linarith
  qed
qed

text \<open>Days before the first of January of a year, and the bound on the year it gives.\<close>

definition year_start :: "nat \<Rightarrow> nat" where
  "year_start y = 365 * y + (y + 3) div 4 + (y + 399) div 400 - (y + 99) div 100"

lemma year_start_Suc: "year_start (Suc y) = year_start y + year_days y"
proof -
  have four: "(Suc y + 3) div 4 = (y + 3) div 4 + (if y mod 4 = 0 then 1 else 0)"
    using div_Suc [of "y + 3" 4] by simp
  have cent: "(Suc y + 99) div 100 = (y + 99) div 100 + (if y mod 100 = 0 then 1 else 0)"
    using div_Suc [of "y + 99" 100] by simp
  have quad: "(Suc y + 399) div 400 = (y + 399) div 400 + (if y mod 400 = 0 then 1 else 0)"
    using div_Suc [of "y + 399" 400] by simp
  have "(y + 99) div 100 \<le> (100 * y + 99) div 100" by (rule div_le_mono) simp
  then have "(y + 99) div 100 \<le> y" by simp
  moreover have "y mod 100 = 0" if "y mod 400 = 0"
    using dvd_trans [of 100 400 y] that by (simp add: mod_0_imp_dvd dvd_imp_mod_0)
  moreover have "y mod 4 = 0" if "y mod 100 = 0"
    using dvd_trans [of 4 100 y] that by (simp add: mod_0_imp_dvd dvd_imp_mod_0)
  ultimately show ?thesis
    unfolding year_start_def four cent quad year_days_def leap_def by (auto simp: algebra_simps)
qed

lemma year_start_mono: "y \<le> z \<Longrightarrow> year_start y \<le> year_start z"
  by (rule lift_Suc_mono_le [of year_start]) (simp_all add: year_start_Suc)

lemma split_year_start: "split_year y n = (z, r) \<Longrightarrow> year_start z + r = year_start y + n"
proof (induction y n rule: split_year.induct)
  case (1 y n)
  show ?case
  proof (cases "n < year_days y")
    case True
    with "1.prems" show ?thesis by (simp add: split_year_in)
  next
    case False
    with "1.prems" have "split_year (Suc y) (n - year_days y) = (z, r)" by (simp add: split_year_out)
    with "1.IH" [OF False] False show ?thesis by (simp add: year_start_Suc)
  qed
qed

lemma split_year_range:
  assumes "split_year 1970 n = (z, r)" and "n < 2932897"
  shows "1970 \<le> z \<and> z < 10000"
proof -
  have "\<not> 10000 \<le> z"
  proof
    assume "10000 \<le> z"
    from year_start_mono [OF this] split_year_start [OF assms(1)] assms(2) show False
      by (simp add: year_start_def)
  qed
  with split_year_ge [OF assms(1)] show ?thesis by simp
qed


section \<open>Order of the texts\<close>

lemma append_less: "length xs = length ys \<Longrightarrow> xs < ys \<Longrightarrow> xs @ s < ys @ (t :: string)"
  by (induction xs ys rule: list_induct2) auto

lemma append_less_same: "(xs @ s < xs @ t) = (s < (t :: string))"
  by (induction xs) auto

lemma digit_less: "a < 10 \<Longrightarrow> b < 10 \<Longrightarrow> digit_char a < digit_char b \<longleftrightarrow> a < b"
  by (simp add: less_char_def of_digit_char)

lemma digit_eq: "a < 10 \<Longrightarrow> b < 10 \<Longrightarrow> digit_char a = digit_char b \<longleftrightarrow> a = b"
  using digit_value_char by metis

lemma pad2_less: "a < b \<Longrightarrow> b < 100 \<Longrightarrow> pad2 a < pad2 b"
  using divmod_less [of a b 10] by (auto simp: pad2_def digit_less digit_eq)

lemma length_pad2 [simp]: "length (pad2 n) = 2"
  by (simp add: pad2_def)

lemma show_nat_year:
  assumes "1000 \<le> n" and "n < 10000"
  shows "show_nat n = pad2 (n div 100) @ pad2 (n mod 100)"
proof -
  have "n div 10 div 10 div 10 < 10" "\<not> n div 10 div 10 < 10" "\<not> n div 10 < 10" "\<not> n < 10"
    using assms by simp_all
  then have "show_nat n = [digit_char (n div 10 div 10 div 10), digit_char (n div 10 div 10 mod 10),
      digit_char (n div 10 mod 10), digit_char (n mod 10)]"
    by (simp add: show_nat.simps [of n] show_nat.simps [of "n div 10"] show_nat.simps [of "n div 10 div 10"]
        show_nat.simps [of "n div 10 div 10 div 10"] del: div_mult2_eq)
  moreover have "n div 10 div 10 = n div 100" by (simp add: div_mult2_eq [symmetric])
  moreover have "n mod 100 = 10 * (n div 10 mod 10) + n mod 10" using mod_mult2_eq [of n 10 10] by simp
  then have "n mod 100 div 10 = n div 10 mod 10" "n mod 100 mod 10 = n mod 10" by simp_all
  ultimately show ?thesis by (simp add: pad2_def)
qed

text \<open>The date and the time of day, as texts of fixed length.\<close>

definition date_text :: "nat \<Rightarrow> string" where
  "date_text n =
     (let (y, yday) = split_year 1970 n; (m, mday) = split_month (month_days y) yday
      in show_nat y @ ''-'' @ pad2 (Suc m) @ ''-'' @ pad2 (Suc mday))"

definition clock_text :: "nat \<Rightarrow> string" where
  "clock_text sec = ''T'' @ pad2 (sec div 3600) @ '':'' @ pad2 (sec mod 3600 div 60) @ '':'' @
     pad2 (sec mod 3600 mod 60) @ ''Z''"

lemma put_time_gmtime: "put_time (gmtime t) = date_text (t div 86400) @ clock_text (t mod 86400)"
proof -
  obtain y yday where y: "split_year 1970 (t div 86400) = (y, yday)" by fastforce
  obtain m mday where "split_month (month_days y) yday = (m, mday)" by fastforce
  moreover from split_year_ge [OF y] have "1900 + (y - 1900) = y" by simp
  ultimately show ?thesis using y
    by (simp add: put_time_def gmtime_def date_text_def clock_text_def Let_def)
qed

lemma month_days_sum: "sum_list (month_days y) = year_days y"
  by (simp add: month_days_def year_days_def)

lemma month_days_le: "m < 12 \<Longrightarrow> month_days y ! m \<le> 31"
  by (simp add: month_days_def nth_Cons split: nat.splits)

lemma date_fields:
  assumes "n < 2932897"
  obtains y m d where "date_text n = pad2 (y div 100) @ pad2 (y mod 100) @ ''-'' @ pad2 (Suc m) @ ''-'' @ pad2 (Suc d)"
    and "1970 \<le> y" "y < 10000" "m < 12" "d < 31"
    and "\<exists>r. split_year 1970 n = (y, r) \<and> split_month (month_days y) r = (m, d)"
proof -
  obtain y r where y: "split_year 1970 n = (y, r)" by fastforce
  obtain m d where m: "split_month (month_days y) r = (m, d)" by fastforce
  from split_year_range [OF y assms] have range: "1970 \<le> y" "y < 10000" by auto
  from split_year_ge [OF y] have "r < sum_list (month_days y)" by (simp add: month_days_sum)
  from split_month_bounds [OF this m] have "m < 12" "d < month_days y ! m" by (simp_all add: month_days_def)
  with month_days_le [of m y] have "m < 12" "d < 31" by simp_all
  moreover have "date_text n = pad2 (y div 100) @ pad2 (y mod 100) @ ''-'' @ pad2 (Suc m) @ ''-'' @ pad2 (Suc d)"
    using range by (simp add: date_text_def y m show_nat_year)
  ultimately show thesis using that range y m by blast
qed

lemma date_length: "n < 2932897 \<Longrightarrow> length (date_text n) = 10"
  by (erule date_fields) simp

lemma date_less:
  assumes "n < n'" and "n' < 2932897"
  shows "date_text n < date_text n'"
proof -
  from assms have "n < 2932897" by simp
  then obtain y m d r where f: "date_text n = pad2 (y div 100) @ pad2 (y mod 100) @ ''-'' @ pad2 (Suc m) @ ''-'' @ pad2 (Suc d)"
    and b: "y < 10000" and s: "split_year 1970 n = (y, r)" "split_month (month_days y) r = (m, d)"
    by (elim date_fields) blast
  from assms(2) obtain y' m' d' r' where
    f': "date_text n' = pad2 (y' div 100) @ pad2 (y' mod 100) @ ''-'' @ pad2 (Suc m') @ ''-'' @ pad2 (Suc d')"
    and b': "y' < 10000" "m' < 12" "d' < 31"
    and s': "split_year 1970 n' = (y', r')" "split_month (month_days y') r' = (m', d')"
    by (elim date_fields) blast
  from split_year_ge [OF s'(1)] have r': "r' < sum_list (month_days y')" by (simp add: month_days_sum)
  consider "y < y'" | "y = y'" "m < m' \<or> m = m' \<and> d < d'"
    using split_year_less [OF assms(1) s(1) s'(1)] split_month_less [OF _ r' _ s'(2)] s(2) by metis
  then show ?thesis
  proof cases
    case 1
    from divmod_less [OF this, of 100] b' show ?thesis unfolding f f'
      by (auto simp: append_less_same pad2_less append_less)
  next
    case 2
    with b' show ?thesis unfolding f f' by (auto simp: append_less_same pad2_less append_less)
  qed
qed

lemma clock_less:
  assumes "s < s'" and "s' < 86400"
  shows "clock_text s < clock_text s'"
proof -
  have "s' mod 3600 < 3600" "s' mod 3600 mod 60 < 60" by simp_all
  then have "s' div 3600 < 100" "s' mod 3600 div 60 < 100" "s' mod 3600 mod 60 < 100"
    using assms(2) by linarith+
  then show ?thesis
    using divmod_less [OF assms(1), of 3600] divmod_less [of "s mod 3600" "s' mod 3600" 60]
    by (auto simp: clock_text_def append_less_same pad2_less append_less)
qed

lemma put_time_less:
  assumes "t < t'" and "t' < four_digit_years"
  shows "put_time (gmtime t) < put_time (gmtime t')"
proof -
  from assms have "t' div 86400 < 2932897" "t div 86400 < 2932897" by (simp_all add: four_digit_years_def)
  with divmod_less [OF assms(1), of 86400] show ?thesis
    by (auto simp: put_time_gmtime append_less_same clock_less date_less date_length append_less)
qed

text \<open>Later clock readings have larger stamps, except within one second, where they are equal.\<close>

lemma getTimestamp_le:
  assumes "a \<le> b" and "to_time_t b < four_digit_years"
  shows "getTimestamp a \<le> getTimestamp b"
proof (cases "to_time_t a = to_time_t b")
  case False
  with assms(1) have "to_time_t a < to_time_t b" by (simp add: to_time_t_def div_le_mono le_neq_implies_less)
  from put_time_less [OF this assms(2)] show ?thesis by (simp add: getTimestamp_def)
qed (simp add: getTimestamp_def)

lemma getTimestamp_less_iff:
  assumes "to_time_t a < four_digit_years" and "to_time_t b < four_digit_years"
  shows "getTimestamp a < getTimestamp b \<longleftrightarrow> to_time_t a < to_time_t b"
proof (cases "to_time_t a" "to_time_t b" rule: linorder_cases)
  case less
  from put_time_less [OF this assms(2)] less show ?thesis by (simp add: getTimestamp_def)
next
  case equal
  then show ?thesis by (simp add: getTimestamp_def)
next
  case greater
  from put_time_less [OF this assms(1)] greater show ?thesis by (simp add: getTimestamp_def)
qed

lemma pad2_digits: "n < 100 \<Longrightarrow> list_all is_digit (pad2 n)"
  by (simp add: pad2_def)

end
