(* ===== verification/Spec2Isabelle.thy ===== *)
theory Spec2Isabelle
  imports Store_Properties Publish_Engine Notification_Channel Auth Http_Server Grpc_Service
    Server_Objects Concurrent_Edits Concurrent_Creations Http_Types Client_Sdk Backend_Agreement Mysql_Pool Timestamps
begin

text \<open>
  \<^bold>\<open>A verification library for the configuration center.\<close>

  The program is a configuration server in C++ (\<^verbatim>\<open>src/\<close>) with a client SDK (\<^verbatim>\<open>sdk/\<close>). Applications own
  namespaces, a namespace holds configs (key and value, draft or live, numbered by version), and
  publishing a namespace makes its drafts live and records a release. Clients read through HTTP, gRPC or
  the SDK's cache.

  \<^bold>\<open>Parts and theories.\<close>
  \<^item> \<^verbatim>\<open>Prelude\<close>: computations with a state and C++ exceptions (\<open>io\<close>, \<open>bindE\<close>, \<open>catchE\<close>, \<open>attemptE\<close>),
    32-bit arithmetic (\<open>wrap32\<close>), \<^verbatim>\<open>std::string\<close> searching, tables as maps (\<open>key_map\<close>).
  \<^item> \<^verbatim>\<open>Cpp_Numbers\<close>: \<^verbatim>\<open>to_string\<close>, \<^verbatim>\<open>stoi\<close>, \<^verbatim>\<open>stoll\<close>, hexadecimal output, \<^verbatim>\<open>tolower\<close>.
  \<^item> \<^verbatim>\<open>Timestamps\<close>: \<^verbatim>\<open>getTimestamp\<close> of the stores: the calendar of \<^verbatim>\<open>gmtime\<close> and the text of \<^verbatim>\<open>put_time\<close>.
  \<^item> \<^verbatim>\<open>Data_Types\<close>: the structs of \<^verbatim>\<open>storage/data_types.h\<close>.
  \<^item> \<^verbatim>\<open>Config_Store\<close>: the abstract class \<^verbatim>\<open>ConfigStore\<close> as a record of operations, and its contract as the
    locales \<open>config_store\<close> and \<open>reliable_config_store\<close>.
  \<^item> \<^verbatim>\<open>Sqlite_Orm\<close>: the tables of \<^verbatim>\<open>sqlite_config_store.h\<close> and the database layer as a parameter with laws.
  \<^item> \<^verbatim>\<open>Sqlite_Store\<close>, \<^verbatim>\<open>Sqlite_Contract\<close>, \<^verbatim>\<open>Store_Properties\<close>: every member function of
    \<^verbatim>\<open>SqliteConfigStore\<close> (\<^verbatim>\<open>storage/sqlite_config_store.cpp\<close>), its invariant, and that it satisfies the
    contract and refines an abstract specification.
  \<^item> \<^verbatim>\<open>Namespace_Manager\<close>: \<^verbatim>\<open>storage/namespace_manager.cpp\<close>, with key fallback along parent namespaces.
  \<^item> \<^verbatim>\<open>Publish_Engine\<close>: \<^verbatim>\<open>publish/publish_engine.cpp\<close> and \<^verbatim>\<open>publish/release_rule_engine.cpp\<close>.
  \<^item> \<^verbatim>\<open>Notification_Channel\<close>: \<^verbatim>\<open>subscription/notification_channel.cpp\<close>, with the threads that publish, scan
    and wait as a step relation.
  \<^item> \<^verbatim>\<open>Auth\<close>: \<^verbatim>\<open>auth/auth_types.cpp\<close> (tokens, passwords, permissions); \<^verbatim>\<open>Text_Fields\<close> is a text format for
    the instances of the library laws.
  \<^item> \<^verbatim>\<open>Api_Handlers\<close>: the handler classes of \<^verbatim>\<open>api/\<close>; \<^verbatim>\<open>Http_Server\<close>: routing and handlers of
    \<^verbatim>\<open>server/http_server.cpp\<close>; \<^verbatim>\<open>Grpc_Service\<close>: \<^verbatim>\<open>server/grpc_server.cpp\<close> and \<^verbatim>\<open>api/grpc_service.cpp\<close>.
  \<^item> \<^verbatim>\<open>Http_Types\<close>: the JSON types that \<^verbatim>\<open>docs/api.md\<close> documents for the endpoints.
  \<^item> \<^verbatim>\<open>Request_Programs\<close>: the request handlers as programs of store calls, for threads that handle requests at
    the same time; \<^verbatim>\<open>Request_Pool\<close>: pools of such programs and how they are simulated by steps on a view of
    the store (locale \<open>pool_simulation\<close>); \<^verbatim>\<open>Concurrent_Edits\<close>, \<^verbatim>\<open>Concurrent_Creations\<close>: the outcomes of
    concurrent requests for one key, and of concurrent registrations of applications.
  \<^item> \<^verbatim>\<open>Server_Lifecycle\<close>: the accept, read, store call and write steps of \<^verbatim>\<open>HttpServer\<close> and \<^verbatim>\<open>HttpSession\<close> on a
    pool of threads as a step relation, and the objects of \<^verbatim>\<open>GrpcServer::start\<close>; \<^verbatim>\<open>Server_Main\<close>: the process of \<^verbatim>\<open>main.cpp\<close>, from its
    start to its joins.
  \<^item> \<^verbatim>\<open>Server_Objects\<close>: the classes with their members and constructors, the heap of objects that \<^verbatim>\<open>main.cpp\<close>
    builds, and calls through the pointers between them; \<^verbatim>\<open>Store_View\<close>: computations that act on a part of
    a larger state (locales \<open>state_part\<close> and \<open>store_part\<close>).
  \<^item> \<^verbatim>\<open>Client_Sdk\<close>: \<^verbatim>\<open>sdk/src/config_client.cpp\<close>.
  \<^item> \<^verbatim>\<open>Config_Parser\<close>: \<^verbatim>\<open>config/config_parser.cpp\<close> and the start-up decisions of \<^verbatim>\<open>main.cpp\<close>.
  \<^item> \<^verbatim>\<open>Mysql_Store\<close>, \<^verbatim>\<open>Mysql_Facts\<close>, \<^verbatim>\<open>Mysql_Trace\<close>: \<^verbatim>\<open>storage/mysql_config_store.cpp\<close>: the SQL texts, the
    connection pool, every store operation, the connection string, and the calls on its connections;
    \<^verbatim>\<open>Mysql_Calls\<close>: the virtual functions of the class as calls, and what sequences of them do to the pool;
    \<^verbatim>\<open>Mysql_Pool\<close>: the threads that share the pool, as a step relation with its condition variable.
  \<^item> \<^verbatim>\<open>Backend_View\<close>: an abstract view of a store (applications, namespaces, configs), the effects of its operations
    and what a backend promises (locale \<open>config_backend\<close>); \<^verbatim>\<open>Backend_Sqlite\<close>, \<^verbatim>\<open>Backend_Mysql\<close>: the two stores as
    backends, the latter on the meaning of its statements (locale \<open>mysql_tables\<close>); \<^verbatim>\<open>Backend_Server\<close>: a server
    that reads the statement texts; \<^verbatim>\<open>Backend_Agreement\<close>: where the two agree and where they part.

  \<^bold>\<open>How the parts fit.\<close> \<^verbatim>\<open>NamespaceManager\<close>, \<^verbatim>\<open>PublishEngine\<close>, the handlers and the gRPC services take a
  store as an argument, as the code takes a \<^verbatim>\<open>shared_ptr<ConfigStore>\<close>, and pass its state along;
  the objects of \<^verbatim>\<open>main\<close>, which share one store through pointers, do the same (C8). What they need of it is
  proved once in \<open>config_store\<close> or \<open>reliable_config_store\<close>, and the sublocales of \<^verbatim>\<open>Sqlite_Contract\<close>
  discharge these contracts for the SQLite store on any database engine with the laws of \<open>sqlite_engine\<close>. The
  member functions of the SQLite store, of the channel and of the MySQL pool hold one mutex, so one run of a definition is
  one atomic section, and sequences of runs (\<open>reachable\<close>, \<open>channel_run\<close>) cover the interleavings of
  threads (\<^verbatim>\<open>rollbackConfig\<close> is two sections, a read and an update; \<^verbatim>\<open>healthCheck\<close> and the transaction
  operations take no lock). A request handler is a program that other threads may interrupt between its
  store calls; run alone it is the handler of \<^verbatim>\<open>Http_Server\<close> (\<open>run_request\<close>), and a request makes at most two
  calls (\<open>within_request\<close>), of which one at most reads the clock.

  \<^bold>\<open>Parameters.\<close> Third-party code is not defined here: sqlite_orm (record \<open>orm\<close>, locales \<open>orm_table\<close> to
  \<open>reliable_engine\<close>, instances \<open>mem_orm\<close> and \<open>flaky_orm\<close>), nlohmann JSON (\<open>json_lib\<close>, \<open>json_library\<close>,
  \<open>json_text\<close>, \<open>json_strings\<close>, instance \<open>ref_json\<close>), jwt-cpp (\<open>jwt_lib\<close>, \<open>jwt_library\<close>, instance \<open>ref_jwt\<close>), yaml-cpp
  (\<open>yaml_lib\<close>), SHA-256 and \<^verbatim>\<open>std::hash\<close> (functions), the MySQL connection (\<open>mysql_conn\<close>), the lexical
  rules of MySQL literals (\<open>mysql_literal\<close>, instance \<open>ref_scan\<close>) and the meaning of its statements on the
  applications, namespaces and configs (\<open>mysql_tables\<close>, instance \<open>ref_server\<close>, which reads the statement texts). The clock is the
  argument \<open>now\<close>, its reading the argument of \<open>getTimestamp\<close>. The network and the scheduler are the
  nondeterminism of \<open>http_step\<close> and \<open>pool_step\<close>, and the predicate \<open>bound\<close>; the queries that \<^verbatim>\<open>sync_schema\<close> and
  \<^verbatim>\<open>healthCheck\<close> make are assumed to leave the tables as they are.

  \<^bold>\<open>What is shown.\<close>
  \<^item> Store (C1-C5, C7, C9-C13): the invariant of the tables in every reachable state; publishing is all or nothing;
    the operations refine an abstract specification; versions and logs are append-only; rollback
    restores values; release numbers grow; versions and pages of the history; every operation returns on a
    reliable engine; creating a config is not atomic.
  \<^item> Namespaces and publishing (C14, C17-C20): fallback finds the nearest visible value, and when it
    diverges; lost second draft edit; grayscale publishing never succeeds; full rollout; client
    matching. Concurrent registrations of applications (C6) and edits of one key (C15). Time stamps (C16):
    their texts order like the times, so the history is chronological.
  \<^item> Notifications (C21-C23): per-namespace order, exactly-once hand-over to long polls, catch-up.
  \<^item> The objects of the server behave as one state (C8).
  \<^item> Authentication (C24, C26): tokens between configured servers, the order of permissions, password
    checks. The JSON types of the HTTP answers (C25).
  \<^item> Servers (C28-C33): writing, publishing and reading back over HTTP; malformed bodies; agreement of
    the HTTP session with the handler classes and of the two gRPC services; the watch loops; the life of
    the server process with requests on several threads.
  \<^item> SDK (C35, C36): the cache survives a restart, the delays of reconnection. Start-up (C40).
  \<^item> The two stores agree on sequences of operations on applications, namespaces and configs, up to the
    deletions where the MySQL schema cascades (C34).
  \<^item> MySQL (C27, C37-C39): a publish is one transaction on one connection; no text injection; the pool,
    its leak and its threads; what opening and closing the store does for a connection string.

  \<^bold>\<open>Loops.\<close> Loops over containers are recursion on lists. \<^verbatim>\<open>resolveConfig\<close> and the \<^verbatim>\<open>WatchConfig\<close> loops may
  run forever and are partial functions into \<open>option\<close>, with theorems for when they return and when they
  do not; a blocked \<^verbatim>\<open>acquire\<close> of the MySQL pool is \<open>None\<close>. No definition uses fuel.

  \<^bold>\<open>Not modelled.\<close> The bytes on sockets, the network side of the gRPC library and console output;
  the classes with empty bodies (\<^verbatim>\<open>DraftManager\<close>, \<^verbatim>\<open>ReleaseEngine\<close>, \<^verbatim>\<open>ApprovalEngine\<close>, \<^verbatim>\<open>WatchStream\<close>,
  \<^verbatim>\<open>CatchUp\<close>, \<^verbatim>\<open>LongPolling\<close>, the SDK stubs); generated protobuf code; tests. Floating point results of
  \<^verbatim>\<open>GetConfigDouble\<close> are a parameter. Of the MySQL server only the effect of statements on applications, namespaces
  and configs is assumed; transactions between connections, collations that identify texts, and column widths are left out.
\<close>


section \<open>Writing, publishing and reading over HTTP\<close>


text \<open>The example: a new key of the empty store, on the in-memory engine and JSON values.\<close>

definition demo_json :: "json_value json_lib" where
  "demo_json = ref_json (\<lambda>text. if text = ''put'' then Inr (JObj [(''value'', JStr ''5'')]) else Inr (JObj []))
     (\<lambda>_. Inr [])"




section \<open>Time stamps in the store\<close>

lemma pad2_no_quote: "n < 100 \<Longrightarrow> quote \<notin> set (pad2 n) \<and> backslash \<notin> set (pad2 n)"
  using pad2_digits [of n] by (auto simp: list_all_iff is_digit_def)

lemma clock_no_quote: "s < 86400 \<Longrightarrow> stamp_ok (clock_text s)"
  by (simp add: clock_text_def stamp_ok_def pad2_no_quote)

lemma date_no_quote:
  assumes "n < 2932897"
  shows "stamp_ok (date_text n)"
proof (rule date_fields [OF assms])
  fix y m d
  assume "date_text n = pad2 (y div 100) @ pad2 (y mod 100) @ ''-'' @ pad2 (Suc m) @ ''-'' @ pad2 (Suc d)"
    and "y < 10000" "m < 12" "d < 31"
  then show ?thesis by (simp add: stamp_ok_def pad2_no_quote)
qed

lemma getTimestamp_stamp_ok: "to_time_t c < four_digit_years \<Longrightarrow> stamp_ok (getTimestamp c)"
  using date_no_quote [of "to_time_t c div 86400"] clock_no_quote [of "to_time_t c mod 86400"]
  by (simp add: getTimestamp_def put_time_gmtime stamp_ok_def four_digit_years_def)

lemma getTimestamp_le_iff:
  assumes "to_time_t a < four_digit_years" and "to_time_t b < four_digit_years"
  shows "getTimestamp a \<le> getTimestamp b \<longleftrightarrow> to_time_t a \<le> to_time_t b"
  using getTimestamp_less_iff [OF assms(2,1)] by (auto simp: not_less [symmetric])


text \<open>
  The example: two changes within an hour, across the end of a leap February, and a query whose window begins
  between them.
\<close>

definition demo_stamped :: storage where
  "demo_stamped = snd (updateConfig mem_orm ''2024-03-01T00:00:00Z'' ''ns'' ''k'' ''v2'' ''bob'' True
     (snd (createConfig mem_orm ''2024-02-29T23:00:00Z'' ''ns'' ''k'' ''v1'' ''bob'' init_storage)))"

definition demo_window :: ChangeLogQuery where
  "demo_window = \<lparr>clq_key = None, clq_namespace_id = Some ''ns'', clq_time_from = Some ''2024-02-29T23:30:00Z'',
     clq_time_to = Some ''2024-03-01T00:00:00Z'', clq_page = 1, clq_page_size = 10\<rparr>"

definition demo_clock :: "ChangeLog \<Rightarrow> nat" where
  "demo_clock l = (if cl_version l = 1 then 1709247600000000000 else 1709251200000000000)"

lemmas stamp_eval = getTimestamp_def to_time_t_def gmtime_def put_time_def split_year.simps year_days_def leap_def
  month_days_def pad2_def show_nat.simps digit_char_def char_of_def bit_numeral_rec bit_0

lemma demo_stamps:
  "getTimestamp 1709247600000000000 = ''2024-02-29T23:00:00Z''"
  "getTimestamp 1709249400000000000 = ''2024-02-29T23:30:00Z''"
  "getTimestamp 1709251200000000000 = ''2024-03-01T00:00:00Z''"
  by (simp_all add: stamp_eval)


end
